(* ===== verification/Prelude.thy ===== *)
theory Prelude
  imports Main "HOL-Library.Word" "HOL-Library.Monad_Syntax"
begin

text \<open>
  Vocabulary shared by every theory of the development: machine integers of the
  widths the program uses, C strings, the result type of code that can step
  outside a contract of a library it calls, and the facts about options, lists
  and words that the component proofs share.

  A computation of type \<open>'a option\<close> marks with \<open>None\<close> an execution that leaves
  the contract of the code it calls: reading an absent JSON member, asking a JSON
  value for a type it does not have, dereferencing a null pointer, or letting an
  exception escape from a \<open>noexcept\<close> function.  Errors that the program itself
  reports are values of the result, never \<open>None\<close>.
\<close>

section \<open>Machine types\<close>

type_synonym byte = "8 word"
type_synonym u16 = "16 word"
type_synonym u32 = "32 word"
type_synonym u64 = "64 word"

section \<open>C strings\<close>

text \<open>What \<open>std::string(s.c_str())\<close> keeps of a string: the part before the first NUL.\<close>

definition c_str :: "string \<Rightarrow> string" where
  "c_str s = takeWhile (\<lambda>c. c \<noteq> CHR 0x00) s"

lemma c_str_idem [simp]: "c_str (c_str s) = c_str s"
  unfolding c_str_def by (metis takeWhile_idem)

lemma c_str_no_nul [simp]: "CHR 0x00 \<notin> set (c_str s)"
  unfolding c_str_def by (auto dest: set_takeWhileD)

lemma c_str_append_nul [simp]: "c_str (s @ CHR 0x00 # t) = c_str s"
  unfolding c_str_def by (induction s) auto

lemma c_str_id: "CHR 0x00 \<notin> set s \<Longrightarrow> c_str s = s"
  unfolding c_str_def by (induction s) auto

section \<open>Computations that can leave a contract\<close>

definition require :: "bool \<Rightarrow> unit option" where
  "require b = (if b then Some () else None)"

lemma require_simps [simp]:
  "require True = Some ()" "require False = None"
  by (simp_all add: require_def)

lemma require_eq_Some [simp]: "require b = Some u \<longleftrightarrow> b"
  by (simp add: require_def)

lemma require_eq_None [simp]: "require b = None \<longleftrightarrow> \<not> b"
  by (simp add: require_def)

named_theorems contract_free
  \<open>rules that show a computation stays inside the contracts it relies on\<close>

lemma bind_total [contract_free]:
  assumes "\<exists>x. m = Some x" "\<And>x. m = Some x \<Longrightarrow> \<exists>y. f x = Some y"
  shows "\<exists>y. m \<bind> f = Some y"
  using assms by auto

lemma Some_total [contract_free]: "\<exists>y. Some x = Some y"
  by simp

lemma if_total [contract_free]:
  "\<lbrakk>b \<Longrightarrow> \<exists>y. m = Some y; \<not> b \<Longrightarrow> \<exists>y. n = Some y\<rbrakk>
     \<Longrightarrow> \<exists>y. (if b then m else n) = Some y"
  by simp

lemma case_option_total [contract_free]:
  "\<lbrakk>x = None \<Longrightarrow> \<exists>y. m = Some y; \<And>z. x = Some z \<Longrightarrow> \<exists>y. f z = Some y\<rbrakk>
     \<Longrightarrow> \<exists>y. (case x of None \<Rightarrow> m | Some z \<Rightarrow> f z) = Some y"
  by (cases x) simp_all

lemma case_prod_total [contract_free]:
  "(\<And>a b. x = (a, b) \<Longrightarrow> \<exists>y. f a b = Some y) \<Longrightarrow> \<exists>y. (case x of (a, b) \<Rightarrow> f a b) = Some y"
  by (cases x) simp

lemma bind_Some_iff: "(m \<bind> f = Some y) \<longleftrightarrow> (\<exists>x. m = Some x \<and> f x = Some y)"
  by (cases m) auto

text \<open>A loop that appends one result per element and stops at the first fault.\<close>

fun map_opt :: "('a \<Rightarrow> 'b option) \<Rightarrow> 'a list \<Rightarrow> 'b list option" where
  "map_opt f [] = Some []"
| "map_opt f (x # xs) = do { y \<leftarrow> f x; ys \<leftarrow> map_opt f xs; Some (y # ys) }"

lemma map_opt_eq_Some:
  "map_opt f xs = Some ys \<longleftrightarrow> list_all2 (\<lambda>x y. f x = Some y) xs ys"
  by (induction xs arbitrary: ys)
    (auto simp: bind_Some_iff list_all2_Cons1)

lemma map_opt_total:
  assumes "\<And>x. x \<in> set xs \<Longrightarrow> f x = Some (g x)"
  shows "map_opt f xs = Some (map g xs)"
  using assms by (induction xs) auto

lemma map_opt_map_total:
  assumes "\<And>x. x \<in> set xs \<Longrightarrow> f (g x) = Some (h x)"
  shows "map_opt f (map g xs) = Some (map h xs)"
  using assms by (induction xs) auto

lemma map_opt_total_iff:
  "(\<exists>ys. map_opt f xs = Some ys) \<longleftrightarrow> (\<forall>x\<in>set xs. \<exists>y. f x = Some y)"
proof (induction xs)
  case (Cons x xs)
  then show ?case by (cases "f x"; cases "map_opt f xs") auto
qed simp

section \<open>Association lists\<close>

lemma map_of_append_single:
  "map_of (xs @ [(k, v)]) k' =
     (case map_of xs k' of Some y \<Rightarrow> Some y | None \<Rightarrow> if k = k' then Some v else None)"
  by (simp add: map_add_def split: option.splits)

lemma map_of_filter_neq:
  "map_of (filter (\<lambda>(k, v). k \<noteq> k0) xs) = (map_of xs)(k0 := None)"
  by (induction xs) auto

section \<open>Narrowing\<close>

lemma uint_narrow:
  "uint (ucast (w :: u32) :: u16) = uint w mod 65536" "uint (ucast w :: byte) = uint w mod 256"
  by (simp_all add: unsigned_ucast_eq take_bit_eq_mod)

lemma narrow_eq:
  "(ucast (w :: u32) :: u16) = word_of_int (uint w mod 65536)"
  "(ucast w :: byte) = word_of_int (uint w mod 256)"
  by (simp_all add: uint_narrow [symmetric])

lemma ucast_8_32_8 [simp]: "ucast (ucast (w :: byte) :: u32) = w"
  by transfer simp

end
