(* ===== verification/Byte_Array.thy ===== *)
theory Byte_Array
  imports Prelude
begin

text \<open>
  The byte string of \<open>src/src/libs/byte_array\<close>: a \<open>std::vector<uint8_t>\<close> with
  conversions to text, hexadecimal and octal, and the escaped form used when data
  is shown.  A value is a list of 8-bit words.  The conversions of a byte to digits
  go through \<open>std::ostringstream\<close> with a radix, a fill and a width, which are
  modelled by the digits of a number in a base, padded on the left.
\<close>

section \<open>Characters and bytes\<close>

definition byte_of_char :: "char \<Rightarrow> byte" where
  "byte_of_char c = word_of_nat (of_char c)"

definition char_of_byte :: "byte \<Rightarrow> char" where
  "char_of_byte b = char_of (unat b)"

lemma char_byte_inverse [simp]: "char_of_byte (byte_of_char c) = c"
proof -
  have "(of_char c :: nat) < 256" by simp
  then have "unat (word_of_nat (of_char c) :: byte) = of_char c"
    by (simp add: unat_of_nat)
  then show ?thesis by (simp add: char_of_byte_def byte_of_char_def)
qed

lemma byte_char_inverse [simp]: "byte_of_char (char_of_byte b) = b"
proof -
  have "unat b < 256" using unsigned_less [of b, where 'a = nat] by simp
  then show ?thesis
    by (simp add: char_of_byte_def byte_of_char_def of_char_of)
qed

section \<open>Numbers in a base\<close>

text \<open>The digits of \<open>n\<close> in base \<open>b\<close>, most significant first, without padding.\<close>

fun base_digits :: "nat \<Rightarrow> nat \<Rightarrow> nat list" where
  "base_digits b n = (if b < 2 \<or> n < b then [n] else base_digits b (n div b) @ [n mod b])"

declare base_digits.simps [simp del]

definition digit_char :: "bool \<Rightarrow> nat \<Rightarrow> char" where
  "digit_char up d = char_of (if d < 10 then 48 + d else (if up then 55 else 87) + d)"

definition digit_value :: "char \<Rightarrow> nat" where
  "digit_value c = (let n = of_char c in
     if n < 58 then n - 48 else if n < 97 then n - 55 else n - 87)"

text \<open>\<open>setfill('0')\<close> and \<open>setw(w)\<close>: pad on the left up to the width.\<close>

definition set_w :: "nat \<Rightarrow> string \<Rightarrow> string" where
  "set_w w s = replicate (w - length s) CHR ''0'' @ s"

definition byte_to_hex :: "byte \<Rightarrow> bool \<Rightarrow> string" where
  "byte_to_hex b up_case = set_w 2 (map (digit_char up_case) (base_digits 16 (unat b)))"

definition byte_to_octo :: "byte \<Rightarrow> string" where
  "byte_to_octo b = set_w 3 (map (digit_char True) (base_digits 8 (unat b)))"

section \<open>The class\<close>

type_synonym byte_array = "byte list"

text \<open>The constructor from a string.\<close>

definition Byte_Array_of :: "string \<Rightarrow> byte_array" where
  "Byte_Array_of s = map byte_of_char s"

definition to_string :: "byte_array \<Rightarrow> string" where
  "to_string bs = map char_of_byte bs"

text \<open>
  The loop of \<open>to_hex\<close>; \<open>i\<close> counts the bytes already written and \<open>n\<close> is \<open>size()\<close>.
  A byte space of zero divides by zero.
\<close>

fun to_hex_loop :: "bool \<Rightarrow> string \<Rightarrow> nat \<Rightarrow> nat \<Rightarrow> nat \<Rightarrow> byte_array \<Rightarrow> string" where
  "to_hex_loop up sep space n i [] = ''''"
| "to_hex_loop up sep space n i (b # bs) =
     byte_to_hex b up
     @ (if i + 1 \<noteq> n \<and> (i + 1) mod space = 0 then sep else '''')
     @ to_hex_loop up sep space n (i + 1) bs"

definition to_hex :: "bool \<Rightarrow> string \<Rightarrow> nat \<Rightarrow> byte_array \<Rightarrow> string option" where
  "to_hex up_case separator byte_space bs =
     (if byte_space = 0 \<and> length bs > 1 then None
      else Some (to_hex_loop up_case separator byte_space (length bs) 0 bs))"

datatype Escape_Format = PRINTF | HEX | OCTO

text \<open>\<open>isprint\<close> of the C locale the program runs in.\<close>

definition is_print :: "byte \<Rightarrow> bool" where
  "is_print b \<longleftrightarrow> 0x20 \<le> b \<and> b \<le> 0x7E"

definition escape_byte :: "Escape_Format \<Rightarrow> byte \<Rightarrow> string" where
  "escape_byte format b =
     (case format of
        PRINTF \<Rightarrow>
          (if b = 0x5C then [CHR 0x5C]
           else if b = 0xA then ''n''
           else if b = 0xD then ''n''
           else if b = 0x9 then ''t''
           else if b = 0xB then ''v''
           else ''x'' @ byte_to_hex b True)
      | HEX \<Rightarrow> ''x'' @ byte_to_hex b True
      | OCTO \<Rightarrow> byte_to_octo b)"

fun to_scape_string ::
  "Escape_Format \<Rightarrow> string \<Rightarrow> string \<Rightarrow> byte_array \<Rightarrow> string" where
  "to_scape_string format enclose_begin enclose_end [] = ''''"
| "to_scape_string format enclose_begin enclose_end (b # bs) =
     (if is_print b \<and> b \<noteq> 0x5C then [char_of_byte b]
      else enclose_begin @ escape_byte format b @ enclose_end)
     @ to_scape_string format enclose_begin enclose_end bs"

text \<open>\<open>copy\<close>: clear, then push the characters one by one.\<close>

fun push_all :: "byte_array \<Rightarrow> string \<Rightarrow> byte_array" where
  "push_all acc [] = acc"
| "push_all acc (c # cs) = push_all (acc @ [byte_of_char c]) cs"

definition copy :: "byte_array \<Rightarrow> string \<Rightarrow> byte_array" where
  "copy self s = push_all [] s"

section \<open>Lemmas\<close>

lemma base_digits_small: "n < b \<Longrightarrow> base_digits b n = [n]"
  by (subst base_digits.simps) simp

lemma base_digits_two:
  assumes "2 \<le> b" "b \<le> n" "n < b * b"
  shows "base_digits b n = [n div b, n mod b]"
proof -
  have "n div b < b" using assms by (simp add: less_mult_imp_div_less)
  then show ?thesis
    using assms by (subst base_digits.simps) (simp add: base_digits_small)
qed

lemma byte_bound: "unat (b :: byte) < 256"
  using unsigned_less [of b, where 'a = nat] by simp

lemma byte_to_hex_eq:
  "byte_to_hex b up = [digit_char up (unat b div 16), digit_char up (unat b mod 16)]"
proof (cases "unat b < 16")
  case True
  then show ?thesis
    by (simp add: byte_to_hex_def base_digits_small set_w_def digit_char_def char_of_def bit_0)
next
  case False
  then show ?thesis
    using byte_bound [of b] base_digits_two [of 16 "unat b"]
    by (simp add: byte_to_hex_def set_w_def)
qed

lemma digit_value_char [simp]:
  assumes "d < 16"
  shows "digit_value (digit_char up d) = d"
  using assms by (auto simp: digit_value_def digit_char_def of_char_of Let_def)

lemma push_all_eq: "push_all acc s = acc @ map byte_of_char s"
  by (induction s arbitrary: acc) auto

lemma copy_eq: "copy self s = Byte_Array_of s"
  by (simp add: copy_def push_all_eq Byte_Array_of_def)

lemma to_hex_loop_plain:
  "to_hex_loop up '''' space n i bs = concat (map (\<lambda>b. byte_to_hex b up) bs)"
  by (induction bs arbitrary: i) auto

text \<open>The reading of a string of hexadecimal digit pairs.\<close>

fun of_hex :: "string \<Rightarrow> byte_array" where
  "of_hex (h # l # s) = word_of_nat (16 * digit_value h + digit_value l) # of_hex s"
| "of_hex s = []"

lemma of_hex_concat: "of_hex (concat (map (\<lambda>b. byte_to_hex b up) bs)) = bs"
proof (induction bs)
  case (Cons b bs)
  have "16 * (unat b div 16) + unat b mod 16 = unat b" by simp
  with Cons show ?case
    using byte_bound [of b] by (simp add: byte_to_hex_eq)
qed simp

section \<open>Properties\<close>

text \<open>
  Conversions lose nothing.  The hexadecimal form without a separator, in either
  case, reads back to the bytes it was made from whatever the byte space is, its length
  is twice the number of bytes, and the text of a byte string copies back into it.
\<close>

theorem hex_roundtrip:
  assumes "space \<noteq> 0"
  shows "\<exists>s. to_hex up '''' space bs = Some s \<and> of_hex s = bs \<and> length s = 2 * length bs \<and>
    copy other (to_string bs) = bs"
proof -
  have "length (concat (map (\<lambda>b. byte_to_hex b up) bs)) = 2 * length bs"
    by (induction bs) (simp_all add: byte_to_hex_eq)
  then show ?thesis
    using assms by (simp add: to_hex_def to_hex_loop_plain of_hex_concat copy_eq
        Byte_Array_of_def to_string_def comp_def)
qed

theorem hex_roundtrip_witness:
  "\<exists>s. to_hex True '''' 3 [0x1F, 0x00, 0xAB, 0x7E] = Some s \<and> of_hex s = [0x1F, 0x00, 0xAB, 0x7E] \<and>
    length s = 2 * length [0x1F, 0x00, 0xAB, 0x7E :: byte] \<and>
    copy [] (to_string [0x1F, 0x00, 0xAB, 0x7E]) = [0x1F, 0x00, 0xAB, 0x7E]"
  by (rule hex_roundtrip) simp

text \<open>
  The escaped form in the \<open>PRINTF\<close> format shows a carriage return as a line feed:
  replacing every carriage return of a byte string by a line feed does not change it.
  The other two formats keep the two bytes apart.
\<close>

theorem escape_confuses_newlines:
  "to_scape_string PRINTF b e bs =
     to_scape_string PRINTF b e (map (\<lambda>x. if x = 0xD then 0xA else x) bs) \<and>
   to_scape_string HEX b e [0xD] \<noteq> to_scape_string HEX b e [0xA] \<and>
   to_scape_string OCTO b e [0xD] \<noteq> to_scape_string OCTO b e [0xA]"
proof -
  have "to_scape_string PRINTF b e bs =
      to_scape_string PRINTF b e (map (\<lambda>x. if x = 0xD then 0xA else x) bs)"
    by (induction bs) (auto simp: is_print_def escape_byte_def)
  moreover have "to_scape_string HEX b e [0xD] \<noteq> to_scape_string HEX b e [0xA]"
    by (simp add: is_print_def escape_byte_def byte_to_hex_eq digit_char_def char_of_def bit_0)
  moreover have "to_scape_string OCTO b e [0xD] \<noteq> to_scape_string OCTO b e [0xA]"
    by (simp add: is_print_def escape_byte_def byte_to_octo_def base_digits_two set_w_def
        digit_char_def char_of_def bit_0)
  ultimately show ?thesis by blast
qed

end
