(* ===== verification/Json_Dom.thy ===== *)
theory Json_Dom
  imports Prelude
begin

text \<open>
  The interface to the JSON library.  RapidJSON is not part of the repository, so
  its document type is a parameter \<open>'j\<close> and its operations are the fields of a
  record \<open>L\<close> that every definition using JSON receives.  The checked accessors
  below add the preconditions the RapidJSON documentation gives: a member is only
  looked up in an object, \<open>operator[]\<close> needs the member to exist and \<open>GetUint\<close>,
  \<open>GetString\<close> and the others need a value of that type.  Outside them the result
  is \<open>None\<close>.  \<open>dom_laws\<close> collects the documented behaviour the round-trip
  properties rely on, and \<open>jv_lib\<close> is a concrete document type that satisfies it.
\<close>

section \<open>The library interface\<close>

text \<open>
  \<open>jd_parse\<close> is \<open>Parse\<close> with \<open>HasParseError\<close>, \<open>jd_write\<close> is \<open>Accept\<close> into a
  \<open>Writer\<close> (a document built by SAX calls on the writer gives the same text as the
  value with those members), \<open>jd_add\<close> is \<open>AddMember\<close> and \<open>jd_assign\<close> the assignment
  through \<open>operator[]\<close> to a member that exists.  \<open>sys_value\<close> and \<open>sys_message\<close> are
  the number and the text of an error of the standard library, of Boost or of the
  operating system, which is identified by its name.
\<close>

record 'j lib =
  jd_parse :: "string \<Rightarrow> 'j option"
  jd_write :: "'j \<Rightarrow> string"
  jd_is_object :: "'j \<Rightarrow> bool"
  jd_is_array :: "'j \<Rightarrow> bool"
  jd_is_string :: "'j \<Rightarrow> bool"
  jd_is_bool :: "'j \<Rightarrow> bool"
  jd_is_uint :: "'j \<Rightarrow> bool"
  jd_is_int :: "'j \<Rightarrow> bool"
  jd_is_uint64 :: "'j \<Rightarrow> bool"
  jd_get_string :: "'j \<Rightarrow> string"
  jd_get_bool :: "'j \<Rightarrow> bool"
  jd_get_uint :: "'j \<Rightarrow> u32"
  jd_get_int :: "'j \<Rightarrow> u32"
  jd_get_uint64 :: "'j \<Rightarrow> u64"
  jd_find :: "'j \<Rightarrow> string \<Rightarrow> 'j option"
  jd_elements :: "'j \<Rightarrow> 'j list"
  jd_values :: "'j \<Rightarrow> 'j list"
  jd_string :: "string \<Rightarrow> 'j"
  jd_bool :: "bool \<Rightarrow> 'j"
  jd_uint :: "u32 \<Rightarrow> 'j"
  jd_int :: "u32 \<Rightarrow> 'j"
  jd_uint64 :: "u64 \<Rightarrow> 'j"
  jd_array :: "'j list \<Rightarrow> 'j"
  jd_object :: "(string \<times> 'j) list \<Rightarrow> 'j"
  jd_add :: "'j \<Rightarrow> string \<Rightarrow> 'j \<Rightarrow> 'j"
  jd_assign :: "'j \<Rightarrow> string \<Rightarrow> 'j \<Rightarrow> 'j"
  sys_value :: "string \<Rightarrow> u32"
  sys_message :: "string \<Rightarrow> string"

section \<open>Checked accessors\<close>

definition has_member :: "('j, 'z) lib_scheme \<Rightarrow> 'j \<Rightarrow> string \<Rightarrow> bool option" where
  "has_member L j k = (if jd_is_object L j then Some (jd_find L j k \<noteq> None) else None)"

definition member_of :: "('j, 'z) lib_scheme \<Rightarrow> 'j \<Rightarrow> string \<Rightarrow> 'j option" where
  "member_of L j k = (if jd_is_object L j then jd_find L j k else None)"

definition get_string :: "('j, 'z) lib_scheme \<Rightarrow> 'j \<Rightarrow> string option" where
  "get_string L j = (if jd_is_string L j then Some (jd_get_string L j) else None)"

definition get_bool :: "('j, 'z) lib_scheme \<Rightarrow> 'j \<Rightarrow> bool option" where
  "get_bool L j = (if jd_is_bool L j then Some (jd_get_bool L j) else None)"

definition get_uint :: "('j, 'z) lib_scheme \<Rightarrow> 'j \<Rightarrow> u32 option" where
  "get_uint L j = (if jd_is_uint L j then Some (jd_get_uint L j) else None)"

definition get_int :: "('j, 'z) lib_scheme \<Rightarrow> 'j \<Rightarrow> u32 option" where
  "get_int L j = (if jd_is_int L j then Some (jd_get_int L j) else None)"

definition get_uint64 :: "('j, 'z) lib_scheme \<Rightarrow> 'j \<Rightarrow> u64 option" where
  "get_uint64 L j = (if jd_is_uint64 L j then Some (jd_get_uint64 L j) else None)"

definition array_items :: "('j, 'z) lib_scheme \<Rightarrow> 'j \<Rightarrow> 'j list option" where
  "array_items L j = (if jd_is_array L j then Some (jd_elements L j) else None)"

definition object_values :: "('j, 'z) lib_scheme \<Rightarrow> 'j \<Rightarrow> 'j list option" where
  "object_values L j = (if jd_is_object L j then Some (jd_values L j) else None)"

text \<open>A member read as a C string: \<open>std::string(doc[k].GetString())\<close>.\<close>

definition member_c_str :: "('j, 'z) lib_scheme \<Rightarrow> 'j \<Rightarrow> string \<Rightarrow> string option" where
  "member_c_str L j k = do { v \<leftarrow> member_of L j k; s \<leftarrow> get_string L v; Some (c_str s) }"

text \<open>The short-circuit operators over tests that can leave the contract.\<close>

definition opt_and :: "bool option \<Rightarrow> bool option \<Rightarrow> bool option" where
  "opt_and a b = do { x \<leftarrow> a; if x then b else Some False }"

definition opt_or :: "bool option \<Rightarrow> bool option \<Rightarrow> bool option" where
  "opt_or a b = do { x \<leftarrow> a; if x then Some True else b }"

text \<open>\<open>doc.HasMember(k) && p(doc[k])\<close>, the guard the parsers use.\<close>

definition has_with :: "('j, 'z) lib_scheme \<Rightarrow> 'j \<Rightarrow> string \<Rightarrow> ('j \<Rightarrow> bool) \<Rightarrow> bool option" where
  "has_with L j k p = opt_and (has_member L j k) (do { v \<leftarrow> member_of L j k; Some (p v) })"

lemma opt_and_True [simp]: "opt_and a b = Some True \<longleftrightarrow> a = Some True \<and> b = Some True"
  by (cases a) (auto simp: opt_and_def)

lemma opt_or_False [simp]: "opt_or a b = Some False \<longleftrightarrow> a = Some False \<and> b = Some False"
  by (cases a) (auto simp: opt_or_def)

lemma opt_and_Some: "opt_and (Some x) b = (if x then b else Some False)"
  by (simp add: opt_and_def)

lemma opt_or_Some: "opt_or (Some x) b = (if x then Some True else b)"
  by (simp add: opt_or_def)

lemma opt_and_total [contract_free]:
  "\<lbrakk>\<exists>x. a = Some x; a = Some True \<Longrightarrow> \<exists>y. b = Some y\<rbrakk> \<Longrightarrow> \<exists>y. opt_and a b = Some y"
  by (auto simp: opt_and_def)

lemma has_with_True [simp]:
  "has_with L j k p = Some True \<longleftrightarrow>
     jd_is_object L j \<and> (\<exists>v. jd_find L j k = Some v \<and> p v)"
  by (auto simp: has_with_def has_member_def member_of_def)

lemma has_member_True [simp]:
  "has_member L j k = Some True \<longleftrightarrow> jd_is_object L j \<and> (\<exists>v. jd_find L j k = Some v)"
  by (auto simp: has_member_def)

lemma has_with_object:
  "jd_is_object L j \<Longrightarrow>
     has_with L j k p = Some (case jd_find L j k of None \<Rightarrow> False | Some v \<Rightarrow> p v)"
  by (auto simp: has_with_def has_member_def member_of_def opt_and_def split: option.splits)

lemma has_member_object:
  "jd_is_object L j \<Longrightarrow> has_member L j k = Some (jd_find L j k \<noteq> None)"
  by (simp add: has_member_def)

lemma member_of_object: "jd_is_object L j \<Longrightarrow> member_of L j k = jd_find L j k"
  by (simp add: member_of_def)

text \<open>The accessors succeed where the guards of a parser have looked before.\<close>

lemma has_member_total [contract_free]:
  "jd_is_object L j \<Longrightarrow> \<exists>b. has_member L j k = Some b"
  by (simp add: has_member_def)

lemma has_with_total [contract_free]:
  "jd_is_object L j \<Longrightarrow> \<exists>b. has_with L j k p = Some b"
  by (simp add: has_with_object)

lemma member_c_str_eq:
  "\<lbrakk>jd_is_object L j; jd_find L j k = Some v; jd_is_string L v\<rbrakk>
     \<Longrightarrow> member_c_str L j k = Some (c_str (jd_get_string L v))"
  by (simp add: member_c_str_def member_of_def get_string_def)

lemma member_c_str_guarded [contract_free]:
  "has_with L j k (jd_is_string L) = Some True \<Longrightarrow> \<exists>s. member_c_str L j k = Some s"
  by (auto simp: member_c_str_eq)

text \<open>The step all the parsers open with: enter an object member, or give up.\<close>

lemma under_object_total:
  assumes "jd_is_object L doc"
    and "\<And>d. \<lbrakk>jd_find L doc k = Some d; jd_is_object L d\<rbrakk> \<Longrightarrow> \<exists>b. f d = Some b"
  shows "\<exists>b. (do { ok \<leftarrow> has_with L doc k (jd_is_object L);
      if \<not> ok then Some x else do { d \<leftarrow> member_of L doc k; f d } }) = Some b"
  using assms by (auto simp: has_with_object member_of_def split: option.splits)

lemma member_bind_Some:
  "(member_of L doc k \<bind> f) = Some y \<longleftrightarrow>
     jd_is_object L doc \<and> (\<exists>d. jd_find L doc k = Some d \<and> f d = Some y)"
  by (auto simp: bind_Some_iff member_of_def)

lemma guarded_True:
  "(do { ok \<leftarrow> check; if \<not> ok then Some False else m }) = Some True \<longleftrightarrow>
     check = Some True \<and> m = Some True"
  by (auto simp: bind_Some_iff split: if_splits)

lemmas guard_simps = guarded_True member_bind_Some

text \<open>A guard followed by a reader that succeeds behind it.\<close>

lemma guarded_total:
  assumes "\<exists>b. check = Some b" "check = Some True \<Longrightarrow> \<exists>r. m = Some r"
  shows "\<exists>r. (do { ok \<leftarrow> check; if \<not> ok then Some x else m }) = Some r"
  using assms by auto

lemmas accessor_defs =
  member_of_def get_string_def get_bool_def get_uint_def get_int_def get_uint64_def
  array_items_def object_values_def member_c_str_def

end
