(* ===== verification/Core_App.thy ===== *)
theory Core_App
  imports Byte_Array Json_Dom
begin

text \<open>
  The core of the program, \<open>src/src/core\<close>: the error codes of \<open>error.cpp\<close>, the
  enumerations of \<open>message.hpp\<close>, the identifiers of \<open>functions.cpp\<close> and the table
  of applications (\<open>App\<close> and \<open>Dispatcher\<close> of \<open>app.cpp\<close>).  The process-wide
  state (the table, the two counters, the clock and what has been handed to the
  websocket sessions for writing) is the record \<open>core\<close>; the type \<open>'f\<close> stands for
  the \<open>std::function\<close> objects the table holds.
\<close>

section \<open>Error codes\<close>

datatype Message_Errc =
    ILL_FORMED
  | APP_NOT_FOUND
  | SERVER_INTERNAL_ERROR
  | RESOURCE_IN_USE
  | RESOURCE_NOT_FOUND

fun Message_Errc_value :: "Message_Errc \<Rightarrow> u32" where
  "Message_Errc_value ILL_FORMED = 10"
| "Message_Errc_value APP_NOT_FOUND = 11"
| "Message_Errc_value SERVER_INTERNAL_ERROR = 20"
| "Message_Errc_value RESOURCE_IN_USE = 21"
| "Message_Errc_value RESOURCE_NOT_FOUND = 22"

definition Message_Err_Category_name :: string where
  "Message_Err_Category_name = ''Message''"

definition Message_Err_Category_message :: "u32 \<Rightarrow> string" where
  "Message_Err_Category_message ev =
     (if ev = Message_Errc_value ILL_FORMED then ''Ill formed message''
      else if ev = Message_Errc_value APP_NOT_FOUND then ''App not found''
      else if ev = Message_Errc_value SERVER_INTERNAL_ERROR then ''Server internal error''
      else if ev = Message_Errc_value RESOURCE_IN_USE then ''Resoruce in use''
      else if ev = Message_Errc_value RESOURCE_NOT_FOUND then ''Resource not founde''
      else ''(unrecognized error)'')"

text \<open>
  An error is a code of the program's own category or, by name, one of the
  standard library, Boost or the operating system.
\<close>

datatype error_code = Message_Code u32 | Sys_Code string

definition make_error_code :: "Message_Errc \<Rightarrow> error_code" where
  "make_error_code e = Message_Code (Message_Errc_value e)"

fun ec_value :: "('j, 'z) lib_scheme \<Rightarrow> error_code \<Rightarrow> u32" where
  "ec_value L (Message_Code n) = n"
| "ec_value L (Sys_Code s) = sys_value L s"

fun ec_message :: "('j, 'z) lib_scheme \<Rightarrow> error_code \<Rightarrow> string" where
  "ec_message L (Message_Code n) = Message_Err_Category_message n"
| "ec_message L (Sys_Code s) = sys_message L s"

section \<open>Message enumerations\<close>

datatype Message_App =
    main | echo | serial | monitor | tcp_server | tcp_client | udp_client | udp_server

datatype Message_Type = data_type | control_type

datatype Message_Control = status | config | open_c | close_c | custom | error_c

text \<open>
  \<open>Main_Data\<close>.  The parser leaves \<open>control\<close> unassigned for data messages, which is
  \<open>None\<close>; reading it then reads an indeterminate value.
\<close>

record Main_Data =
  md_app :: Message_App
  md_time :: u64
  md_type :: Message_Type
  md_control :: "Message_Control option"

section \<open>Applications and their table\<close>

text \<open>\<open>name_\<close> is a C string that may be null and \<open>func_\<close> may be empty.\<close>

record 'f app_rec =
  app_id :: Message_App
  app_name :: "string option"
  app_func :: "'f option"

definition App_default :: "'f app_rec" where
  "App_default = \<lparr>app_id = main, app_name = None, app_func = None\<rparr>"

text \<open>\<open>App::exec\<close>: the functor is called only when there is one.\<close>

definition App_exec :: "('f \<Rightarrow> 's \<Rightarrow> 's option) \<Rightarrow> 'f app_rec \<Rightarrow> 's \<Rightarrow> 's option" where
  "App_exec call a s = (case app_func a of Some f \<Rightarrow> call f s | None \<Rightarrow> Some s)"

text \<open>
  \<open>apps\<close> is an \<open>unordered_map\<close>: a list of key and value pairs whose order stands
  for the unspecified iteration order.
\<close>

type_synonym 'f app_table = "(Message_App \<times> 'f app_rec) list"

definition register_app :: "'f app_table \<Rightarrow> 'f app_rec \<Rightarrow> 'f app_table" where
  "register_app apps a =
     (case map_of apps (app_id a) of
        Some _ \<Rightarrow> apps
      | None \<Rightarrow> apps @ [(app_id a, a)])"

definition Dispatcher_app :: "'f app_table \<Rightarrow> Message_App \<Rightarrow> 'f app_rec option" where
  "Dispatcher_app apps app_m = map_of apps app_m"

text \<open>A null name in the table is passed to \<open>std::string\<close>, which is not allowed.\<close>

fun Dispatcher_name :: "'f app_table \<Rightarrow> string \<Rightarrow> 'f app_rec option option" where
  "Dispatcher_name [] name = Some None"
| "Dispatcher_name ((k, a) # apps) name =
     do { n \<leftarrow> app_name a;
          if c_str n = name then Some (Some a) else Dispatcher_name apps name }"

definition Dispatcher_exec ::
  "('f \<Rightarrow> 's \<Rightarrow> 's option) \<Rightarrow> 'f app_table \<Rightarrow> Message_App \<Rightarrow> 's \<Rightarrow> (bool \<times> 's) option" where
  "Dispatcher_exec call apps app_m s =
     (case map_of apps app_m of
        None \<Rightarrow> Some (False, s)
      | Some a \<Rightarrow> do { s' \<leftarrow> App_exec call a s; Some (True, s') })"

text \<open>\<open>for_each\<close> with the callback that collects the names.\<close>

definition Dispatcher_names :: "'f app_table \<Rightarrow> string list option" where
  "Dispatcher_names apps = map_opt (\<lambda>(k, a). app_name a) apps"

section \<open>The state of the core\<close>

text \<open>
  What the core hands to the websocket layer: the frame type of a session, a write to
  one session or to all, with or without setting the frame type first.
\<close>

datatype action =
    Set_Text nat bool
  | Write nat byte_array bool
  | Write_All byte_array bool
  | Write_Same nat byte_array
  | Write_All_Same byte_array

record 'f core =
  c_apps :: "'f app_table"
  c_mid :: u64
  c_userid :: u64
  c_clock :: "nat \<Rightarrow> u64"
  c_ticks :: nat
  c_out :: "action list"

definition server_user_id :: u32 where
  "server_user_id = 0"

definition core_init :: "(nat \<Rightarrow> u64) \<Rightarrow> 'f core" where
  "core_init clock = \<lparr>c_apps = [], c_mid = 0, c_userid = ucast server_user_id + 1,
     c_clock = clock, c_ticks = 0, c_out = []\<rparr>"

definition user_id :: "'f core \<Rightarrow> u32 \<times> 'f core" where
  "user_id c = (ucast (c_userid c), c\<lparr>c_userid := c_userid c + 1\<rparr>)"

definition get_mid :: "'f core \<Rightarrow> u64 \<times> 'f core" where
  "get_mid c = (c_mid c, c\<lparr>c_mid := c_mid c + 1\<rparr>)"

text \<open>\<open>Message::time\<close>: each call takes the next reading of the system clock.\<close>

definition msg_time :: "'f core \<Rightarrow> u64 \<times> 'f core" where
  "msg_time c = (c_clock c (c_ticks c), c\<lparr>c_ticks := c_ticks c + 1\<rparr>)"

definition emit :: "action \<Rightarrow> 'f core \<Rightarrow> 'f core" where
  "emit a c = c\<lparr>c_out := c_out c @ [a]\<rparr>"

lemma emit_simps [simp]:
  "c_apps (emit a c) = c_apps c" "c_mid (emit a c) = c_mid c"
  "c_userid (emit a c) = c_userid c" "c_clock (emit a c) = c_clock c"
  "c_ticks (emit a c) = c_ticks c" "c_out (emit a c) = c_out c @ [a]"
  by (simp_all add: emit_def)

section \<open>Lemmas on the table\<close>

text \<open>Keys are the applications' own identifiers, each at most once, all named.\<close>

definition table_ok :: "'f app_table \<Rightarrow> bool" where
  "table_ok apps \<longleftrightarrow>
     distinct (map fst apps) \<and>
     list_all (\<lambda>(k, a). app_id a = k \<and> app_name a \<noteq> None) apps"

lemma table_ok_empty [simp]: "table_ok []"
  by (simp add: table_ok_def)

lemma table_ok_register:
  "\<lbrakk>table_ok apps; app_name a \<noteq> None\<rbrakk> \<Longrightarrow> table_ok (register_app apps a)"
  unfolding table_ok_def register_app_def
  by (auto split: option.splits simp: map_of_eq_None_iff)

lemma register_app_lookup:
  "map_of (register_app apps a) m =
     (case map_of apps m of Some x \<Rightarrow> Some x | None \<Rightarrow> if m = app_id a then Some a else None)"
  by (auto simp: register_app_def map_add_def split: option.splits)

lemma table_ok_lookup:
  "\<lbrakk>table_ok apps; map_of apps m = Some a\<rbrakk> \<Longrightarrow> app_id a = m \<and> (\<exists>n. app_name a = Some n)"
  by (induction apps) (auto simp: table_ok_def split: if_splits)

lemma Dispatcher_name_total [contract_free]:
  "table_ok apps \<Longrightarrow> \<exists>r. Dispatcher_name apps n = Some r"
  by (induction apps) (auto simp: table_ok_def)

lemma Dispatcher_name_hit:
  assumes "table_ok apps" "(k, a) \<in> set apps" "app_name a = Some n"
    and "inj_on (\<lambda>(k, a). c_str (the (app_name a))) (set apps)"
  shows "Dispatcher_name apps (c_str n) = Some (Some a)"
  using assms
proof (induction apps)
  case (Cons p apps)
  obtain k' a' where p: "p = (k', a')" by force
  from Cons.prems(1) p obtain n' where n': "app_name a' = Some n'"
    by (auto simp: table_ok_def)
  show ?case
  proof (cases "c_str n' = c_str n")
    case True
    have "(k', a') = (k, a)"
      by (rule inj_onD [OF Cons.prems(4)]) (use True n' p Cons.prems in auto)
    then show ?thesis using p n' True by simp
  next
    case False
    then have "(k, a) \<in> set apps" using Cons.prems(2,3) p n' by auto
    moreover have "table_ok apps" using Cons.prems(1) p by (simp add: table_ok_def)
    moreover have "inj_on (\<lambda>(k, a). c_str (the (app_name a))) (set apps)"
      using Cons.prems(4) by (rule inj_on_subset) auto
    ultimately show ?thesis using Cons.IH Cons.prems(3) p n' False by simp
  qed
qed simp

lemma Dispatcher_name_sound:
  "Dispatcher_name apps n = Some (Some a) \<Longrightarrow>
     \<exists>k m. (k, a) \<in> set apps \<and> app_name a = Some m \<and> c_str m = n"
proof (induction apps)
  case (Cons p apps)
  then show ?case by (cases p) (fastforce simp: bind_Some_iff split: if_splits)
qed simp

section \<open>Lemmas on the counters\<close>

text \<open>The values \<open>n\<close> calls of \<open>get_mid\<close> return.\<close>

fun mids :: "nat \<Rightarrow> 'f core \<Rightarrow> u64 list" where
  "mids 0 c = []"
| "mids (Suc n) c = fst (get_mid c) # mids n (snd (get_mid c))"

fun uids :: "nat \<Rightarrow> 'f core \<Rightarrow> u32 list" where
  "uids 0 c = []"
| "uids (Suc n) c = fst (user_id c) # uids n (snd (user_id c))"

lemma mids_eq: "mids n c = map (\<lambda>i. c_mid c + of_nat i) [0..<n]"
proof (induction n arbitrary: c)
  case (Suc n)
  have "map (\<lambda>i. c_mid c + of_nat i) [0..<Suc n] =
      c_mid c # map (\<lambda>i. c_mid c + 1 + of_nat i) [0..<n]"
    by (simp add: upt_conv_Cons map_Suc_upt [symmetric] comp_def add_ac del: upt_Suc)
  then show ?case by (simp add: Suc get_mid_def)
qed simp

lemma ucast_Suc: "ucast (w + 1 :: u64) = (ucast w + 1 :: u32)"
proof -
  have "take_bit 32 (take_bit 64 (x + 1)) = take_bit 32 (take_bit 32 (take_bit 64 x) + 1)"
    for x :: int
    by (simp add: take_bit_eq_mod mod_mod_cancel mod_simps)
  then show ?thesis by transfer (simp add: min_def take_bit_eq_mod mod_simps)
qed

lemma uids_eq: "uids n c = map (\<lambda>i. ucast (c_userid c) + of_nat i) [0..<n]"
proof (induction n arbitrary: c)
  case (Suc n)
  have one: "ucast (c_userid c + 1) = (ucast (c_userid c) + 1 :: u32)"
    by (rule ucast_Suc)
  have "map (\<lambda>i. (ucast (c_userid c) :: u32) + of_nat i) [0..<Suc n] =
      ucast (c_userid c) # map (\<lambda>i. ucast (c_userid c) + 1 + of_nat i) [0..<n]"
    by (simp add: upt_conv_Cons map_Suc_upt [symmetric] comp_def add_ac del: upt_Suc)
  then show ?case by (simp add: Suc user_id_def one)
qed simp

lemma distinct_word_range:
  assumes "n \<le> 2 ^ LENGTH('a :: len)"
  shows "distinct (map (\<lambda>i. (w :: 'a word) + of_nat i) [0..<n])"
proof -
  have "inj_on (\<lambda>i. w + of_nat i) {0..<n}"
  proof (rule inj_onI)
    fix i j assume ij: "i \<in> {0..<n}" "j \<in> {0..<n}" "w + of_nat i = w + (of_nat j :: 'a word)"
    then have "unat (of_nat i :: 'a word) = unat (of_nat j :: 'a word)" by simp
    then show "i = j" using ij assms by (simp add: unat_of_nat)
  qed
  then show ?thesis by (simp add: distinct_map)
qed

section \<open>Properties\<close>

text \<open>
  C39: Identifiers are not reused.  Message numbers repeat only after \<open>2 ^ 64\<close> messages;
  from the start of the program the first \<open>2 ^ 32 - 1\<close> user identifiers are distinct
  and none of them is the identifier of the server.
\<close>

theorem identifiers_distinct:
  assumes "n \<le> 2 ^ 64" "k < 2 ^ 32"
  shows "distinct (mids n c) \<and> distinct (uids k (core_init clock)) \<and>
    server_user_id \<notin> set (uids k (core_init clock))"
proof -
  have start: "ucast (c_userid (core_init clock)) = (1 :: u32)"
    by (simp add: core_init_def server_user_id_def)
  have "1 + of_nat i \<noteq> (0 :: u32)" if "i < k" for i
  proof
    assume "1 + of_nat i = (0 :: u32)"
    then have "unat (of_nat (Suc i) :: u32) = 0" by simp
    then show False using that assms(2) by (simp add: unat_of_nat del: of_nat_Suc)
  qed
  then have "server_user_id \<notin> set (uids k (core_init clock))"
    by (auto simp: uids_eq start server_user_id_def)
  moreover have "distinct (mids n c)" unfolding mids_eq
    by (rule distinct_word_range) (use assms in simp)
  moreover have "distinct (uids k (core_init clock))" unfolding uids_eq
    by (rule distinct_word_range) (use assms in simp)
  ultimately show ?thesis by blast
qed

theorem identifiers_distinct_witness:
  "distinct (mids 3 (core_init (\<lambda>_. 0))) \<and> distinct (uids 3 (core_init (\<lambda>_. 0))) \<and>
    server_user_id \<notin> set (uids 3 (core_init (\<lambda>_. 0)))"
  by (rule identifiers_distinct) simp_all

end
