(* ===== verification/Json_Value.thy ===== *)
theory Json_Value
  imports Json_Dom
begin

text \<open>
  The documented behaviour of RapidJSON's builders and accessors, as one predicate
  \<open>dom_laws\<close> on the library record, and a concrete document type with a library
  record that satisfies it.  Properties that need a fact about the JSON library
  have \<open>dom_laws L\<close> as a hypothesis; the concrete type is what their witnesses
  evaluate on.  The text functions stay parameters: no property depends on the
  characters of the serialised text.
\<close>

section \<open>The laws\<close>

definition dom_laws :: "('j, 'z) lib_scheme \<Rightarrow> bool" where
  "dom_laws L \<longleftrightarrow>
     (\<forall>ms. jd_is_object L (jd_object L ms)) \<and>
     (\<forall>ms k. jd_find L (jd_object L ms) k = map_of ms k) \<and>
     (\<forall>s. jd_is_string L (jd_string L s) \<and> jd_get_string L (jd_string L s) = s) \<and>
     (\<forall>b. jd_is_bool L (jd_bool L b) \<and> jd_get_bool L (jd_bool L b) = b) \<and>
     (\<forall>w. jd_is_uint L (jd_uint L w) \<and> jd_get_uint L (jd_uint L w) = w) \<and>
     (\<forall>w. jd_is_int L (jd_int L w) \<and> jd_get_int L (jd_int L w) = w) \<and>
     (\<forall>w. jd_is_uint64 L (jd_uint64 L w) \<and> jd_get_uint64 L (jd_uint64 L w) = w) \<and>
     (\<forall>vs. jd_is_array L (jd_array L vs) \<and> jd_elements L (jd_array L vs) = vs) \<and>
     (\<forall>j k v. jd_is_object L j \<longrightarrow> jd_is_object L (jd_add L j k v)) \<and>
     (\<forall>j k v k'. jd_is_object L j \<longrightarrow>
        jd_find L (jd_add L j k v) k' =
          (case jd_find L j k' of Some x \<Rightarrow> Some x
           | None \<Rightarrow> if k = k' then Some v else None)) \<and>
     (\<forall>j k v. jd_is_object L j \<longrightarrow> jd_is_object L (jd_assign L j k v)) \<and>
     (\<forall>j k v k'. jd_is_object L j \<and> jd_find L j k \<noteq> None \<longrightarrow>
        jd_find L (jd_assign L j k v) k' =
          (if k = k' then Some v else jd_find L j k'))"

named_theorems dom_simps \<open>the laws of the JSON library in rewriting form\<close>

lemma dom_object [dom_simps]:
  assumes "dom_laws L"
  shows "jd_is_object L (jd_object L ms)" "jd_find L (jd_object L ms) k = map_of ms k"
  using assms unfolding dom_laws_def by simp_all

lemma dom_scalar [dom_simps]:
  assumes "dom_laws L"
  shows "jd_is_string L (jd_string L s)" "jd_get_string L (jd_string L s) = s"
    "jd_is_bool L (jd_bool L b)" "jd_get_bool L (jd_bool L b) = b"
    "jd_is_uint L (jd_uint L u)" "jd_get_uint L (jd_uint L u) = u"
    "jd_is_int L (jd_int L i)" "jd_get_int L (jd_int L i) = i"
    "jd_is_uint64 L (jd_uint64 L w)" "jd_get_uint64 L (jd_uint64 L w) = w"
  using assms unfolding dom_laws_def by simp_all

lemma dom_array [dom_simps]:
  assumes "dom_laws L"
  shows "jd_is_array L (jd_array L vs)" "jd_elements L (jd_array L vs) = vs"
  using assms unfolding dom_laws_def by simp_all

lemma dom_add [dom_simps]:
  assumes "dom_laws L" "jd_is_object L j"
  shows "jd_is_object L (jd_add L j k v)"
    "jd_find L (jd_add L j k v) k' =
      (case jd_find L j k' of Some x \<Rightarrow> Some x | None \<Rightarrow> if k = k' then Some v else None)"
  using assms unfolding dom_laws_def by simp_all

lemma dom_assign_object [dom_simps]:
  assumes "dom_laws L" "jd_is_object L j"
  shows "jd_is_object L (jd_assign L j k v)"
  using assms unfolding dom_laws_def by blast

lemma dom_assign [dom_simps]:
  assumes "dom_laws L" "jd_is_object L j" "jd_find L j k = Some x"
  shows "jd_find L (jd_assign L j k v) k' = (if k = k' then Some v else jd_find L j k')"
  using assms unfolding dom_laws_def by (metis option.distinct(1))

section \<open>A concrete document type\<close>

datatype jval =
    JNull
  | JBool bool
  | JNum int
  | JStr string
  | JArr "jval list"
  | JObj "(string \<times> jval) list"

fun jv_members :: "jval \<Rightarrow> (string \<times> jval) list" where
  "jv_members (JObj ms) = ms"
| "jv_members _ = []"

fun jv_items :: "jval \<Rightarrow> jval list" where
  "jv_items (JArr vs) = vs"
| "jv_items _ = []"

fun jv_num :: "jval \<Rightarrow> int" where
  "jv_num (JNum n) = n"
| "jv_num _ = 0"

fun jv_text :: "jval \<Rightarrow> string" where
  "jv_text (JStr s) = s"
| "jv_text _ = ''''"

fun jv_truth :: "jval \<Rightarrow> bool" where
  "jv_truth (JBool b) = b"
| "jv_truth _ = False"

fun jv_in_range :: "int \<Rightarrow> int \<Rightarrow> jval \<Rightarrow> bool" where
  "jv_in_range lo hi (JNum n) = (lo \<le> n \<and> n < hi)"
| "jv_in_range lo hi _ = False"

fun jv_update :: "string \<Rightarrow> jval \<Rightarrow> (string \<times> jval) list \<Rightarrow> (string \<times> jval) list" where
  "jv_update k v [] = []"
| "jv_update k v ((k', v') # ms) =
     (if k = k' then (k', v) # ms else (k', v') # jv_update k v ms)"

definition jv_lib :: "(string \<Rightarrow> jval option) \<Rightarrow> (jval \<Rightarrow> string) \<Rightarrow> jval lib" where
  "jv_lib parse write = \<lparr>
     jd_parse = parse,
     jd_write = write,
     jd_is_object = (\<lambda>j. case j of JObj _ \<Rightarrow> True | _ \<Rightarrow> False),
     jd_is_array = (\<lambda>j. case j of JArr _ \<Rightarrow> True | _ \<Rightarrow> False),
     jd_is_string = (\<lambda>j. case j of JStr _ \<Rightarrow> True | _ \<Rightarrow> False),
     jd_is_bool = (\<lambda>j. case j of JBool _ \<Rightarrow> True | _ \<Rightarrow> False),
     jd_is_uint = jv_in_range 0 4294967296,
     jd_is_int = jv_in_range (- 2147483648) 2147483648,
     jd_is_uint64 = jv_in_range 0 18446744073709551616,
     jd_get_string = jv_text,
     jd_get_bool = jv_truth,
     jd_get_uint = (\<lambda>j. word_of_int (jv_num j)),
     jd_get_int = (\<lambda>j. word_of_int (jv_num j)),
     jd_get_uint64 = (\<lambda>j. word_of_int (jv_num j)),
     jd_find = (\<lambda>j. map_of (jv_members j)),
     jd_elements = jv_items,
     jd_values = (\<lambda>j. map snd (jv_members j)),
     jd_string = JStr,
     jd_bool = JBool,
     jd_uint = (\<lambda>w. JNum (uint w)),
     jd_int = (\<lambda>w. JNum (sint w)),
     jd_uint64 = (\<lambda>w. JNum (uint w)),
     jd_array = JArr,
     jd_object = JObj,
     jd_add = (\<lambda>j k v. JObj (jv_members j @ [(k, v)])),
     jd_assign = (\<lambda>j k v. JObj (jv_update k v (jv_members j))),
     sys_value = (\<lambda>s. word_of_nat (length s)),
     sys_message = (\<lambda>s. s) \<rparr>"

lemma jv_lib_sel [simp]:
  "jd_parse (jv_lib p w) = p"
  "jd_write (jv_lib p w) = w"
  "jd_is_uint (jv_lib p w) = jv_in_range 0 4294967296"
  "jd_is_int (jv_lib p w) = jv_in_range (- 2147483648) 2147483648"
  "jd_is_uint64 (jv_lib p w) = jv_in_range 0 18446744073709551616"
  "jd_get_string (jv_lib p w) = jv_text"
  "jd_get_bool (jv_lib p w) = jv_truth"
  "jd_elements (jv_lib p w) = jv_items"
  "jd_string (jv_lib p w) = JStr"
  "jd_bool (jv_lib p w) = JBool"
  "jd_array (jv_lib p w) = JArr"
  "jd_object (jv_lib p w) = JObj"
  by (simp_all add: jv_lib_def)

lemma jv_lib_fun [simp]:
  "jd_is_object (jv_lib p w) j = (case j of JObj _ \<Rightarrow> True | _ \<Rightarrow> False)"
  "jd_is_array (jv_lib p w) j = (case j of JArr _ \<Rightarrow> True | _ \<Rightarrow> False)"
  "jd_is_string (jv_lib p w) j = (case j of JStr _ \<Rightarrow> True | _ \<Rightarrow> False)"
  "jd_is_bool (jv_lib p w) j = (case j of JBool _ \<Rightarrow> True | _ \<Rightarrow> False)"
  "jd_get_uint (jv_lib p w) j = word_of_int (jv_num j)"
  "jd_get_int (jv_lib p w) j = word_of_int (jv_num j)"
  "jd_get_uint64 (jv_lib p w) j = word_of_int (jv_num j)"
  "jd_find (jv_lib p w) j = map_of (jv_members j)"
  "jd_values (jv_lib p w) j = map snd (jv_members j)"
  "jd_uint (jv_lib p w) u = JNum (uint u)"
  "jd_int (jv_lib p w) i = JNum (sint i)"
  "jd_uint64 (jv_lib p w) v = JNum (uint v)"
  "jd_add (jv_lib p w) j k x = JObj (jv_members j @ [(k, x)])"
  "jd_assign (jv_lib p w) j k x = JObj (jv_update k x (jv_members j))"
  "sys_value (jv_lib p w) s = word_of_nat (length s)"
  "sys_message (jv_lib p w) s = s"
  by (simp_all add: jv_lib_def)

lemma map_of_jv_update:
  "map_of ms k \<noteq> None \<Longrightarrow>
     map_of (jv_update k v ms) k' = (if k = k' then Some v else map_of ms k')"
  by (induction ms) auto

lemma uint_word_range:
  "0 \<le> uint (w :: u32)" "uint (w :: u32) < 4294967296"
  "0 \<le> uint (v :: u64)" "uint (v :: u64) < 18446744073709551616"
  using unsigned_less [of w, where 'a = int] unsigned_less [of v, where 'a = int] by simp_all

lemma sint_word_range:
  "- 2147483648 \<le> sint (w :: u32)" "sint (w :: u32) < 2147483648"
  using sint_greater_eq [of w] sint_less [of w] by simp_all

lemma jv_lib_laws: "dom_laws (jv_lib p w)"
  unfolding dom_laws_def
  using uint_word_range sint_word_range
  by (auto simp: map_add_def map_of_jv_update split: jval.splits option.splits)

end
