(* ===== verification/Factory.thy ===== *)
theory Factory
  imports Core_App Json_Value
begin

text \<open>
  Construction of outgoing messages: \<open>src/src/core/json/factory.cpp\<close> (the
  overloads of \<open>Factory::create\<close>), \<open>factory.hpp\<close> (\<open>add_mid\<close>), \<open>builder.cpp\<close> and
  \<open>error_message_impl.hpp\<close>.  A SAX writer between \<open>StartObject\<close> and \<open>EndObject\<close> is
  the list of the members written so far; the text is \<open>jd_write\<close> of the object.
  A create fails only where the code passes the null name of an application that
  is not registered to the JSON library.
\<close>

section \<open>Keys\<close>

definition MESSAGE_APP_KEY :: string where "MESSAGE_APP_KEY = ''app''"
definition MESSAGE_ECHOED_KEY :: string where "MESSAGE_ECHOED_KEY = ''echoed''"
definition MESSAGE_UID_KEY :: string where "MESSAGE_UID_KEY = ''uid''"
definition MESSAGE_MID_KEY :: string where "MESSAGE_MID_KEY = ''smid''"
definition MESSAGE_TIME_KEY :: string where "MESSAGE_TIME_KEY = ''time''"
definition MESSAGE_TYPE_KEY :: string where "MESSAGE_TYPE_KEY = ''type''"
definition MESSAGE_TYPE_DATA :: string where "MESSAGE_TYPE_DATA = ''data''"
definition MESSAGE_TYPE_CONTROL :: string where "MESSAGE_TYPE_CONTROL = ''control''"
definition CONTROL_TYPE_KEY :: string where "CONTROL_TYPE_KEY = ''ctype''"
definition CONTROL_TYPE_STATUS :: string where "CONTROL_TYPE_STATUS = ''status''"
definition CONTROL_TYPE_CONFIG :: string where "CONTROL_TYPE_CONFIG = ''config''"
definition CONTROL_TYPE_ERROR :: string where "CONTROL_TYPE_ERROR = ''error''"
definition CONTROL_TYPE_OPEN :: string where "CONTROL_TYPE_OPEN = ''open''"
definition CONTROL_TYPE_CLOSE :: string where "CONTROL_TYPE_CLOSE = ''close''"
definition CONTROL_TYPE_CUSTOM :: string where "CONTROL_TYPE_CUSTOM = ''custom''"
definition DATA_KEY :: string where "DATA_KEY = ''data''"

lemmas message_keys =
  MESSAGE_APP_KEY_def MESSAGE_ECHOED_KEY_def MESSAGE_UID_KEY_def MESSAGE_MID_KEY_def
  MESSAGE_TIME_KEY_def MESSAGE_TYPE_KEY_def MESSAGE_TYPE_DATA_def MESSAGE_TYPE_CONTROL_def
  CONTROL_TYPE_KEY_def CONTROL_TYPE_STATUS_def CONTROL_TYPE_CONFIG_def
  CONTROL_TYPE_ERROR_def CONTROL_TYPE_OPEN_def CONTROL_TYPE_CLOSE_def
  CONTROL_TYPE_CUSTOM_def DATA_KEY_def

section \<open>The names written into a message\<close>

text \<open>\<open>app(a)\<close>: null when the application is not in the table.\<close>

definition factory_app :: "'f core \<Rightarrow> Message_App \<Rightarrow> string option" where
  "factory_app c a =
     (case Dispatcher_app (c_apps c) a of Some r \<Rightarrow> app_name r | None \<Rightarrow> None)"

fun factory_type :: "Message_Type \<Rightarrow> string" where
  "factory_type data_type = MESSAGE_TYPE_DATA"
| "factory_type control_type = MESSAGE_TYPE_CONTROL"

fun factory_control :: "Message_Control \<Rightarrow> string" where
  "factory_control status = CONTROL_TYPE_STATUS"
| "factory_control config = CONTROL_TYPE_CONFIG"
| "factory_control close_c = CONTROL_TYPE_CLOSE"
| "factory_control open_c = CONTROL_TYPE_OPEN"
| "factory_control error_c = CONTROL_TYPE_ERROR"
| "factory_control custom = CONTROL_TYPE_CUSTOM"

section \<open>The common members\<close>

type_synonym 'j members = "(string \<times> 'j) list"

definition make_data_obj ::
  "('j, 'z) lib_scheme \<Rightarrow> Message_App \<Rightarrow> 'f core \<Rightarrow> ('j members \<times> 'f core) option" where
  "make_data_obj L ap c = do {
     name \<leftarrow> factory_app c ap;
     let (mid, c) = get_mid c;
     let (now, c) = msg_time c;
     Some ([(MESSAGE_APP_KEY, jd_string L (c_str name)),
            (MESSAGE_MID_KEY, jd_uint64 L mid),
            (MESSAGE_UID_KEY, jd_int L server_user_id),
            (MESSAGE_TIME_KEY, jd_uint64 L now),
            (MESSAGE_TYPE_KEY, jd_string L (factory_type data_type))], c) }"

definition make_control_obj ::
  "('j, 'z) lib_scheme \<Rightarrow> Message_App \<Rightarrow> Message_Control \<Rightarrow> 'f core
     \<Rightarrow> ('j members \<times> 'f core) option" where
  "make_control_obj L ap con c = do {
     name \<leftarrow> factory_app c ap;
     let (mid, c) = get_mid c;
     let (now, c) = msg_time c;
     Some ([(MESSAGE_APP_KEY, jd_string L (c_str name)),
            (MESSAGE_MID_KEY, jd_uint64 L mid),
            (MESSAGE_UID_KEY, jd_int L server_user_id),
            (MESSAGE_TIME_KEY, jd_uint64 L now),
            (MESSAGE_TYPE_KEY, jd_string L (factory_type control_type)),
            (CONTROL_TYPE_KEY, jd_string L (factory_control con))], c) }"

definition make_data_array :: "('j, 'z) lib_scheme \<Rightarrow> byte_array \<Rightarrow> 'j" where
  "make_data_array L b = jd_array L (map (\<lambda>byte. jd_uint L (ucast byte)) b)"

definition make_string_array :: "('j, 'z) lib_scheme \<Rightarrow> string list \<Rightarrow> 'j" where
  "make_string_array L vs = jd_array L (map (\<lambda>v. jd_string L (c_str v)) vs)"

section \<open>Data messages\<close>

type_synonym 'f message = "(string \<times> 'f core) option"

definition create_data_int ::
  "('j, 'z) lib_scheme \<Rightarrow> Message_App \<Rightarrow> u32 \<Rightarrow> 'f core \<Rightarrow> 'f message" where
  "create_data_int L ap v c = do {
     (ms, c) \<leftarrow> make_data_obj L ap c;
     Some (jd_write L (jd_object L (ms @ [(DATA_KEY, jd_int L v)])), c) }"

definition create_data_unsigned ::
  "('j, 'z) lib_scheme \<Rightarrow> Message_App \<Rightarrow> u32 \<Rightarrow> 'f core \<Rightarrow> 'f message" where
  "create_data_unsigned L ap v c = do {
     (ms, c) \<leftarrow> make_data_obj L ap c;
     Some (jd_write L (jd_object L (ms @ [(DATA_KEY, jd_uint L v)])), c) }"

definition create_data_string ::
  "('j, 'z) lib_scheme \<Rightarrow> Message_App \<Rightarrow> string \<Rightarrow> 'f core \<Rightarrow> 'f message" where
  "create_data_string L ap v c = do {
     (ms, c) \<leftarrow> make_data_obj L ap c;
     Some (jd_write L (jd_object L (ms @ [(DATA_KEY, jd_string L (c_str v))])), c) }"

definition create_data_bytes ::
  "('j, 'z) lib_scheme \<Rightarrow> Message_App \<Rightarrow> byte_array \<Rightarrow> 'f core \<Rightarrow> 'f message" where
  "create_data_bytes L ap b c = do {
     (ms, c) \<leftarrow> make_data_obj L ap c;
     Some (jd_write L (jd_object L (ms @ [(DATA_KEY, make_data_array L b)])), c) }"

text \<open>The overload for a value builds the document member by member.\<close>

definition create_data_value ::
  "('j, 'z) lib_scheme \<Rightarrow> Message_App \<Rightarrow> 'j \<Rightarrow> 'f core \<Rightarrow> 'f message" where
  "create_data_value L ap doc c = do {
     name \<leftarrow> factory_app c ap;
     let (mid, c) = get_mid c;
     let (now, c) = msg_time c;
     Some (jd_write L (jd_object L
       [(MESSAGE_APP_KEY, jd_string L (c_str name)),
        (MESSAGE_MID_KEY, jd_uint64 L mid),
        (MESSAGE_UID_KEY, jd_uint L server_user_id),
        (MESSAGE_TIME_KEY, jd_uint64 L now),
        (MESSAGE_TYPE_KEY, jd_string L (factory_type data_type)),
        (DATA_KEY, doc)]), c) }"

definition create_data_strings ::
  "('j, 'z) lib_scheme \<Rightarrow> Message_App \<Rightarrow> string list \<Rightarrow> 'f core \<Rightarrow> 'f message" where
  "create_data_strings L ap vs c = do {
     (ms, c) \<leftarrow> make_data_obj L ap c;
     Some (jd_write L (jd_object L (ms @ [(DATA_KEY, make_string_array L vs)])), c) }"

section \<open>Control messages\<close>

definition create_control ::
  "('j, 'z) lib_scheme \<Rightarrow> Message_App \<Rightarrow> Message_Control \<Rightarrow> 'f core \<Rightarrow> 'f message" where
  "create_control L ap con c = do {
     (ms, c) \<leftarrow> make_control_obj L ap con c;
     Some (jd_write L (jd_object L ms), c) }"

definition create_control_int ::
  "('j, 'z) lib_scheme \<Rightarrow> Message_App \<Rightarrow> Message_Control \<Rightarrow> u32 \<Rightarrow> 'f core \<Rightarrow> 'f message"
where
  "create_control_int L ap con v c = do {
     (ms, c) \<leftarrow> make_control_obj L ap con c;
     Some (jd_write L (jd_object L (ms @ [(DATA_KEY, jd_int L v)])), c) }"

definition create_control_unsigned ::
  "('j, 'z) lib_scheme \<Rightarrow> Message_App \<Rightarrow> Message_Control \<Rightarrow> u32 \<Rightarrow> 'f core \<Rightarrow> 'f message"
where
  "create_control_unsigned L ap con v c = do {
     (ms, c) \<leftarrow> make_control_obj L ap con c;
     Some (jd_write L (jd_object L (ms @ [(DATA_KEY, jd_uint L v)])), c) }"

definition create_control_string ::
  "('j, 'z) lib_scheme \<Rightarrow> Message_App \<Rightarrow> Message_Control \<Rightarrow> string \<Rightarrow> 'f core \<Rightarrow> 'f message"
where
  "create_control_string L ap con v c = do {
     (ms, c) \<leftarrow> make_control_obj L ap con c;
     Some (jd_write L (jd_object L (ms @ [(DATA_KEY, jd_string L (c_str v))])), c) }"

definition create_control_bytes ::
  "('j, 'z) lib_scheme \<Rightarrow> Message_App \<Rightarrow> Message_Control \<Rightarrow> byte_array \<Rightarrow> 'f core
     \<Rightarrow> 'f message" where
  "create_control_bytes L ap con b c = do {
     (ms, c) \<leftarrow> make_control_obj L ap con c;
     Some (jd_write L (jd_object L (ms @ [(DATA_KEY, make_data_array L b)])), c) }"

definition create_control_doc ::
  "('j, 'z) lib_scheme \<Rightarrow> Message_App \<Rightarrow> Message_Control \<Rightarrow> 'j \<Rightarrow> 'f core \<Rightarrow> 'f message"
where
  "create_control_doc L ap con doc c = do {
     name \<leftarrow> factory_app c ap;
     let (mid, c) = get_mid c;
     let (now, c) = msg_time c;
     Some (jd_write L (jd_object L
       [(MESSAGE_APP_KEY, jd_string L (c_str name)),
        (MESSAGE_MID_KEY, jd_uint64 L mid),
        (MESSAGE_UID_KEY, jd_uint L server_user_id),
        (MESSAGE_TIME_KEY, jd_uint64 L now),
        (MESSAGE_TYPE_KEY, jd_string L (factory_type control_type)),
        (CONTROL_TYPE_KEY, jd_string L (factory_control con)),
        (DATA_KEY, doc)]), c) }"

definition create_control_strings ::
  "('j, 'z) lib_scheme \<Rightarrow> Message_App \<Rightarrow> Message_Control \<Rightarrow> string list \<Rightarrow> 'f core
     \<Rightarrow> 'f message" where
  "create_control_strings L ap con vs c = do {
     (ms, c) \<leftarrow> make_control_obj L ap con c;
     Some (jd_write L (jd_object L (ms @ [(DATA_KEY, make_string_array L vs)])), c) }"

section \<open>Marking a received message\<close>

text \<open>
  \<open>add_mid\<close> changes the document it is given and returns its text.  With
  \<open>update_time\<close> it assigns to the member \<open>time\<close>, which has to exist.
\<close>

definition add_mid ::
  "('j, 'z) lib_scheme \<Rightarrow> bool \<Rightarrow> 'j \<Rightarrow> 'f core \<Rightarrow> (string \<times> 'j \<times> 'f core) option" where
  "add_mid L update_time doc c = do {
     require (jd_is_object L doc);
     let (mid, c) = get_mid c;
     let doc = jd_add L doc MESSAGE_MID_KEY (jd_uint64 L mid);
     let doc = jd_add L doc MESSAGE_ECHOED_KEY (jd_bool L True);
     if update_time then do {
       _ \<leftarrow> member_of L doc MESSAGE_TIME_KEY;
       let (now, c) = msg_time c;
       let doc = jd_assign L doc MESSAGE_TIME_KEY (jd_uint64 L now);
       Some (jd_write L doc, doc, c) }
     else Some (jd_write L doc, doc, c) }"

section \<open>The builder\<close>

text \<open>\<open>Builder\<close>: a document to which members are added.\<close>

definition Builder_new :: "('j, 'z) lib_scheme \<Rightarrow> 'j" where
  "Builder_new L = jd_object L []"

definition Builder_get_string :: "('j, 'z) lib_scheme \<Rightarrow> 'j \<Rightarrow> string" where
  "Builder_get_string L doc = jd_write L doc"

definition Builder_add_cstr :: "('j, 'z) lib_scheme \<Rightarrow> string \<Rightarrow> string \<Rightarrow> 'j \<Rightarrow> 'j" where
  "Builder_add_cstr L key v doc = jd_add L doc (c_str key) (jd_string L (c_str v))"

definition Builder_add_string :: "('j, 'z) lib_scheme \<Rightarrow> string \<Rightarrow> string \<Rightarrow> 'j \<Rightarrow> 'j" where
  "Builder_add_string L key v doc = Builder_add_cstr L key (c_str v) doc"

definition Builder_add_strings ::
  "('j, 'z) lib_scheme \<Rightarrow> string \<Rightarrow> string list \<Rightarrow> 'j \<Rightarrow> 'j" where
  "Builder_add_strings L key vs doc =
     jd_add L doc (c_str key) (jd_array L (map (jd_string L) vs))"

definition Builder_add_ints ::
  "('j, 'z) lib_scheme \<Rightarrow> string \<Rightarrow> u32 list \<Rightarrow> 'j \<Rightarrow> 'j" where
  "Builder_add_ints L key vs doc =
     jd_add L doc (c_str key) (jd_array L (map (jd_int L) vs))"

section \<open>Error messages\<close>

definition make_error_message ::
  "('j, 'z) lib_scheme \<Rightarrow> Message_App \<Rightarrow> error_code \<Rightarrow> string \<Rightarrow> 'f core \<Rightarrow> 'f message"
where
  "make_error_message L ap ec what c =
     create_control_doc L ap error_c
       (jd_object L
         [(''code'', jd_int L (ec_value L ec)),
          (''message'', jd_string L (c_str (ec_message L ec))),
          (''what'', jd_string L (c_str what))]) c"

text \<open>\<open>fail_message\<close>, to one session and to all of them.\<close>

definition fail_message ::
  "('j, 'z) lib_scheme \<Rightarrow> nat \<Rightarrow> Message_App \<Rightarrow> error_code \<Rightarrow> string \<Rightarrow> 'f core
     \<Rightarrow> 'f core option" where
  "fail_message L ws ap ec what c = do {
     (s, c) \<leftarrow> make_error_message L ap ec what c;
     Some (emit (Write ws (Byte_Array_of s) True) c) }"

definition fail_message_all ::
  "('j, 'z) lib_scheme \<Rightarrow> Message_App \<Rightarrow> error_code \<Rightarrow> string \<Rightarrow> 'f core
     \<Rightarrow> 'f core option" where
  "fail_message_all L ap ec what c = do {
     (s, c) \<leftarrow> make_error_message L ap ec what c;
     Some (emit (Write_All (Byte_Array_of s) True) c) }"

section \<open>Lemmas\<close>

text \<open>Creating a message takes one message number and one clock reading.\<close>

definition after_msg :: "'f core \<Rightarrow> 'f core" where
  "after_msg c = c\<lparr>c_mid := c_mid c + 1, c_ticks := c_ticks c + 1\<rparr>"

lemma after_msg_simps [simp]:
  "c_apps (after_msg c) = c_apps c" "c_mid (after_msg c) = c_mid c + 1"
  "c_userid (after_msg c) = c_userid c" "c_clock (after_msg c) = c_clock c"
  "c_ticks (after_msg c) = c_ticks c + 1" "c_out (after_msg c) = c_out c"
  by (simp_all add: after_msg_def)

lemma factory_app_after [simp]: "factory_app (after_msg c) a = factory_app c a"
  by (simp add: factory_app_def)

lemma factory_app_emit [simp]: "factory_app (emit x c) a = factory_app c a"
  by (simp add: factory_app_def)

lemma factory_app_registered:
  "\<lbrakk>table_ok (c_apps c); map_of (c_apps c) a = Some r\<rbrakk> \<Longrightarrow> factory_app c a = app_name r"
  by (simp add: factory_app_def Dispatcher_app_def)

text \<open>The members every data message and every control message begins with.\<close>

definition head_members ::
  "('j, 'z) lib_scheme \<Rightarrow> string \<Rightarrow> 'j \<Rightarrow> Message_Type \<Rightarrow> 'f core \<Rightarrow> 'j members" where
  "head_members L name uid t c =
     [(MESSAGE_APP_KEY, jd_string L (c_str name)),
      (MESSAGE_MID_KEY, jd_uint64 L (c_mid c)),
      (MESSAGE_UID_KEY, uid),
      (MESSAGE_TIME_KEY, jd_uint64 L (c_clock c (c_ticks c))),
      (MESSAGE_TYPE_KEY, jd_string L (factory_type t))]"

lemma make_data_obj_eq:
  "make_data_obj L ap c = map_option
     (\<lambda>n. (head_members L n (jd_int L server_user_id) data_type c, after_msg c))
     (factory_app c ap)"
  by (cases "factory_app c ap")
    (simp_all add: make_data_obj_def head_members_def get_mid_def msg_time_def after_msg_def)

lemma make_control_obj_eq:
  "make_control_obj L ap con c = map_option
     (\<lambda>n. (head_members L n (jd_int L server_user_id) control_type c @
           [(CONTROL_TYPE_KEY, jd_string L (factory_control con))], after_msg c))
     (factory_app c ap)"
  by (cases "factory_app c ap")
    (simp_all add: make_control_obj_def head_members_def get_mid_def msg_time_def after_msg_def)

lemma create_data_value_eq:
  "create_data_value L ap doc c = map_option
     (\<lambda>n. (jd_write L (jd_object L
       (head_members L n (jd_uint L server_user_id) data_type c @ [(DATA_KEY, doc)])), after_msg c))
     (factory_app c ap)"
  by (cases "factory_app c ap")
    (simp_all add: create_data_value_def head_members_def get_mid_def msg_time_def after_msg_def)

lemma create_control_doc_eq:
  "create_control_doc L ap con doc c = map_option
     (\<lambda>n. (jd_write L (jd_object L
       (head_members L n (jd_uint L server_user_id) control_type c @
        [(CONTROL_TYPE_KEY, jd_string L (factory_control con)), (DATA_KEY, doc)])), after_msg c))
     (factory_app c ap)"
  by (cases "factory_app c ap")
    (simp_all add: create_control_doc_def head_members_def get_mid_def msg_time_def
      after_msg_def)

lemmas create_defs =
  create_data_int_def create_data_unsigned_def create_data_string_def create_data_bytes_def
  create_data_strings_def create_control_def create_control_int_def create_control_unsigned_def
  create_control_string_def create_control_bytes_def create_control_strings_def

lemma create_data_bytes_eq:
  "create_data_bytes L ap b c = map_option
     (\<lambda>n. (jd_write L (jd_object L
       (head_members L n (jd_int L server_user_id) data_type c @
        [(DATA_KEY, make_data_array L b)])), after_msg c))
     (factory_app c ap)"
  by (cases "factory_app c ap") (simp_all add: create_defs make_data_obj_eq)

lemma make_error_message_eq:
  "make_error_message L ap ec what c = map_option
     (\<lambda>n. (jd_write L (jd_object L
       (head_members L n (jd_uint L server_user_id) control_type c @
        [(CONTROL_TYPE_KEY, jd_string L ''error''),
         (DATA_KEY, jd_object L
           [(''code'', jd_int L (ec_value L ec)),
            (''message'', jd_string L (c_str (ec_message L ec))),
            (''what'', jd_string L (c_str what))])])), after_msg c))
     (factory_app c ap)"
  by (simp add: make_error_message_def create_control_doc_eq CONTROL_TYPE_ERROR_def)

lemma fail_message_total:
  assumes "factory_app c ap = Some n"
  shows "\<exists>s. fail_message L ws ap ec what c =
    Some (emit (Write ws (Byte_Array_of s) True) (after_msg c))"
  using assms by (auto simp: fail_message_def make_error_message_eq)

text \<open>The distinct keys of a message let each member be read back.\<close>

lemma head_members_lookup:
  "map_of (head_members L n uid t c @ rest) MESSAGE_APP_KEY = Some (jd_string L (c_str n))"
  "map_of (head_members L n uid t c @ rest) MESSAGE_MID_KEY = Some (jd_uint64 L (c_mid c))"
  "map_of (head_members L n uid t c @ rest) MESSAGE_UID_KEY = Some uid"
  "map_of (head_members L n uid t c @ rest) MESSAGE_TIME_KEY =
     Some (jd_uint64 L (c_clock c (c_ticks c)))"
  "map_of (head_members L n uid t c @ rest) MESSAGE_TYPE_KEY =
     Some (jd_string L (factory_type t))"
  "map_of (head_members L n uid t c @ rest) CONTROL_TYPE_KEY = map_of rest CONTROL_TYPE_KEY"
  "map_of (head_members L n uid t c @ rest) DATA_KEY = map_of rest DATA_KEY"
  by (simp_all add: head_members_def message_keys)

end
