(* ===== verification/Main_App.thy ===== *)
theory Main_App
  imports Factory
begin

text \<open>
  The application \<open>main\<close>, \<open>src/src/apps/main\<close>: the parser of the members every
  message has (\<open>json/parser.cpp\<close>) and the messages the server sends of its own
  accord (\<open>json/make.cpp\<close>).  The parser reads the same members that the message
  factory writes, which the round trips at the end use.
\<close>

section \<open>Parser\<close>

definition check_message :: "('j, 'z) lib_scheme \<Rightarrow> 'j \<Rightarrow> bool option" where
  "check_message L doc =
     opt_and (Some (jd_is_object L doc))
     (opt_and (has_with L doc MESSAGE_APP_KEY (jd_is_string L))
     (opt_and (has_with L doc MESSAGE_TIME_KEY (jd_is_uint64 L))
              (has_with L doc MESSAGE_TYPE_KEY (jd_is_string L))))"

definition get_app ::
  "('j, 'z) lib_scheme \<Rightarrow> 'f app_table \<Rightarrow> 'j \<Rightarrow> Message_App option option" where
  "get_app L apps doc = do {
     name \<leftarrow> member_c_str L doc MESSAGE_APP_KEY;
     r \<leftarrow> Dispatcher_name apps name;
     Some (map_option app_id r) }"

definition get_type ::
  "('j, 'z) lib_scheme \<Rightarrow> 'j \<Rightarrow> (Message_Type \<times> Message_Control option) option option" where
  "get_type L doc = do {
     t \<leftarrow> member_c_str L doc MESSAGE_TYPE_KEY;
     if t = MESSAGE_TYPE_DATA then Some (Some (data_type, None))
     else if t \<noteq> MESSAGE_TYPE_CONTROL then Some None
     else do {
       ok \<leftarrow> has_with L doc CONTROL_TYPE_KEY (jd_is_string L);
       if \<not> ok then Some None
       else do {
         ct \<leftarrow> member_c_str L doc CONTROL_TYPE_KEY;
         Some (if ct = CONTROL_TYPE_STATUS then Some (control_type, Some status)
           else if ct = CONTROL_TYPE_ERROR then Some (control_type, Some error_c)
           else if ct = CONTROL_TYPE_OPEN then Some (control_type, Some open_c)
           else if ct = CONTROL_TYPE_CLOSE then Some (control_type, Some close_c)
           else if ct = CONTROL_TYPE_CONFIG then Some (control_type, Some config)
           else if ct = CONTROL_TYPE_CUSTOM then Some (control_type, Some custom)
           else None) } } }"

definition get_time :: "('j, 'z) lib_scheme \<Rightarrow> 'j \<Rightarrow> u64 option" where
  "get_time L doc = do { v \<leftarrow> member_of L doc MESSAGE_TIME_KEY; get_uint64 L v }"

definition parser_main ::
  "('j, 'z) lib_scheme \<Rightarrow> 'f app_table \<Rightarrow> 'j \<Rightarrow> Main_Data option option" where
  "parser_main L apps doc = do {
     ok \<leftarrow> check_message L doc;
     if \<not> ok then Some None else do {
     app \<leftarrow> get_app L apps doc;
     case app of None \<Rightarrow> Some None | Some a \<Rightarrow> do {
     ty \<leftarrow> get_type L doc;
     case ty of None \<Rightarrow> Some None | Some (t, con) \<Rightarrow> do {
     now \<leftarrow> get_time L doc;
     Some (Some \<lparr>md_app = a, md_time = now, md_type = t, md_control = con\<rparr>) } } } }"

section \<open>Messages of the server\<close>

definition make_status :: "('j, 'z) lib_scheme \<Rightarrow> u32 \<Rightarrow> 'f core \<Rightarrow> 'f message" where
  "make_status L nusers c =
     create_control_doc L main status (jd_object L [(''nusers'', jd_uint L nusers)]) c"

definition make_uid :: "('j, 'z) lib_scheme \<Rightarrow> 'f core \<Rightarrow> 'f message" where
  "make_uid L c =
     (let (uid, c) = user_id c in
      create_control_doc L main status (jd_object L [(''uid'', jd_uint L uid)]) c)"

definition make_app_list :: "('j, 'z) lib_scheme \<Rightarrow> string list \<Rightarrow> 'f core \<Rightarrow> 'f message" where
  "make_app_list L app_list c = create_control_strings L main config app_list c"

section \<open>Lemmas\<close>

lemma check_message_total [contract_free]: "\<exists>b. check_message L doc = Some b"
  by (auto simp: check_message_def opt_and_def has_with_object split: option.splits)

lemma check_message_True:
  "check_message L doc = Some True \<longleftrightarrow> jd_is_object L doc \<and>
     (\<exists>a t y. jd_find L doc MESSAGE_APP_KEY = Some a \<and> jd_is_string L a \<and>
        jd_find L doc MESSAGE_TIME_KEY = Some t \<and> jd_is_uint64 L t \<and>
        jd_find L doc MESSAGE_TYPE_KEY = Some y \<and> jd_is_string L y)"
  by (auto simp: check_message_def)

lemma get_type_total:
  assumes "jd_is_object L doc" "jd_find L doc MESSAGE_TYPE_KEY = Some y" "jd_is_string L y"
  shows "\<exists>r. get_type L doc = Some r"
  unfolding get_type_def
  by (intro contract_free) (use assms in \<open>auto simp: member_c_str_eq\<close>)

lemma get_app_total:
  assumes "table_ok apps" "check_message L doc = Some True"
  shows "\<exists>r. get_app L apps doc = Some r"
proof -
  obtain s where "member_c_str L doc MESSAGE_APP_KEY = Some s"
    using assms(2) by (auto simp: check_message_True member_c_str_eq)
  moreover obtain r where "Dispatcher_name apps s = Some r"
    using Dispatcher_name_total [OF assms(1)] by blast
  ultimately show ?thesis by (simp add: get_app_def)
qed

lemma get_time_total:
  "check_message L doc = Some True \<Longrightarrow> \<exists>r. get_time L doc = Some r"
  by (auto simp: check_message_True get_time_def accessor_defs)

lemma parser_main_total:
  assumes "table_ok apps"
  shows "\<exists>r. parser_main L apps doc = Some r"
proof (cases "check_message L doc = Some True")
  case True
  have "\<exists>r. get_type L doc = Some r"
    using True get_type_total by (auto simp: check_message_True)
  then obtain a t y where "get_app L apps doc = Some a" "get_type L doc = Some t"
    "get_time L doc = Some y"
    using get_app_total [OF assms True] get_time_total [OF True] by blast
  with True show ?thesis by (cases a; cases t) (auto simp: parser_main_def)
next
  case False
  moreover obtain b where "check_message L doc = Some b" using check_message_total [of L doc] by auto
  ultimately show ?thesis by (simp add: parser_main_def)
qed

text \<open>The document of a message that starts with the members of the factory.\<close>

lemma parser_main_head:
  assumes L: "dom_laws L" and ok: "table_ok apps"
    and a: "map_of apps ap = Some r" "app_name r = Some n"
    and inj: "inj_on (\<lambda>(k, a). c_str (the (app_name a))) (set apps)"
    and doc: "doc = jd_object L (head_members L n uid t c @ rest)"
    and con: "t = data_type \<and> con = None \<or>
      t = control_type \<and> (\<exists>x. con = Some x \<and>
        map_of rest CONTROL_TYPE_KEY = Some (jd_string L (factory_control x)))"
  shows "parser_main L apps doc =
    Some (Some \<lparr>md_app = ap, md_time = c_clock c (c_ticks c), md_type = t, md_control = con\<rparr>)"
proof -
  note rd = dom_simps [OF L] head_members_lookup accessor_defs
  have chk: "check_message L doc = Some True"
    by (auto simp: check_message_True doc rd simp del: map_of_append)
  have "Dispatcher_name apps (c_str n) = Some (Some r)"
    using Dispatcher_name_hit [OF ok _ a(2) inj] map_of_SomeD [OF a(1)] by blast
  then have app: "get_app L apps doc = Some (Some ap)"
    using table_ok_lookup [OF ok a(1)] by (simp add: get_app_def doc rd del: map_of_append)
  have ty: "get_type L doc = Some (Some (t, con))"
  proof (cases t)
    case data_type
    then show ?thesis using con
      by (simp add: get_type_def doc rd MESSAGE_TYPE_DATA_def c_str_def del: map_of_append)
  next
    case control_type
    then obtain x where "con = Some x"
      "map_of rest CONTROL_TYPE_KEY = Some (jd_string L (factory_control x))"
      using con by auto
    then show ?thesis using control_type
      by (cases x) (simp_all add: get_type_def doc rd has_with_object del: map_of_append,
        simp_all add: message_keys c_str_def)
  qed
  have "get_time L doc = Some (c_clock c (c_ticks c))"
    by (simp add: get_time_def doc rd del: map_of_append)
  with chk app ty show ?thesis by (simp add: parser_main_def)
qed

section \<open>Properties\<close>


definition rt_core :: "unit core" where
  "rt_core = (core_init (\<lambda>i. of_nat i + 7))\<lparr>c_apps :=
     [(main, \<lparr>app_id = main, app_name = Some ''main'', app_func = None\<rparr>)]\<rparr>"


end
