(* ===== verification/Write_Queue.thy ===== *)
theory Write_Queue
  imports Core_App
begin

text \<open>
  The write queue every socket class of \<open>src/src/libs/my_async\<close> has: a vector
  \<open>queue_\<close>, a \<open>writing\<close> that appends and starts a write when the vector was empty,
  and an \<open>on_write\<close> that drops the front and starts the next write.  The locale
  \<open>write_queue\<close> states this contract over the queue and the list of writes the
  socket has been given and not completed; the classes interpret it, and the order
  and single-write properties are proved here once.
\<close>

section \<open>Contract\<close>

text \<open>
  \<open>queue\<close> is \<open>queue_\<close>, \<open>out\<close> the data of the outstanding asynchronous writes, \<open>enq\<close>
  is \<open>writing\<close> and \<open>fin\<close> the completion handler with no error.
\<close>

locale write_queue =
  fixes queue :: "'s \<Rightarrow> 'd list"
    and out :: "'s \<Rightarrow> 'd list"
    and enq :: "'d \<Rightarrow> 's \<Rightarrow> 's"
    and fin :: "'s \<Rightarrow> 's"
  assumes enq_queue: "queue (enq d s) = queue s @ [d]"
    and enq_out: "out (enq d s) = out s @ (if queue s = [] then [d] else [])"
    and fin_queue: "queue (fin s) = tl (queue s)"
    and fin_out: "out (fin s) = tl (out s) @ take 1 (tl (queue s))"
begin

text \<open>At most one write is outstanding, and it is the front of the queue.\<close>

definition wq_inv :: "'s \<Rightarrow> bool" where
  "wq_inv s \<longleftrightarrow> out s = take 1 (queue s)"

lemma wq_inv_enq: "wq_inv s \<Longrightarrow> wq_inv (enq d s)"
  by (cases "queue s") (auto simp: wq_inv_def enq_queue enq_out)

lemma wq_inv_fin: "wq_inv s \<Longrightarrow> wq_inv (fin s)"
  by (cases "queue s") (auto simp: wq_inv_def fin_queue fin_out)

lemma wq_inv_single: "wq_inv s \<Longrightarrow> length (out s) \<le> 1"
  by (simp add: wq_inv_def)

lemma wq_inv_idle: "wq_inv s \<Longrightarrow> out s = [] \<longleftrightarrow> queue s = []"
  by (simp add: wq_inv_def)

text \<open>
  A history: \<open>Some d\<close> hands \<open>d\<close> to \<open>writing\<close>, \<open>None\<close> completes the oldest
  outstanding write, if there is one.  The second result is the data of the completed
  writes in the order of completion.
\<close>

fun run :: "'d option list \<Rightarrow> 's \<Rightarrow> 's \<times> 'd list" where
  "run [] s = (s, [])"
| "run (Some d # es) s = run es (enq d s)"
| "run (None # es) s =
     (case out s of [] \<Rightarrow> run es s
      | d # _ \<Rightarrow> (case run es (fin s) of (s', ts) \<Rightarrow> (s', d # ts)))"

fun handed :: "'d option list \<Rightarrow> 'd list" where
  "handed [] = []"
| "handed (Some d # es) = d # handed es"
| "handed (None # es) = handed es"

lemma run_inv: "wq_inv s \<Longrightarrow> wq_inv (fst (run es s))"
  by (induction es s rule: run.induct)
    (auto simp: wq_inv_enq wq_inv_fin split: list.splits prod.splits)

text \<open>First in, first out, with nothing lost and nothing duplicated.\<close>

lemma run_fifo:
  "\<lbrakk>wq_inv s; run es s = (s', ts)\<rbrakk> \<Longrightarrow> queue s @ handed es = ts @ queue s'"
proof (induction es s arbitrary: s' ts rule: run.induct)
  case (2 d es s)
  then show ?case using wq_inv_enq [of s d] by (simp add: enq_queue)
next
  case (3 es s)
  show ?case
  proof (cases "out s")
    case Nil
    then show ?thesis using 3 by simp
  next
    case (Cons d ds)
    then have q: "queue s = d # tl (queue s)"
      using 3(3) by (cases "queue s") (auto simp: wq_inv_def)
    obtain u us where r: "run es (fin s) = (u, us)" by force
    then have eq: "s' = u" "ts = d # us" using 3(4) Cons by simp_all
    have "queue (fin s) @ handed es = us @ queue u"
      by (rule 3(2) [OF Cons _ r]) (use 3(3) in \<open>simp add: wq_inv_fin\<close>)
    with q eq show ?thesis by (simp add: fin_queue) (metis append_Cons)
  qed
qed simp

text \<open>Enough completions empty the queue: everything handed over is written.\<close>

lemma run_append: "run (es @ fs) s =
    (case run es s of (s', ts) \<Rightarrow> (case run fs s' of (s'', us) \<Rightarrow> (s'', ts @ us)))"
  by (induction es s rule: run.induct) (auto split: list.splits prod.splits)

lemma run_completions:
  "\<lbrakk>wq_inv s; length (queue s) \<le> n\<rbrakk> \<Longrightarrow> queue (fst (run (replicate n None) s)) = []"
proof (induction n arbitrary: s)
  case (Suc n)
  show ?case
  proof (cases "out s")
    case Nil
    then have "queue s = []" using Suc.prems wq_inv_idle by blast
    then show ?thesis using Suc Nil by simp
  next
    case (Cons d ds)
    have "queue (fst (run (replicate n None) (fin s))) = []"
      using Suc.prems by (intro Suc.IH wq_inv_fin) (auto simp: fin_queue)
    then show ?thesis using Cons by (auto split: prod.splits)
  qed
qed simp

lemma run_drain:
  assumes "wq_inv s" "length (queue s) + length (handed es) \<le> n"
  shows "snd (run (es @ replicate n None) s) = queue s @ handed es"
proof -
  obtain s1 ts where r1: "run es s = (s1, ts)" by force
  obtain s2 us where r2: "run (replicate n None) s1 = (s2, us)" by force
  have inv: "wq_inv s1" using run_inv [OF assms(1), of es] r1 by simp
  have q1: "queue s @ handed es = ts @ queue s1" by (rule run_fifo [OF assms(1) r1])
  then have "length (queue s1) \<le> n" using assms(2)
    by (metis add_leD2 length_append)
  then have "queue s2 = []" using run_completions [OF inv] r2 by (metis fst_conv)
  moreover have "handed (replicate n None) = []" by (induction n) auto
  ultimately have "queue s1 = us" using run_fifo [OF inv r2] by simp
  then show ?thesis using q1 r1 r2 by (simp add: run_append)
qed

text \<open>
  The state a failed write leaves: the front is still queued and no write is
  outstanding.  Nothing that is handed over afterwards is ever written.
\<close>

definition wq_stuck :: "'s \<Rightarrow> bool" where
  "wq_stuck s \<longleftrightarrow> queue s \<noteq> [] \<and> out s = []"

lemma wq_stuck_run: "wq_stuck s \<Longrightarrow> wq_stuck (fst (run es s)) \<and> snd (run es s) = []"
  by (induction es s rule: run.induct) (auto simp: wq_stuck_def enq_queue enq_out)

end

section \<open>Errors the socket classes distinguish\<close>

definition operation_aborted :: error_code where
  "operation_aborted = Sys_Code ''operation_aborted''"

definition eof_error :: error_code where
  "eof_error = Sys_Code ''eof''"

definition stream_truncated :: error_code where
  "stream_truncated = Sys_Code ''stream_truncated''"

definition connection_refused :: error_code where
  "connection_refused = Sys_Code ''connection_refused''"

definition bad_descriptor :: error_code where
  "bad_descriptor = Sys_Code ''bad_descriptor''"

definition not_connected :: error_code where
  "not_connected = Sys_Code ''not_connected''"

definition already_connected :: error_code where
  "already_connected = Sys_Code ''already_connected''"

definition address_in_use :: error_code where
  "address_in_use = Sys_Code ''address_in_use''"

definition no_such_file_or_directory :: error_code where
  "no_such_file_or_directory = Sys_Code ''no_such_file_or_directory''"

definition websocket_closed :: error_code where
  "websocket_closed = Sys_Code ''websocket_closed''"

lemmas error_names =
  operation_aborted_def eof_error_def stream_truncated_def connection_refused_def
  bad_descriptor_def not_connected_def already_connected_def address_in_use_def
  no_such_file_or_directory_def websocket_closed_def

section \<open>Callbacks of a socket class\<close>

text \<open>
  The virtual functions a socket class calls on its derived class, in the order of
  the calls, and the tasks it posts to its executor.
\<close>

datatype callback =
    On_Open
  | Read_Handler byte_array
  | On_Close error_code
  | On_Error error_code string

datatype 'd task = Writing 'd | Closing

end
