(* ===== verification/Shareable.thy ===== *)
theory Shareable
  imports Prelude
begin

text \<open>
  The two registries of \<open>src/src/libs/utility/include/util\<close>: \<open>Shareable\<close>, an object
  that several sessions share, and \<open>Static_Shareable\<close>, one set per class.  Both hold
  an \<open>unordered_set\<close> of pointers under a mutex; the set is a list without repetitions
  whose order stands for the iteration order.  \<open>exec_to_all\<close> works on a snapshot of
  weak pointers: an object that is already being destroyed is skipped.
\<close>

section \<open>Contract\<close>

locale registry =
  fixes members :: "'s \<Rightarrow> 'k list"
    and join :: "'k \<Rightarrow> 's \<Rightarrow> 's"
    and leave :: "'k \<Rightarrow> 's \<Rightarrow> 's"
  assumes join_members: "set (members (join k s)) = insert k (set (members s))"
    and leave_members: "set (members (leave k s)) = set (members s) - {k}"
    and join_distinct: "distinct (members s) \<Longrightarrow> distinct (members (join k s))"
    and leave_distinct: "distinct (members s) \<Longrightarrow> distinct (members (leave k s))"
begin

text \<open>A history of joins (\<open>True\<close>) and leaves; what remains is who joined last.\<close>

fun history :: "(bool \<times> 'k) list \<Rightarrow> 's \<Rightarrow> 's" where
  "history [] s = s"
| "history ((b, k) # es) s = history es (if b then join k s else leave k s)"

fun present :: "(bool \<times> 'k) list \<Rightarrow> bool \<Rightarrow> 'k \<Rightarrow> bool" where
  "present [] b k = b"
| "present ((j, k') # es) b k = present es (if k = k' then j else b) k"

lemma history_distinct: "distinct (members s) \<Longrightarrow> distinct (members (history es s))"
  by (induction es s rule: history.induct) (simp_all add: join_distinct leave_distinct)

lemma history_members:
  "k \<in> set (members (history es s)) \<longleftrightarrow> present es (k \<in> set (members s)) k"
  by (induction es s rule: history.induct) (auto simp: join_members leave_members)

lemma join_leave:
  "k \<notin> set (members s) \<Longrightarrow> set (members (leave k (join k s))) = set (members s)"
  by (simp add: join_members leave_members)

lemma share_count:
  "\<lbrakk>distinct (members s); k \<notin> set (members s)\<rbrakk> \<Longrightarrow>
     length (members (join k s)) = Suc (length (members s))"
  using distinct_card [OF join_distinct, of s k] distinct_card [of "members s"]
  by (simp add: join_members)

end

section \<open>Shareable\<close>

record ('k, 'd) share =
  sh_data :: 'd
  sh_set :: "'k list"

definition share_new :: "'d \<Rightarrow> ('k, 'd) share" where
  "share_new d = \<lparr>sh_data = d, sh_set = []\<rparr>"

definition share_join :: "'k \<Rightarrow> ('k, 'd) share \<Rightarrow> ('k, 'd) share" where
  "share_join k s = s\<lparr>sh_set := List.insert k (sh_set s)\<rparr>"

definition share_leave :: "'k \<Rightarrow> ('k, 'd) share \<Rightarrow> ('k, 'd) share" where
  "share_leave k s = s\<lparr>sh_set := removeAll k (sh_set s)\<rparr>"

text \<open>
  \<open>weak\<close> is the \<open>if constexpr\<close> on \<open>enable_shared_from_this\<close>; \<open>lock p st\<close> is the result
  of \<open>lock()\<close> in the state \<open>st\<close> reached when the loop comes to \<open>p\<close>.
\<close>

fun share_exec ::
  "bool \<Rightarrow> ('k \<Rightarrow> 'st \<Rightarrow> bool) \<Rightarrow> ('k \<Rightarrow> 'st \<Rightarrow> 'st) \<Rightarrow> 'k list \<Rightarrow> 'st \<Rightarrow> 'st" where
  "share_exec weak lock func [] st = st"
| "share_exec weak lock func (p # v) st =
     share_exec weak lock func v (if weak \<longrightarrow> lock p st then func p st else st)"

definition share_exec_to_all ::
  "bool \<Rightarrow> ('k \<Rightarrow> 'st \<Rightarrow> bool) \<Rightarrow> ('k \<Rightarrow> 'st \<Rightarrow> 'st) \<Rightarrow> ('k, 'd) share \<Rightarrow> 'st \<Rightarrow> 'st" where
  "share_exec_to_all weak lock func s st = share_exec weak lock func (sh_set s) st"

definition share_num :: "('k, 'd) share \<Rightarrow> u32" where
  "share_num s = of_nat (length (sh_set s))"

interpretation shareable: registry sh_set share_join share_leave
  by unfold_locales (auto simp: share_join_def share_leave_def distinct_removeAll)

section \<open>Static shareable\<close>

definition static_join :: "'k \<Rightarrow> 'k list \<Rightarrow> 'k list" where
  "static_join sh share = List.insert sh share"

definition static_leave :: "'k \<Rightarrow> 'k list \<Rightarrow> 'k list" where
  "static_leave sh share = removeAll sh share"

text \<open>The constructor and the destructor join and leave when \<open>AutoJoin\<close> is set.\<close>

definition static_construct :: "bool \<Rightarrow> 'k \<Rightarrow> 'k list \<Rightarrow> 'k list" where
  "static_construct auto_join sh share = (if auto_join then static_join sh share else share)"

definition static_destruct :: "bool \<Rightarrow> 'k \<Rightarrow> 'k list \<Rightarrow> 'k list" where
  "static_destruct auto_join sh share = (if auto_join then static_leave sh share else share)"

definition static_exec_to_all ::
  "bool \<Rightarrow> ('k \<Rightarrow> 'st \<Rightarrow> bool) \<Rightarrow> ('k \<Rightarrow> 'st \<Rightarrow> 'st) \<Rightarrow> 'k list \<Rightarrow> 'st \<Rightarrow> 'st" where
  "static_exec_to_all weak lock func share st = share_exec weak lock func share st"

definition static_num_shares :: "'k list \<Rightarrow> nat" where
  "static_num_shares share = length share"

interpretation static_shareable: registry "\<lambda>share. share" static_join static_leave
  by unfold_locales (auto simp: static_join_def static_leave_def distinct_removeAll)

section \<open>Lemmas\<close>

text \<open>
  A function that changes only the object it is called on runs once on each object
  that can be locked, and on no other.
\<close>

lemma share_exec_once:
  assumes own: "\<And>p q st. p \<noteq> q \<Longrightarrow> get q (func p st) = get q st"
    and lock: "\<And>p st. lock p st = alive (get p st)"
    and one: "\<And>p st. get p (func p st) = f (get p st)"
    and "distinct v"
  shows "get q (share_exec True lock func v st) =
    (if q \<in> set v \<and> alive (get q st) then f (get q st) else get q st)"
  using \<open>distinct v\<close>
proof (induction v arbitrary: st)
  case (Cons p v)
  show ?case
  proof (cases "q = p")
    case True
    then have "q \<notin> set v" using Cons.prems by simp
    then show ?thesis using Cons True by (simp add: lock one)
  next
    case False
    then have "get q (if lock p st then func p st else st) = get q st" using own [of p q] by simp
    then show ?thesis using Cons False by simp
  qed
qed simp

section \<open>Properties\<close>

text \<open>
  Both registries hold exactly the objects whose last call was a join, each once,
  after any sequence of joins and leaves from an empty registry; \<open>exec_to_all\<close> then
  visits each of them that is not being destroyed exactly once, and no other object.
  Here the objects are the entries of a function, and the visit counts.
\<close>

theorem registry_members:
  "distinct (sh_set (shareable.history es (share_new d))) \<and>
   (k \<in> set (sh_set (shareable.history es (share_new d))) \<longleftrightarrow> shareable.present es False k) \<and>
   distinct (static_shareable.history es []) \<and>
   (k \<in> set (static_shareable.history es []) \<longleftrightarrow> static_shareable.present es False k) \<and>
   static_exec_to_all True (\<lambda>p st. st p \<noteq> None) (\<lambda>p st. st(p := map_option Suc (st p)))
     (static_shareable.history es []) st k =
   (if static_shareable.present es False k then map_option Suc (st k) else st k)"
proof -
  let ?v = "static_shareable.history es []"
  have v: "distinct ?v" "k \<in> set ?v \<longleftrightarrow> static_shareable.present es False k"
    using static_shareable.history_distinct [of "[]" es]
      static_shareable.history_members [of k es "[]"] by simp_all
  have "static_exec_to_all True (\<lambda>p st. st p \<noteq> None) (\<lambda>p st. st(p := map_option Suc (st p))) ?v st k =
      (if k \<in> set ?v \<and> st k \<noteq> None then map_option Suc (st k) else st k)"
    unfolding static_exec_to_all_def
    by (rule share_exec_once [where get = "\<lambda>q st. st q"]) (use v in simp_all)
  then show ?thesis
    using v shareable.history_distinct [of "share_new d" es]
      shareable.history_members [of k es "share_new d"]
    by (cases "st k") (simp_all add: share_new_def)
qed

end
