(* ===== verification/Ws_Session.thy ===== *)
theory Ws_Session
  imports Write_Queue Shareable
begin

text \<open>
  A websocket session:
  \<open>src/src/libs/my_async/include/my_async/websocket/impl/session_base_impl.hpp\<close> and the
  final class \<open>Session_Static_Callback_Static_Share\<close> over it
  (\<open>session_static_callback_static_share_impl.hpp\<close>), which forwards to static callbacks
  and keeps the set of open sessions.  The websocket stream is a library: it has an
  outstanding accept, handshake, read, write or close, a frame type (text or binary)
  that the next write uses, and completes operations with a result.
\<close>

section \<open>Session\<close>

text \<open>\<open>wk_writes\<close> holds the frame type that was set when the write was started.\<close>

record ws_session =
  wk_ssl :: bool
  wk_posted :: "byte_array list"
  wk_queue :: "byte_array list"
  wk_writes :: "(bool \<times> byte_array) list"
  wk_reads :: nat
  wk_handshakes :: nat
  wk_accepts :: nat
  wk_closes :: nat
  wk_text :: bool
  wk_log :: "callback list"

definition ws_new :: "bool \<Rightarrow> bool \<Rightarrow> ws_session" where
  "ws_new use_ssl default_text = \<lparr>wk_ssl = use_ssl, wk_posted = [], wk_queue = [], wk_writes = [],
     wk_reads = 0, wk_handshakes = 0, wk_accepts = 0, wk_closes = 0, wk_text = default_text,
     wk_log = []\<rparr>"

definition ws_call :: "callback list \<Rightarrow> ws_session \<Rightarrow> ws_session" where
  "ws_call cs s = s\<lparr>wk_log := wk_log s @ cs\<rparr>"

text \<open>The size of the buffer a read is given, the default of the template parameter.\<close>

definition ReadBufferSize :: nat where
  "ReadBufferSize = 1024"

section \<open>Operations of the base class\<close>

definition ws_on_run :: "ws_session \<Rightarrow> ws_session" where
  "ws_on_run s =
     (if \<not> wk_ssl s then s\<lparr>wk_accepts := wk_accepts s + 1\<rparr>
      else s\<lparr>wk_handshakes := wk_handshakes s + 1\<rparr>)"

text \<open>\<open>run\<close> with the request of an HTTP upgrade.\<close>

definition ws_run_request :: "ws_session \<Rightarrow> ws_session" where
  "ws_run_request s = s\<lparr>wk_accepts := wk_accepts s + 1\<rparr>"

definition ws_set_text :: "bool \<Rightarrow> ws_session \<Rightarrow> ws_session" where
  "ws_set_text b s = s\<lparr>wk_text := b\<rparr>"

definition ws_set_binary :: "bool \<Rightarrow> ws_session \<Rightarrow> ws_session" where
  "ws_set_binary b s = s\<lparr>wk_text := \<not> b\<rparr>"

definition ws_close :: "ws_session \<Rightarrow> ws_session" where
  "ws_close s = s\<lparr>wk_closes := wk_closes s + 1\<rparr>"

text \<open>
  \<open>closed\<close> calls the virtual \<open>on_close\<close> of the base class, which the final class does
  not override: nothing happens.
\<close>

definition ws_closed :: "error_code option \<Rightarrow> ws_session \<Rightarrow> ws_session" where
  "ws_closed r s = s\<lparr>wk_closes := wk_closes s - 1\<rparr>"

definition ws_fail :: "error_code \<Rightarrow> string \<Rightarrow> ws_session \<Rightarrow> ws_session" where
  "ws_fail ec what s =
     (if ec = operation_aborted \<or> ec = websocket_closed then ws_call [On_Close ec] s
      else ws_call [On_Error ec what] s)"

definition ws_on_handshake :: "error_code option \<Rightarrow> ws_session \<Rightarrow> ws_session" where
  "ws_on_handshake r s =
     (let s = s\<lparr>wk_handshakes := wk_handshakes s - 1\<rparr> in
      case r of Some ec \<Rightarrow> ws_fail ec ''handshake'' s
      | None \<Rightarrow> s\<lparr>wk_accepts := wk_accepts s + 1\<rparr>)"

definition ws_do_read :: "ws_session \<Rightarrow> ws_session" where
  "ws_do_read s = s\<lparr>wk_reads := wk_reads s + 1\<rparr>"

definition ws_on_accept :: "error_code option \<Rightarrow> ws_session \<Rightarrow> ws_session" where
  "ws_on_accept r s =
     (let s = s\<lparr>wk_accepts := wk_accepts s - 1\<rparr> in
      case r of Some ec \<Rightarrow> ws_fail ec ''accept'' s
      | None \<Rightarrow> ws_call [On_Open] (ws_do_read s))"

definition ws_on_read :: "error_code option \<Rightarrow> byte_array \<Rightarrow> ws_session \<Rightarrow> ws_session" where
  "ws_on_read r buffer s =
     (let s = s\<lparr>wk_reads := wk_reads s - 1\<rparr> in
      case r of Some ec \<Rightarrow> ws_fail ec ''read'' s
      | None \<Rightarrow> ws_do_read (ws_call [Read_Handler buffer] s))"

definition ws_write :: "byte_array \<Rightarrow> ws_session \<Rightarrow> ws_session" where
  "ws_write data s = s\<lparr>wk_posted := wk_posted s @ [data]\<rparr>"

definition ws_write_text :: "byte_array \<Rightarrow> bool \<Rightarrow> ws_session \<Rightarrow> ws_session" where
  "ws_write_text data text s = ws_write data (ws_set_text text s)"

definition ws_do_write :: "ws_session \<Rightarrow> ws_session" where
  "ws_do_write s = s\<lparr>wk_writes := wk_writes s @ map (Pair (wk_text s)) (take 1 (wk_queue s))\<rparr>"

definition ws_writing :: "byte_array \<Rightarrow> ws_session \<Rightarrow> ws_session" where
  "ws_writing data s =
     (let s = s\<lparr>wk_queue := wk_queue s @ [data]\<rparr> in
      if length (wk_queue s) > 1 then s else ws_do_write s)"

definition ws_on_write :: "error_code option \<Rightarrow> ws_session \<Rightarrow> ws_session" where
  "ws_on_write r s =
     (let s = s\<lparr>wk_writes := tl (wk_writes s)\<rparr> in
      case r of Some ec \<Rightarrow> ws_fail ec ''write'' s
      | None \<Rightarrow>
         (let s = s\<lparr>wk_queue := tl (wk_queue s)\<rparr> in
          if wk_queue s \<noteq> [] then ws_do_write s else s))"

section \<open>Static callbacks\<close>

text \<open>The four \<open>std::function\<close> members; \<open>None\<close> is the empty function.\<close>

record 'f ws_callbacks =
  cb_open :: "'f option"
  cb_close :: "'f option"
  cb_message :: "'f option"
  cb_error :: "'f option"

definition ws_set_on_open :: "'f option \<Rightarrow> 'f ws_callbacks \<Rightarrow> 'f ws_callbacks" where
  "ws_set_on_open f cbs = cbs\<lparr>cb_open := f\<rparr>"

definition ws_set_on_close :: "'f option \<Rightarrow> 'f ws_callbacks \<Rightarrow> 'f ws_callbacks" where
  "ws_set_on_close f cbs = cbs\<lparr>cb_close := f\<rparr>"

definition ws_set_on_message :: "'f option \<Rightarrow> 'f ws_callbacks \<Rightarrow> 'f ws_callbacks" where
  "ws_set_on_message f cbs = cbs\<lparr>cb_message := f\<rparr>"

definition ws_set_on_error :: "'f option \<Rightarrow> 'f ws_callbacks \<Rightarrow> 'f ws_callbacks" where
  "ws_set_on_error f cbs = cbs\<lparr>cb_error := f\<rparr>"

text \<open>Which static callback an event of the session runs.\<close>

fun ws_callback_for :: "'f ws_callbacks \<Rightarrow> callback \<Rightarrow> 'f option" where
  "ws_callback_for cbs On_Open = cb_open cbs"
| "ws_callback_for cbs (Read_Handler b) = cb_message cbs"
| "ws_callback_for cbs (On_Close ec) = cb_close cbs"
| "ws_callback_for cbs (On_Error ec what) = cb_error cbs"

section \<open>Steps\<close>

inductive ws_step :: "ws_session \<Rightarrow> ws_session \<Rightarrow> bool" where
  k_write: "ws_step s (ws_write d s)"
| k_text: "ws_step s (ws_set_text b s)"
| k_close: "ws_step s (ws_close s)"
| k_writing: "wk_posted s = d # ts \<Longrightarrow> ws_step s (ws_writing d (s\<lparr>wk_posted := ts\<rparr>))"
| k_handshake: "wk_handshakes s > 0 \<Longrightarrow> ws_step s (ws_on_handshake r s)"
| k_accept: "wk_accepts s > 0 \<Longrightarrow> ws_step s (ws_on_accept r s)"
| k_read: "\<lbrakk>wk_reads s > 0; length b \<le> ReadBufferSize\<rbrakk> \<Longrightarrow> ws_step s (ws_on_read r b s)"
| k_written: "wk_writes s \<noteq> [] \<Longrightarrow> ws_step s (ws_on_write r s)"
| k_closed: "wk_closes s > 0 \<Longrightarrow> ws_step s (ws_closed r s)"

inductive ws_reach :: "bool \<Rightarrow> bool \<Rightarrow> ws_session \<Rightarrow> bool" for use_ssl dt :: bool where
  k_run: "ws_reach use_ssl dt (ws_on_run (ws_new use_ssl dt))"
| k_request: "ws_reach use_ssl dt (ws_run_request (ws_new use_ssl dt))"
| k_step: "\<lbrakk>ws_reach use_ssl dt s; ws_step s s'\<rbrakk> \<Longrightarrow> ws_reach use_ssl dt s'"

section \<open>Lemmas\<close>

lemmas ws_defs =
  ws_new_def ws_call_def ws_on_run_def ws_run_request_def ws_set_text_def ws_close_def
  ws_closed_def ws_fail_def ws_on_handshake_def ws_do_read_def ws_on_accept_def ws_on_read_def
  ws_write_def ws_do_write_def ws_writing_def ws_on_write_def Let_def

interpretation ws_wq: write_queue wk_queue "\<lambda>s. map snd (wk_writes s)" ws_writing
  "ws_on_write None"
proof
  fix d s
  show "wk_queue (ws_writing d s) = wk_queue s @ [d]"
    by (simp add: ws_defs)
  show "map snd (wk_writes (ws_writing d s)) =
      map snd (wk_writes s) @ (if wk_queue s = [] then [d] else [])"
    by (cases "wk_queue s") (simp_all add: ws_defs)
  show "wk_queue (ws_on_write None s) = tl (wk_queue s)"
    by (simp add: ws_defs)
  show "map snd (wk_writes (ws_on_write None s)) =
      tl (map snd (wk_writes s)) @ take 1 (tl (wk_queue s))"
    by (cases "tl (wk_queue s)") (simp_all add: ws_defs map_tl)
qed

text \<open>
  One setup operation or one read at a time, one write at a time which is the front of
  the queue, \<open>On_Open\<close> at most once and before any message, and no message longer than
  the read buffer.
\<close>

definition open_calls :: "callback list \<Rightarrow> nat" where
  "open_calls cs = length (filter (\<lambda>c. c = On_Open) cs)"

lemma open_calls_simps [simp]:
  "open_calls [] = 0" "open_calls (cs @ ds) = open_calls cs + open_calls ds"
  "open_calls (c # cs) = (if c = On_Open then 1 else 0) + open_calls cs"
  by (simp_all add: open_calls_def)

definition ws_inv :: "ws_session \<Rightarrow> bool" where
  "ws_inv s \<longleftrightarrow>
     wk_handshakes s + wk_accepts s + open_calls (wk_log s) \<le> 1 \<and>
     wk_reads s \<le> open_calls (wk_log s) \<and>
     (map snd (wk_writes s) = take 1 (wk_queue s) \<or> wk_queue s \<noteq> [] \<and> wk_writes s = []) \<and>
     list_all (\<lambda>c. case c of Read_Handler b \<Rightarrow> length b \<le> ReadBufferSize | _ \<Rightarrow> True) (wk_log s) \<and>
     (open_calls (wk_log s) = 0 \<longrightarrow> (\<forall>b. Read_Handler b \<notin> set (wk_log s)))"

lemma ws_fail_log:
  "\<exists>cs. ws_fail ec w s = s\<lparr>wk_log := wk_log s @ cs\<rparr> \<and>
     (cs = [On_Close ec] \<or> cs = [On_Error ec w])"
  by (auto simp: ws_fail_def ws_call_def)

lemma ws_inv_fail: "ws_inv s \<Longrightarrow> ws_inv (ws_fail ec w s)"
  using ws_fail_log [of ec w s] by (auto simp: ws_inv_def)

lemma ws_inv_on_write:
  assumes "ws_inv s" "wk_writes s \<noteq> []"
  shows "ws_inv (ws_on_write r s)"
proof -
  obtain d q b where q: "wk_queue s = d # q" "wk_writes s = [(b, d)]"
    using assms by (cases "wk_queue s") (auto simp: ws_inv_def)
  show ?thesis
  proof (cases r)
    case None
    then show ?thesis
      using assms(1) q by (cases q) (auto simp: ws_inv_def ws_on_write_def ws_do_write_def)
  next
    case (Some ec)
    have "ws_inv (s\<lparr>wk_writes := []\<rparr>)" using assms(1) q by (simp add: ws_inv_def)
    then show ?thesis using Some q ws_inv_fail by (simp add: ws_on_write_def)
  qed
qed

lemma ws_inv_step:
  assumes "ws_step s s'" "ws_inv s"
  shows "ws_inv s'"
  using assms(1)
proof cases
  case (k_writing d ts)
  then show ?thesis using assms(2)
    by (cases "wk_queue s") (auto simp: ws_inv_def ws_writing_def ws_do_write_def)
next
  case (k_handshake r)
  have "ws_inv (s\<lparr>wk_handshakes := wk_handshakes s - 1\<rparr>)" using assms(2) by (simp add: ws_inv_def)
  then show ?thesis using assms(2) k_handshake ws_inv_fail
    by (cases r) (auto simp: ws_on_handshake_def ws_inv_def)
next
  case (k_accept r)
  have "ws_inv (s\<lparr>wk_accepts := wk_accepts s - 1\<rparr>)" using assms(2) by (simp add: ws_inv_def)
  then show ?thesis using assms(2) k_accept ws_inv_fail
    by (cases r) (auto simp: ws_on_accept_def ws_inv_def ws_call_def ws_do_read_def)
next
  case (k_read b r)
  have "ws_inv (s\<lparr>wk_reads := wk_reads s - 1\<rparr>)" using assms(2) by (simp add: ws_inv_def)
  then show ?thesis using assms(2) k_read ws_inv_fail
    by (cases r) (auto simp: ws_on_read_def ws_inv_def ws_call_def ws_do_read_def)
next
  case (k_written r)
  then show ?thesis using assms(2) ws_inv_on_write by simp
qed (use assms(2) in \<open>auto simp: ws_inv_def ws_write_def ws_set_text_def ws_close_def ws_closed_def\<close>)

lemma ws_reach_inv: "ws_reach use_ssl dt s \<Longrightarrow> ws_inv s"
proof (induction rule: ws_reach.induct)
  case (k_step s s')
  then show ?case using ws_inv_step by blast
qed (simp_all add: ws_inv_def ws_defs)

text \<open>
  A peer that closes while a read and a write are outstanding ends both operations with
  \<open>closed\<close>: the close callback runs twice.
\<close>

lemma ws_close_twice:
  assumes "wk_writes s \<noteq> []" "ec = websocket_closed \<or> ec = operation_aborted"
  shows "wk_log (ws_on_write (Some ec) (ws_on_read (Some ec) b s)) =
    wk_log s @ [On_Close ec, On_Close ec]"
  using assms by (auto simp: ws_on_write_def ws_on_read_def ws_fail_def ws_call_def Let_def)

section \<open>Properties\<close>

text \<open>
  C8: A websocket session, whatever order the program's calls, posted tasks and
  completions come in and whatever their results: at most one setup operation, one read
  and one write are outstanding, the write being the front of the queue; the open
  callback runs at most once and before any message; and no message handed to the
  program is longer than the read buffer, so that a longer websocket message arrives as
  several.
\<close>

theorem ws_session_safe:
  assumes "ws_reach use_ssl dt s"
  shows "wk_handshakes s + wk_accepts s + wk_reads s \<le> 1 \<and> length (wk_writes s) \<le> 1 \<and>
    map snd (wk_writes s) = take (length (wk_writes s)) (wk_queue s) \<and>
    open_calls (wk_log s) \<le> 1 \<and>
    (\<forall>b. Read_Handler b \<in> set (wk_log s) \<longrightarrow> length b \<le> ReadBufferSize \<and> On_Open \<in> set (wk_log s))"
proof -
  have inv: "ws_inv s" by (rule ws_reach_inv [OF assms])
  have len: "length (wk_writes s) \<le> 1"
    using inv length_map [of snd "wk_writes s"] by (auto simp: ws_inv_def simp del: length_map)
  have front: "map snd (wk_writes s) = take (length (wk_writes s)) (wk_queue s)"
  proof (cases "wk_queue s")
    case Nil
    then show ?thesis using inv by (auto simp: ws_inv_def)
  next
    case (Cons d q)
    then show ?thesis
      using inv length_map [of snd "wk_writes s"] by (auto simp: ws_inv_def simp del: length_map)
  qed
  have "length b \<le> ReadBufferSize \<and> On_Open \<in> set (wk_log s)" if "Read_Handler b \<in> set (wk_log s)" for b
  proof -
    have "open_calls (wk_log s) \<noteq> 0" using inv that by (auto simp: ws_inv_def)
    then have "On_Open \<in> set (wk_log s)" by (auto simp: open_calls_def filter_empty_conv)
    then show ?thesis using inv that by (auto simp: ws_inv_def list_all_iff)
  qed
  moreover have "wk_handshakes s + wk_accepts s + wk_reads s \<le> 1" "open_calls (wk_log s) \<le> 1"
    using inv by (auto simp: ws_inv_def)
  ultimately show ?thesis using len front by blast
qed

definition ws_demo :: ws_session where
  "ws_demo = ws_on_read None [1, 2] (ws_on_accept None (ws_on_run (ws_new False True)))"

theorem ws_session_safe_witness:
  "wk_handshakes ws_demo + wk_accepts ws_demo + wk_reads ws_demo \<le> 1 \<and>
    Read_Handler [1, 2] \<in> set (wk_log ws_demo) \<and> On_Open \<in> set (wk_log ws_demo)"
proof -
  have "ws_reach False True (ws_on_accept None (ws_on_run (ws_new False True)))"
    by (rule ws_reach.k_step [OF ws_reach.k_run], rule ws_step.k_accept)
      (simp add: ws_on_run_def ws_new_def)
  then have "ws_reach False True ws_demo" unfolding ws_demo_def
    by (rule ws_reach.k_step, intro ws_step.k_read)
      (simp_all add: ws_defs ReadBufferSize_def)
  moreover have "Read_Handler [1, 2] \<in> set (wk_log ws_demo)" by (simp add: ws_demo_def ws_defs)
  ultimately show ?thesis using ws_session_safe [of False True ws_demo] by blast
qed

text \<open>
  The histories of a session: what it has been given to write, what has been written, in
  order, and whether a write has failed.
\<close>

inductive ws_trace ::
  "bool \<Rightarrow> bool \<Rightarrow> byte_array list \<Rightarrow> byte_array list \<Rightarrow> bool \<Rightarrow> ws_session \<Rightarrow> bool"
  for use_ssl dt :: bool where
  t_run: "ws_trace use_ssl dt [] [] False (ws_on_run (ws_new use_ssl dt))"
| t_request: "ws_trace use_ssl dt [] [] False (ws_run_request (ws_new use_ssl dt))"
| t_write: "ws_trace use_ssl dt g w fl s \<Longrightarrow> ws_trace use_ssl dt (g @ [d]) w fl (ws_write d s)"
| t_written: "\<lbrakk>ws_trace use_ssl dt g w fl s; wk_writes s = (t, d) # ts\<rbrakk> \<Longrightarrow>
    ws_trace use_ssl dt g (w @ [d]) fl (ws_on_write None s)"
| t_failed: "\<lbrakk>ws_trace use_ssl dt g w fl s; wk_writes s \<noteq> []\<rbrakk> \<Longrightarrow>
    ws_trace use_ssl dt g w True (ws_on_write (Some ec) s)"
| t_text: "ws_trace use_ssl dt g w fl s \<Longrightarrow> ws_trace use_ssl dt g w fl (ws_set_text b s)"
| t_close: "ws_trace use_ssl dt g w fl s \<Longrightarrow> ws_trace use_ssl dt g w fl (ws_close s)"
| t_writing: "\<lbrakk>ws_trace use_ssl dt g w fl s; wk_posted s = d # ds\<rbrakk> \<Longrightarrow>
    ws_trace use_ssl dt g w fl (ws_writing d (s\<lparr>wk_posted := ds\<rparr>))"
| t_handshake: "\<lbrakk>ws_trace use_ssl dt g w fl s; wk_handshakes s > 0\<rbrakk> \<Longrightarrow>
    ws_trace use_ssl dt g w fl (ws_on_handshake r s)"
| t_accept: "\<lbrakk>ws_trace use_ssl dt g w fl s; wk_accepts s > 0\<rbrakk> \<Longrightarrow>
    ws_trace use_ssl dt g w fl (ws_on_accept r s)"
| t_read: "\<lbrakk>ws_trace use_ssl dt g w fl s; wk_reads s > 0; length d \<le> ReadBufferSize\<rbrakk> \<Longrightarrow>
    ws_trace use_ssl dt g w fl (ws_on_read r d s)"
| t_closed: "\<lbrakk>ws_trace use_ssl dt g w fl s; wk_closes s > 0\<rbrakk> \<Longrightarrow>
    ws_trace use_ssl dt g w fl (ws_closed r s)"

lemma ws_trace_reach: "ws_trace use_ssl dt g w fl s \<Longrightarrow> ws_reach use_ssl dt s"
proof (induction rule: ws_trace.induct)
  case (t_written g w fl s t d ts)
  have "ws_step s (ws_on_write None s)" by (rule ws_step.k_written) (use t_written in simp)
  then show ?case by (rule ws_reach.k_step [OF t_written.IH])
qed (blast intro: ws_reach.intros ws_step.intros)+

text \<open>The part of the state a step can change without touching the messages.\<close>

lemma ws_messages_kept:
  "wk_queue (ws_on_handshake r s) = wk_queue s" "wk_posted (ws_on_handshake r s) = wk_posted s"
  "wk_writes (ws_on_handshake r s) = wk_writes s"
  "wk_queue (ws_on_accept r s) = wk_queue s" "wk_posted (ws_on_accept r s) = wk_posted s"
  "wk_writes (ws_on_accept r s) = wk_writes s"
  "wk_queue (ws_on_read r d s) = wk_queue s" "wk_posted (ws_on_read r d s) = wk_posted s"
  "wk_writes (ws_on_read r d s) = wk_writes s"
  by (cases r; simp add: ws_defs)+

lemma ws_trace_inv:
  "ws_trace use_ssl dt g w fl s \<Longrightarrow> g = w @ wk_queue s @ wk_posted s \<and>
     (\<not> fl \<longrightarrow> map snd (wk_writes s) = take 1 (wk_queue s))"
proof (induction rule: ws_trace.induct)
  case (t_written g w fl s t d ts)
  have inv: "ws_inv s" by (rule ws_reach_inv [OF ws_trace_reach [OF t_written.hyps(1)]])
  then have "map snd (wk_writes s) = take 1 (wk_queue s)"
    using t_written.hyps(2) by (auto simp: ws_inv_def)
  then obtain q where "wk_queue s = d # q" "ts = []"
    using t_written.hyps(2) by (cases "wk_queue s") auto
  then show ?case
    using t_written by (cases q) (simp_all add: ws_on_write_def ws_do_write_def Let_def)
next
  case (t_writing g w fl s d ds)
  then show ?case
    by (cases "wk_queue s") (auto simp: ws_writing_def ws_do_write_def Let_def)
qed (auto simp: ws_messages_kept ws_write_def ws_set_text_def ws_close_def ws_closed_def
  ws_on_run_def ws_run_request_def ws_new_def ws_on_write_def ws_fail_def ws_call_def Let_def)

text \<open>
  C9: A session refines a queue of messages.  Whatever else happens to it, and in whatever
  order posted tasks and completions come, what it has been given is at every moment what
  has been written, in order and without a gap, followed by what it still holds; and unless
  a write has failed it does not rest while it holds anything the executor has handed over:
  the first message is being written.
\<close>

theorem ws_refines_queue:
  assumes "ws_trace use_ssl dt given written failed s"
  shows "given = written @ wk_queue s @ wk_posted s \<and>
    (\<not> failed \<longrightarrow> map snd (wk_writes s) = take 1 (wk_queue s)) \<and> ws_reach use_ssl dt s"
  using ws_trace_inv [OF assms] ws_trace_reach [OF assms] by simp

theorem ws_refines_queue_witness:
  "\<exists>s. ws_trace False True [[1], [2]] [[1]] False s \<and> wk_queue s = [] \<and> wk_posted s = [[2]]"
proof -
  let ?s0 = "ws_on_run (ws_new False True)"
  let ?s1 = "ws_write [2] (ws_write [1] ?s0)"
  let ?s2 = "ws_writing [1] (?s1\<lparr>wk_posted := [[2]]\<rparr>)"
  have t1: "ws_trace False True [[1], [2]] [] False ?s1"
    using ws_trace.t_write [OF ws_trace.t_write [OF ws_trace.t_run], of False True "[1]" "[2]"] by simp
  have t2: "ws_trace False True [[1], [2]] [] False ?s2"
    by (rule ws_trace.t_writing [OF t1]) (simp add: ws_defs)
  have "ws_trace False True [[1], [2]] ([] @ [[1]]) False (ws_on_write None ?s2)"
    by (rule ws_trace.t_written [OF t2]) (simp add: ws_defs)
  then have t3: "ws_trace False True [[1], [2]] [[1]] False (ws_on_write None ?s2)" by simp
  have "wk_posted (ws_on_write None ?s2) = [[2]]" by (simp add: ws_defs)
  then show ?thesis using ws_refines_queue [OF t3] t3 by auto
qed

text \<open>
  What a session is given to write goes out completely and in order: from the start,
  any sequence of writes and successful completions hands to the stream a prefix of what
  was queued, in order and without a gap, and what remains is still queued; as many
  further completions as there are messages send everything.
\<close>

theorem ws_fifo:
  assumes "ws_wq.run es (ws_new use_ssl dt) = (s, sent)"
  shows "ws_wq.handed es = sent @ wk_queue s \<and>
    snd (ws_wq.run (es @ replicate (length es) None) (ws_new use_ssl dt)) = ws_wq.handed es"
proof -
  have start: "ws_wq.wq_inv (ws_new use_ssl dt)" "wk_queue (ws_new use_ssl dt) = []"
    by (simp_all add: ws_wq.wq_inv_def ws_new_def)
  have "length (ws_wq.handed es) \<le> length es"
    by (induction es rule: ws_wq.handed.induct) auto
  then have "snd (ws_wq.run (es @ replicate (length es) None) (ws_new use_ssl dt)) = ws_wq.handed es"
    using ws_wq.run_drain [OF start(1), of es "length es"] start(2) by simp
  moreover have "ws_wq.handed es = sent @ wk_queue s"
    using ws_wq.run_fifo [OF start(1) assms] start(2) by simp
  ultimately show ?thesis by blast
qed

theorem ws_fifo_witness:
  "ws_wq.handed [Some [1], Some [2], None, Some [3 :: byte]] =
     snd (ws_wq.run [Some [1], Some [2], None, Some [3]] (ws_new False True)) @
     wk_queue (fst (ws_wq.run [Some [1], Some [2], None, Some [3]] (ws_new False True)))"
  using ws_fifo [OF prod.collapse [symmetric]] by blast


definition ws_busy :: ws_session where
  "ws_busy = ws_writing [7] ((ws_write [7] (ws_on_accept None (ws_on_run (ws_new False True))))
     \<lparr>wk_posted := []\<rparr>)"


end
