(* ===== verification/Websocket_Core.thy ===== *)
theory Websocket_Core
  imports Main_App Ws_Session
begin

text \<open>
  The callbacks the core gives to the websocket sessions,
  \<open>src/src/core/json/websocket_session.cpp\<close>, and the delivery of what they write.
  The callbacks append to the output list of the core; \<open>ws_apply\<close> carries an output
  out on the sessions (\<open>write\<close>, \<open>write_all\<close> of
  \<open>session_static_callback_static_share_impl.hpp\<close>).  A callback is \<open>noexcept\<close>: leaving
  the contract of a library inside it (\<open>None\<close>) ends the program.
\<close>

section \<open>Messages of the server\<close>

definition send_status :: "('j, 'z) lib_scheme \<Rightarrow> u32 \<Rightarrow> 'f core \<Rightarrow> 'f core option" where
  "send_status L nusers c = do {
     (msg, c) \<leftarrow> make_status L nusers c;
     Some (emit (Write_All_Same (Byte_Array_of msg)) c) }"

definition send_uid :: "('j, 'z) lib_scheme \<Rightarrow> nat \<Rightarrow> 'f core \<Rightarrow> 'f core option" where
  "send_uid L ws c = do {
     (msg, c) \<leftarrow> make_uid L c;
     Some (emit (Write_Same ws (Byte_Array_of msg)) c) }"

definition send_app_list :: "('j, 'z) lib_scheme \<Rightarrow> nat \<Rightarrow> 'f core \<Rightarrow> 'f core option" where
  "send_app_list L ws c = do {
     app_str \<leftarrow> Dispatcher_names (c_apps c);
     (msg, c) \<leftarrow> make_app_list L app_str c;
     Some (emit (Write_Same ws (Byte_Array_of msg)) c) }"

section \<open>The callbacks\<close>

datatype core_callback = CB_on_open | CB_on_close | CB_on_message | CB_fail

definition init_websocket_cb :: "core_callback ws_callbacks \<Rightarrow> core_callback ws_callbacks" where
  "init_websocket_cb cbs =
     ws_set_on_error (Some CB_fail) (ws_set_on_message (Some CB_on_message)
       (ws_set_on_close (Some CB_on_close) (ws_set_on_open (Some CB_on_open) cbs)))"

text \<open>\<open>fail\<close> only prints.\<close>

definition core_fail :: "error_code \<Rightarrow> string \<Rightarrow> 'f core \<Rightarrow> 'f core" where
  "core_fail ec what c = c"

text \<open>\<open>shares\<close> is \<open>get_num_shares()\<close>.\<close>

definition core_on_open ::
  "('j, 'z) lib_scheme \<Rightarrow> nat \<Rightarrow> nat \<Rightarrow> 'f core \<Rightarrow> 'f core option" where
  "core_on_open L shares ws c = do {
     let c = emit (Set_Text ws True) c;
     c \<leftarrow> send_uid L ws c;
     c \<leftarrow> send_app_list L ws c;
     send_status L (of_nat shares) c }"

definition core_on_close :: "('j, 'z) lib_scheme \<Rightarrow> nat \<Rightarrow> 'f core \<Rightarrow> 'f core option" where
  "core_on_close L shares c = send_status L (of_nat shares - 1) c"

text \<open>
  \<open>on_message\<close>.  \<open>call f\<close> runs the functor \<open>f\<close> of an application with the session, the
  parsed header and the document, on the state \<open>st\<close> of the applications and the core.
\<close>

definition core_on_message ::
  "('j, 'z) lib_scheme \<Rightarrow>
   ('f \<Rightarrow> nat \<Rightarrow> Main_Data \<Rightarrow> 'j \<Rightarrow> 's \<times> 'f core \<Rightarrow> ('s \<times> 'f core) option) \<Rightarrow>
   nat \<Rightarrow> byte_array \<Rightarrow> 's \<times> 'f core \<Rightarrow> ('s \<times> 'f core) option" where
  "core_on_message L call ws body = (\<lambda>(st, c).
     (case (case jd_parse L (c_str (to_string body)) of None \<Rightarrow> None
            | Some d \<Rightarrow> if jd_is_object L d then Some d else None) of
        None \<Rightarrow> do {
          c \<leftarrow> fail_message L ws main (make_error_code ILL_FORMED) '''' c; Some (st, c) }
      | Some d \<Rightarrow> do {
          (s, d, c) \<leftarrow> add_mid L True d c;
          let c = emit (Write_All (Byte_Array_of s) True) c;
          md \<leftarrow> parser_main L (c_apps c) d;
          case md of
            None \<Rightarrow> do {
              c \<leftarrow> fail_message L ws main (make_error_code ILL_FORMED) '''' c; Some (st, c) }
          | Some m \<Rightarrow> do {
              (found, st, c) \<leftarrow> Dispatcher_exec (\<lambda>f. call f ws m d) (c_apps c) (md_app m) (st, c);
              if found then Some (st, c)
              else do {
                c \<leftarrow> fail_message L ws main (make_error_code APP_NOT_FOUND) '''' c;
                Some (st, c) } } }))"

section \<open>Lemmas on the callbacks\<close>

lemma init_websocket_cb_all:
  "ws_callback_for (init_websocket_cb cbs) ev =
     Some (case ev of On_Open \<Rightarrow> CB_on_open | Read_Handler _ \<Rightarrow> CB_on_message
       | On_Close _ \<Rightarrow> CB_on_close | On_Error _ _ \<Rightarrow> CB_fail)"
  by (cases ev) (simp_all add: init_websocket_cb_def ws_set_on_open_def ws_set_on_close_def
      ws_set_on_message_def ws_set_on_error_def)

text \<open>\<open>add_mid\<close> on a document with a time, and on one without.\<close>

lemma add_mid_no_time:
  assumes L: "dom_laws L" and d: "jd_is_object L d" "jd_find L d MESSAGE_TIME_KEY = None"
  shows "add_mid L True d c = None"
  using d by (simp add: add_mid_def get_mid_def member_of_def dom_simps [OF L] message_keys)

definition marked :: "('j, 'z) lib_scheme \<Rightarrow> 'j \<Rightarrow> 'f core \<Rightarrow> 'j" where
  "marked L d c = jd_assign L (jd_add L (jd_add L d MESSAGE_MID_KEY (jd_uint64 L (c_mid c)))
     MESSAGE_ECHOED_KEY (jd_bool L True)) MESSAGE_TIME_KEY (jd_uint64 L (c_clock c (c_ticks c)))"

lemma add_mid_time:
  assumes L: "dom_laws L" and d: "jd_is_object L d" "jd_find L d MESSAGE_TIME_KEY = Some t"
  shows "add_mid L True d c = Some (jd_write L (marked L d c), marked L d c, after_msg c)"
  using d by (simp add: add_mid_def get_mid_def msg_time_def member_of_def dom_simps [OF L]
      message_keys marked_def after_msg_def Let_def)

lemma marked_object: "\<lbrakk>dom_laws L; jd_is_object L d\<rbrakk> \<Longrightarrow> jd_is_object L (marked L d c)"
  by (simp add: marked_def dom_simps)

lemma marked_find:
  assumes L: "dom_laws L" and d: "jd_is_object L d" "jd_find L d MESSAGE_TIME_KEY = Some t"
  shows "jd_find L (marked L d c) k =
    (if k = MESSAGE_TIME_KEY then Some (jd_uint64 L (c_clock c (c_ticks c)))
     else case jd_find L d k of Some v \<Rightarrow> Some v
       | None \<Rightarrow> if k = MESSAGE_MID_KEY then Some (jd_uint64 L (c_mid c))
           else if k = MESSAGE_ECHOED_KEY then Some (jd_bool L True) else None)"
proof -
  let ?d1 = "jd_add L d MESSAGE_MID_KEY (jd_uint64 L (c_mid c))"
  let ?d2 = "jd_add L ?d1 MESSAGE_ECHOED_KEY (jd_bool L True)"
  have o: "jd_is_object L ?d1" "jd_is_object L ?d2" using d by (simp_all add: dom_simps [OF L])
  have t: "jd_find L ?d2 MESSAGE_TIME_KEY = Some t" using d o by (simp add: dom_simps [OF L])
  show ?thesis
    unfolding marked_def dom_assign [OF L o(2) t]
    using d o by (auto simp: dom_simps [OF L] message_keys split: option.splits)
qed

lemma parser_main_registered:
  assumes ok: "table_ok apps" and p: "parser_main L apps doc = Some (Some m)"
  shows "\<exists>r. map_of apps (md_app m) = Some r \<and> app_id r = md_app m"
proof -
  have "get_app L apps doc = Some (Some (md_app m))"
    using p by (auto simp: parser_main_def bind_Some_iff split: if_splits option.splits)
  then obtain name r where r: "Dispatcher_name apps name = Some (Some r)" "app_id r = md_app m"
    by (auto simp: get_app_def bind_Some_iff)
  obtain k where k: "(k, r) \<in> set apps" using Dispatcher_name_sound [OF r(1)] by auto
  then have "k = app_id r" using ok by (auto simp: table_ok_def list_all_iff)
  moreover have "map_of apps k = Some r" using ok k by (simp add: table_ok_def)
  ultimately show ?thesis using r(2) by auto
qed

text \<open>
  A message that is an object with a time: it is echoed to every session first, then
  handed to the application; the branch for an unknown application is never taken.
\<close>

lemma core_on_message_eq:
  assumes L: "dom_laws L" and ok: "table_ok (c_apps c)"
    and d: "jd_parse L (c_str (to_string body)) = Some d" "jd_is_object L d"
    and t: "jd_find L d MESSAGE_TIME_KEY = Some t"
    and c1: "c1 = emit (Write_All (Byte_Array_of (jd_write L (marked L d c))) True) (after_msg c)"
  shows "core_on_message L call ws body (st, c) =
    (case parser_main L (c_apps c) (marked L d c) of
       None \<Rightarrow> None
     | Some None \<Rightarrow> map_option (Pair st) (fail_message L ws main (make_error_code ILL_FORMED) '''' c1)
     | Some (Some m) \<Rightarrow>
         (case app_func (the (map_of (c_apps c) (md_app m))) of
            Some f \<Rightarrow> call f ws m (marked L d c) (st, c1)
          | None \<Rightarrow> Some (st, c1)))"
proof -
  obtain md where md: "parser_main L (c_apps c) (marked L d c) = Some md"
    using parser_main_total [OF ok, of L "marked L d c"] by auto
  show ?thesis
  proof (cases md)
    case None
    then show ?thesis
      using d md c1
      by (cases "fail_message L ws main (make_error_code ILL_FORMED) '''' c1")
        (simp_all add: core_on_message_def add_mid_time [OF L d(2) t] Let_def)
  next
    case (Some m)
    obtain r where "map_of (c_apps c) (md_app m) = Some r"
      using parser_main_registered [OF ok, of L "marked L d c" m] md Some by auto
    then show ?thesis
      using d md Some c1
      by (cases "app_func r"; cases "call (the (app_func r)) ws m (marked L d c) (st, c1)")
        (auto simp: core_on_message_def add_mid_time [OF L d(2) t] Dispatcher_exec_def
          App_exec_def Let_def)
  qed
qed

lemma core_on_message_malformed:
  assumes "jd_parse L (c_str (to_string body)) = None \<or>
    (\<exists>d. jd_parse L (c_str (to_string body)) = Some d \<and> \<not> jd_is_object L d)"
  shows "core_on_message L call ws body (st, c) =
    map_option (Pair st) (fail_message L ws main (make_error_code ILL_FORMED) '''' c)"
  using assms by (auto simp: core_on_message_def map_option_case split: option.splits bind_split)

section \<open>Delivery\<close>

text \<open>
  The sessions that exist, the set of those that joined, and the session whose handler
  runs, if any: the handler holds a reference to it until it returns.
\<close>

record ws_world =
  ww_sessions :: "nat \<Rightarrow> ws_session option"
  ww_share :: "nat list"
  ww_running :: "nat option"

text \<open>The pending operations are what keeps a session alive, and the handler that runs.\<close>

definition ws_alive :: "ws_session \<Rightarrow> bool" where
  "ws_alive s \<longleftrightarrow> wk_posted s \<noteq> [] \<or> wk_writes s \<noteq> [] \<or> wk_reads s > 0 \<or> wk_handshakes s > 0 \<or>
     wk_accepts s > 0 \<or> wk_closes s > 0"

definition ww_lock :: "nat \<Rightarrow> ws_world \<Rightarrow> bool" where
  "ww_lock n w = 
     (case ww_sessions w n of Some s \<Rightarrow> ws_alive s \<or> ww_running w = Some n | None \<Rightarrow> False)"

definition ww_update :: "(ws_session \<Rightarrow> ws_session) \<Rightarrow> nat \<Rightarrow> ws_world \<Rightarrow> ws_world" where
  "ww_update f n w = w\<lparr>ww_sessions := (ww_sessions w)(n := map_option f (ww_sessions w n))\<rparr>"

definition ws_write_all :: "byte_array \<Rightarrow> ws_world \<Rightarrow> ws_world" where
  "ws_write_all data w = static_exec_to_all True ww_lock (ww_update (ws_write data)) (ww_share w) w"

definition ws_write_all_text :: "byte_array \<Rightarrow> bool \<Rightarrow> ws_world \<Rightarrow> ws_world" where
  "ws_write_all_text data text w =
     static_exec_to_all True ww_lock (ww_update (ws_write_text data text)) (ww_share w) w"

fun ws_apply :: "action \<Rightarrow> ws_world \<Rightarrow> ws_world" where
  "ws_apply (Set_Text n b) w = ww_update (ws_set_text b) n w"
| "ws_apply (Write n data text) w = ww_update (ws_write_text data text) n w"
| "ws_apply (Write_Same n data) w = ww_update (ws_write data) n w"
| "ws_apply (Write_All data text) w = ws_write_all_text data text w"
| "ws_apply (Write_All_Same data) w = ws_write_all data w"

definition ws_flush :: "ws_world \<times> 's \<times> 'f core \<Rightarrow> ws_world \<times> 's \<times> 'f core" where
  "ws_flush = (\<lambda>(w, st, c). (fold ws_apply (c_out c) w, st, c\<lparr>c_out := []\<rparr>))"

text \<open>
  The overrides \<open>on_open\<close>, \<open>read_handler\<close> and \<open>fail\<close> of the final class: join, and run
  the static callback when there is one.
\<close>

definition ws_run_callback ::
  "('j, 'z) lib_scheme \<Rightarrow>
   ('f \<Rightarrow> nat \<Rightarrow> Main_Data \<Rightarrow> 'j \<Rightarrow> 's \<times> 'f core \<Rightarrow> ('s \<times> 'f core) option) \<Rightarrow>
   core_callback ws_callbacks \<Rightarrow> nat \<Rightarrow> callback \<Rightarrow> ws_world \<times> 's \<times> 'f core \<Rightarrow>
   (ws_world \<times> 's \<times> 'f core) option" where
  "ws_run_callback L call cbs n ev = (\<lambda>(w, st, c).
     (let w = (if ev = On_Open then w\<lparr>ww_share := static_join n (ww_share w)\<rparr> else w);
          shares = static_num_shares (ww_share w) in
      (case ws_callback_for cbs ev of
         None \<Rightarrow> Some (w, st, c)
       | Some CB_on_open \<Rightarrow> do { c \<leftarrow> core_on_open L shares n c; Some (ws_flush (w, st, c)) }
       | Some CB_on_close \<Rightarrow> do { c \<leftarrow> core_on_close L shares c; Some (ws_flush (w, st, c)) }
       | Some CB_on_message \<Rightarrow> do {
           (st, c) \<leftarrow> core_on_message L call n (case ev of Read_Handler b \<Rightarrow> b | _ \<Rightarrow> []) (st, c);
           Some (ws_flush (w, st, c)) }
       | Some CB_fail \<Rightarrow> Some (ws_flush (w, st, core_fail (Message_Code 0) '''' c)))))"

text \<open>The destructor of a session nothing refers to any more.\<close>

definition ws_destroy :: "nat \<Rightarrow> ws_world \<Rightarrow> ws_world" where
  "ws_destroy n w = w\<lparr>ww_sessions := (ww_sessions w)(n := None),
     ww_share := static_leave n (ww_share w)\<rparr>"

section \<open>Lemmas on delivery\<close>

lemma ww_update_sessions [simp]:
  "ww_sessions (ww_update f n w) n' =
     (if n = n' then map_option f (ww_sessions w n) else ww_sessions w n')"
  "ww_share (ww_update f n w) = ww_share w" "ww_running (ww_update f n w) = ww_running w"
  by (simp_all add: ww_update_def)

lemma share_exec_share:
  "ww_share (share_exec True lock (ww_update f) v w) = ww_share w"
  by (induction v arbitrary: w) auto

lemma ws_write_all_sessions:
  assumes "distinct (ww_share w)"
  shows "ww_sessions (ws_write_all_text data text w) n =
      (if n \<in> set (ww_share w) \<and> ww_lock n w
       then map_option (ws_write_text data text) (ww_sessions w n) else ww_sessions w n)"
    "ww_sessions (ws_write_all data w) n =
      (if n \<in> set (ww_share w) \<and> ww_lock n w
       then map_option (ws_write data) (ww_sessions w n) else ww_sessions w n)"
proof -
  let ?get = "\<lambda>q w. (ww_sessions w q, ww_running w = Some q)"
  have "?get n (share_exec True ww_lock (ww_update f) (ww_share w) w) =
      (if n \<in> set (ww_share w) \<and> ww_lock n w
       then (map_option f (ww_sessions w n), ww_running w = Some n) else ?get n w)" for f
    by (subst share_exec_once [where get = ?get and v = "ww_share w" and f = "apfst (map_option f)"
          and alive = "\<lambda>(s, r). case s of Some s \<Rightarrow> ws_alive s \<or> r | None \<Rightarrow> False"])
      (use assms in \<open>simp_all add: ww_lock_def split: option.splits\<close>)
  then show "ww_sessions (ws_write_all_text data text w) n =
      (if n \<in> set (ww_share w) \<and> ww_lock n w
       then map_option (ws_write_text data text) (ww_sessions w n) else ww_sessions w n)"
    "ww_sessions (ws_write_all data w) n =
      (if n \<in> set (ww_share w) \<and> ww_lock n w
       then map_option (ws_write data) (ww_sessions w n) else ww_sessions w n)"
    by (auto simp: ws_write_all_text_def ws_write_all_def static_exec_to_all_def)
qed

lemma ws_apply_share [simp]: "ww_share (ws_apply a w) = ww_share w"
  by (cases a) (simp_all add: ws_write_all_def ws_write_all_text_def static_exec_to_all_def
      share_exec_share)

lemma ws_flush_share [simp]: "ww_share (fst (ws_flush (w, st, c))) = ww_share w"
proof -
  have "ww_share (fold ws_apply as w) = ww_share w" for as
    by (induction as arbitrary: w) auto
  then show ?thesis by (simp add: ws_flush_def)
qed


lemma ws_flush_share_eq: "ws_flush (w, st, c) = (w', st', c') \<Longrightarrow> ww_share w' = ww_share w"
  using ws_flush_share [of w st c] by simp

lemma ws_run_callback_share:
  assumes "ws_run_callback L call cbs k ev (w, st, c) = Some (w', st', c')"
  shows "ww_share w' = (if ev = On_Open then static_join k (ww_share w) else ww_share w)"
  using assms
  by (auto simp: ws_run_callback_def Let_def bind_Some_iff dest: ws_flush_share_eq
      split: option.splits core_callback.splits if_splits)

section \<open>Properties\<close>

text \<open>
  C7: What the core hands out for everybody reaches everybody exactly once.  With the
  sessions of the share distinct, a write to all gets the data posted at the end of what
  every living session of the share has waiting (one with an operation outstanding, or
  whose handler runs), with the frame type set when the write says so, and leaves every other session and the share as they were; the callbacks that
  run on the sessions keep the share distinct, a session joins it when it opens, and only
  the destructor takes it out.
\<close>

theorem broadcast_delivery:
  assumes "distinct (ww_share w)" "ww_sessions w n = Some s"
  shows "ww_sessions (ws_apply (Write_All data text) w) n =
      Some (if n \<in> set (ww_share w) \<and> (ws_alive s \<or> ww_running w = Some n)
            then s\<lparr>wk_text := text, wk_posted := wk_posted s @ [data]\<rparr> else s) \<and>
    ww_sessions (ws_apply (Write_All_Same data) w) n =
      Some (if n \<in> set (ww_share w) \<and> (ws_alive s \<or> ww_running w = Some n)
            then s\<lparr>wk_posted := wk_posted s @ [data]\<rparr> else s) \<and>
    (\<forall>w' st' c'. ws_run_callback L call cbs k ev (w, st, c) = Some (w', st', c') \<longrightarrow>
      distinct (ww_share w') \<and>
      set (ww_share w') = set (ww_share w) \<union> (if ev = On_Open then {k} else {})) \<and>
    distinct (ww_share (ws_destroy k w)) \<and> set (ww_share (ws_destroy k w)) = set (ww_share w) - {k}"
proof -
  have l: "ww_lock n w = (ws_alive s \<or> ww_running w = Some n)" using assms(2) by (simp add: ww_lock_def)
  have "ww_sessions (ws_apply (Write_All data text) w) n =
      Some (if n \<in> set (ww_share w) \<and> (ws_alive s \<or> ww_running w = Some n)
            then s\<lparr>wk_text := text, wk_posted := wk_posted s @ [data]\<rparr> else s)"
    "ww_sessions (ws_apply (Write_All_Same data) w) n =
      Some (if n \<in> set (ww_share w) \<and> (ws_alive s \<or> ww_running w = Some n)
            then s\<lparr>wk_posted := wk_posted s @ [data]\<rparr> else s)"
    using assms(2) l
    by (auto simp: ws_write_all_sessions [OF assms(1)] ws_write_text_def ws_write_def
        ws_set_text_def)
  moreover have "distinct (ww_share w') \<and>
      set (ww_share w') = set (ww_share w) \<union> (if ev = On_Open then {k} else {})"
    if "ws_run_callback L call cbs k ev (w, st, c) = Some (w', st', c')" for w' st' c'
    using ws_run_callback_share [OF that] assms(1) by (simp add: static_join_def)
  ultimately show ?thesis
    using assms(1) by (simp add: ws_destroy_def static_leave_def distinct_removeAll)
qed

definition ww_demo :: ws_world where
  "ww_demo = \<lparr>ww_sessions = [1 \<mapsto> ws_do_read (ws_new False True), 2 \<mapsto> ws_do_read (ws_new False True)],
     ww_share = [2, 1], ww_running = None\<rparr>"

theorem broadcast_delivery_witness:
  "map_option wk_posted (ww_sessions (ws_apply (Write_All [7] False) ww_demo) 1) = Some [[7]]"
proof -
  have s: "distinct (ww_share ww_demo)" "ww_sessions ww_demo 1 = Some (ws_do_read (ws_new False True))"
    by (simp_all add: ww_demo_def)
  have "1 \<in> set (ww_share ww_demo)" "ws_alive (ws_do_read (ws_new False True))"
    "wk_posted (ws_do_read (ws_new False True)) = []"
    by (simp_all add: ww_demo_def ws_alive_def ws_do_read_def ws_new_def)
  with broadcast_delivery [OF s, THEN conjunct1, of "[7]" False] show ?thesis by simp
qed

end
