(* ===== verification/Endpoint.thy ===== *)
theory Endpoint
  imports Factory
begin

text \<open>
  Network endpoints and the pieces the parsers and the message makers of the four
  socket applications have in common.  An address is a value of a type \<open>'a\<close> of
  the Boost.Asio library; \<open>make_address\<close> and \<open>to_string\<close> on it are fields of the
  library record.  \<open>json_2_byte_array\<close> is from
  \<open>src/src/libs/utility/src/json_helper.cpp\<close>.
\<close>

record ('j, 'a) net_lib = "'j lib" +
  net_address :: "string \<Rightarrow> 'a option"
  net_text :: "'a \<Rightarrow> string"

section \<open>Endpoints\<close>

datatype 'a endpoint = Endpoint (ep_address: 'a) (ep_port: u16)

text \<open>The order of \<open>basic_endpoint\<close>: by address, then by port.\<close>

instantiation endpoint :: (linorder) linorder
begin

definition less_eq_endpoint :: "'a endpoint \<Rightarrow> 'a endpoint \<Rightarrow> bool" where
  "less_eq_endpoint e f \<longleftrightarrow> ep_address e < ep_address f \<or>
     ep_address e = ep_address f \<and> ep_port e \<le> ep_port f"

definition less_endpoint :: "'a endpoint \<Rightarrow> 'a endpoint \<Rightarrow> bool" where
  "less_endpoint e f \<longleftrightarrow> ep_address e < ep_address f \<or>
     ep_address e = ep_address f \<and> ep_port e < ep_port f"

instance
  by standard
    (auto simp: less_eq_endpoint_def less_endpoint_def endpoint.expand)

end

section \<open>Reading an endpoint\<close>

text \<open>\<open>is_valid_port\<close>, the same in the four parsers, on an \<open>unsigned\<close>.\<close>

definition is_valid_port :: "u32 \<Rightarrow> bool" where
  "is_valid_port port \<longleftrightarrow> port > 1024 \<and> port < 65536"

definition make_address ::
  "('j, 'a, 'z) net_lib_scheme \<Rightarrow> string \<Rightarrow> 'a option" where
  "make_address L s = net_address L (c_str s)"

text \<open>\<open>doc[k].GetUint()\<close>.\<close>

definition member_uint :: "('j, 'z) lib_scheme \<Rightarrow> 'j \<Rightarrow> string \<Rightarrow> u32 option" where
  "member_uint L j k = do { v \<leftarrow> member_of L j k; get_uint L v }"

definition member_int :: "('j, 'z) lib_scheme \<Rightarrow> 'j \<Rightarrow> string \<Rightarrow> u32 option" where
  "member_int L j k = do { v \<leftarrow> member_of L j k; get_int L v }"

definition member_bool :: "('j, 'z) lib_scheme \<Rightarrow> 'j \<Rightarrow> string \<Rightarrow> bool option" where
  "member_bool L j k = do { v \<leftarrow> member_of L j k; get_bool L v }"

text \<open>
  The sequence every parser uses for a port and an address: the port is read as an
  \<open>unsigned\<close>, tested, then the address is converted.  The inner \<open>None\<close> is the
  early \<open>return false\<close>.
\<close>

definition read_endpoint ::
  "('j, 'a, 'z) net_lib_scheme \<Rightarrow> 'j \<Rightarrow> 'a endpoint option option" where
  "read_endpoint L j = do {
     port \<leftarrow> member_uint L j ''port'';
     if \<not> is_valid_port port then Some None else do {
     s \<leftarrow> member_c_str L j ''addr'';
     Some (case make_address L s of
         None \<Rightarrow> None
       | Some address \<Rightarrow> Some (Endpoint address (ucast port))) } }"

text \<open>The same with the port cut to 16 bits before it is tested.\<close>

definition read_endpoint_16 ::
  "('j, 'a, 'z) net_lib_scheme \<Rightarrow> 'j \<Rightarrow> 'a endpoint option option" where
  "read_endpoint_16 L j = do {
     p \<leftarrow> member_uint L j ''port'';
     let port = (ucast p :: u16);
     if \<not> is_valid_port (ucast port) then Some None else do {
     s \<leftarrow> member_c_str L j ''addr'';
     Some (case make_address L s of
         None \<Rightarrow> None
       | Some address \<Rightarrow> Some (Endpoint address port)) } }"

text \<open>The guard in front of it.\<close>

definition check_endpoint :: "('j, 'z) lib_scheme \<Rightarrow> 'j \<Rightarrow> bool option" where
  "check_endpoint L j =
     opt_and (has_with L j ''addr'' (jd_is_string L)) (has_with L j ''port'' (jd_is_uint L))"

definition check_endpoint_port_first :: "('j, 'z) lib_scheme \<Rightarrow> 'j \<Rightarrow> bool option" where
  "check_endpoint_port_first L j =
     opt_and (has_with L j ''port'' (jd_is_uint L)) (has_with L j ''addr'' (jd_is_string L))"

section \<open>Reading bytes\<close>

text \<open>\<open>static_cast<uint8_t>(v.GetUint())\<close> of every element or member value.\<close>

definition json_2_byte_array ::
  "('j, 'z) lib_scheme \<Rightarrow> 'j \<Rightarrow> byte_array \<Rightarrow> (bool \<times> byte_array) option" where
  "json_2_byte_array L doc data =
     (if jd_is_array L doc then do {
        vs \<leftarrow> array_items L doc;
        ws \<leftarrow> map_opt (get_uint L) vs;
        Some (True, data @ map ucast ws) }
      else if jd_is_object L doc then do {
        vs \<leftarrow> object_values L doc;
        ws \<leftarrow> map_opt (get_uint L) vs;
        Some (True, data @ map ucast ws) }
      else Some (False, data))"

text \<open>The payload of a data message: an object of byte values, or a C string.\<close>

definition read_payload :: "('j, 'z) lib_scheme \<Rightarrow> 'j \<Rightarrow> string \<Rightarrow> byte_array option" where
  "read_payload L doc k = do {
     v \<leftarrow> member_of L doc k;
     if jd_is_object L v then map_option snd (json_2_byte_array L v [])
     else do { s \<leftarrow> get_string L v; Some (copy [] (c_str s)) } }"

text \<open>What the payload guard does not check: the values are unsigned integers.\<close>

definition payload_uints :: "('j, 'z) lib_scheme \<Rightarrow> 'j \<Rightarrow> bool" where
  "payload_uints L v = (if jd_is_array L v then list_all (jd_is_uint L) (jd_elements L v)
     else jd_is_object L v \<longrightarrow> list_all (jd_is_uint L) (jd_values L v))"

section \<open>Writing an endpoint\<close>

definition endpoint_members ::
  "('j, 'a, 'z) net_lib_scheme \<Rightarrow> 'a endpoint \<Rightarrow> 'j members" where
  "endpoint_members L e =
     [(''addr'', jd_string L (c_str (net_text L (ep_address e)))),
      (''port'', jd_int L (ucast (ep_port e)))]"

definition endpoint_object ::
  "('j, 'a, 'z) net_lib_scheme \<Rightarrow> 'a endpoint \<Rightarrow> 'j" where
  "endpoint_object L e = jd_object L (endpoint_members L e)"

text \<open>The array of byte values a received message carries.\<close>

definition bytes_array :: "('j, 'z) lib_scheme \<Rightarrow> byte_array \<Rightarrow> 'j" where
  "bytes_array L data = jd_array L (map (\<lambda>d. jd_int L (ucast d)) data)"

section \<open>Lemmas\<close>

lemma member_uint_guarded [contract_free]:
  "has_with L j k (jd_is_uint L) = Some True \<Longrightarrow> \<exists>w. member_uint L j k = Some w"
  by (auto simp: member_uint_def accessor_defs)

lemma member_int_guarded [contract_free]:
  "has_with L j k (jd_is_int L) = Some True \<Longrightarrow> \<exists>w. member_int L j k = Some w"
  by (auto simp: member_int_def accessor_defs)

lemma member_bool_guarded [contract_free]:
  "has_with L j k (jd_is_bool L) = Some True \<Longrightarrow> \<exists>w. member_bool L j k = Some w"
  by (auto simp: member_bool_def accessor_defs)

lemma check_endpoint_total [contract_free]:
  "jd_is_object L j \<Longrightarrow> \<exists>b. check_endpoint L j = Some b"
  "jd_is_object L j \<Longrightarrow> \<exists>b. check_endpoint_port_first L j = Some b"
  unfolding check_endpoint_def check_endpoint_port_first_def
  by (intro contract_free; assumption)+

lemma check_endpoint_True:
  "check_endpoint L j = Some True \<longleftrightarrow> jd_is_object L j \<and>
     (\<exists>a. jd_find L j ''addr'' = Some a \<and> jd_is_string L a) \<and>
     (\<exists>p. jd_find L j ''port'' = Some p \<and> jd_is_uint L p)"
  "check_endpoint_port_first L j = Some True \<longleftrightarrow> jd_is_object L j \<and>
     (\<exists>a. jd_find L j ''addr'' = Some a \<and> jd_is_string L a) \<and>
     (\<exists>p. jd_find L j ''port'' = Some p \<and> jd_is_uint L p)"
  by (auto simp: check_endpoint_def check_endpoint_port_first_def)

text \<open>What a guarded endpoint reads as.\<close>

definition endpoint_of ::
  "('j, 'a, 'z) net_lib_scheme \<Rightarrow> string \<Rightarrow> u32 \<Rightarrow> 'a endpoint option" where
  "endpoint_of L s p = (if is_valid_port p
     then map_option (\<lambda>a. Endpoint a (ucast p)) (net_address L (c_str s)) else None)"

lemma read_endpoint_eq:
  "\<lbrakk>jd_is_object L j; jd_find L j ''addr'' = Some a; jd_is_string L a;
    jd_find L j ''port'' = Some p; jd_is_uint L p\<rbrakk> \<Longrightarrow>
   read_endpoint L j = Some (endpoint_of L (jd_get_string L a) (jd_get_uint L p))"
  by (simp add: read_endpoint_def member_uint_def member_c_str_eq accessor_defs make_address_def
      endpoint_of_def split: option.splits)

lemma ucast_16_32_16 [simp]: "ucast (ucast (w :: u16) :: u32) = w"
  by transfer simp

lemma read_endpoint_16_eq:
  "\<lbrakk>jd_is_object L j; jd_find L j ''addr'' = Some a; jd_is_string L a;
    jd_find L j ''port'' = Some p; jd_is_uint L p\<rbrakk> \<Longrightarrow>
   read_endpoint_16 L j =
     Some (endpoint_of L (jd_get_string L a) (ucast (ucast (jd_get_uint L p) :: u16)))"
  by (simp add: read_endpoint_16_def member_uint_def member_c_str_eq accessor_defs make_address_def
      endpoint_of_def Let_def split: option.splits)

lemma read_endpoint_total [contract_free]:
  "check_endpoint L j = Some True \<Longrightarrow> \<exists>r. read_endpoint L j = Some r"
  "check_endpoint_port_first L j = Some True \<Longrightarrow> \<exists>r. read_endpoint L j = Some r"
  "check_endpoint L j = Some True \<Longrightarrow> \<exists>r. read_endpoint_16 L j = Some r"
  "check_endpoint_port_first L j = Some True \<Longrightarrow> \<exists>r. read_endpoint_16 L j = Some r"
  by (auto simp: check_endpoint_True read_endpoint_eq read_endpoint_16_eq)

lemma valid_port_bounds:
  "is_valid_port p \<Longrightarrow> 1024 < uint (ucast p :: u16) \<and> ucast (ucast p :: u16) = p"
proof -
  assume "is_valid_port p"
  then have p: "1024 < uint p" "uint p < 65536"
    by (simp_all add: is_valid_port_def word_less_def)
  then have u: "uint (ucast p :: u16) = uint p"
    by (simp add: unsigned_ucast_eq uint_word_of_int_eq take_bit_eq_mod)
  moreover have "ucast (ucast p :: u16) = p"
    using u by (metis ucast_eq word_of_int_uint)
  ultimately show ?thesis using p by simp
qed

lemma endpoint_of_Some:
  assumes "endpoint_of L s p = Some e"
  shows "1024 < uint (ep_port e)" "ucast (ep_port e) = p" "net_address L (c_str s) = Some (ep_address e)"
    "is_valid_port p"
  using assms valid_port_bounds [of p]
  by (auto simp: endpoint_of_def split: if_splits)

lemma map_opt_get_uint:
  "(\<exists>ws. map_opt (get_uint L) vs = Some ws) \<longleftrightarrow> list_all (jd_is_uint L) vs"
  by (simp add: map_opt_total_iff get_uint_def list_all_iff)

lemma json_2_byte_array_total:
  "(\<exists>r. json_2_byte_array L v data = Some r) \<longleftrightarrow> payload_uints L v"
proof -
  have "(\<exists>r. (m \<bind> (\<lambda>ws. Some (True, data @ map ucast ws))) = Some (r :: bool \<times> byte_array))
      \<longleftrightarrow> (\<exists>ws. m = Some ws)" for m :: "u32 list option"
    by (cases m) auto
  moreover have "Ex Not" by (rule exI [of _ False]) simp
  ultimately show ?thesis
    by (simp add: json_2_byte_array_def payload_uints_def accessor_defs map_opt_get_uint)
qed

lemma read_payload_total:
  assumes "has_with L j k (\<lambda>v. jd_is_object L v \<or> jd_is_string L v) = Some True"
    and "\<And>v. \<lbrakk>jd_find L j k = Some v; jd_is_object L v\<rbrakk> \<Longrightarrow> payload_uints L v"
  shows "\<exists>r. read_payload L j k = Some r"
  using assms json_2_byte_array_total [of L _ "[]"]
  by (fastforce simp: read_payload_def accessor_defs)

text \<open>An endpoint that a reader delivers has a port above 1024.\<close>

lemma read_endpoint_port:
  assumes "read_endpoint L j = Some (Some e)"
  shows "1024 < uint (ep_port e)"
  using assms valid_port_bounds
  by (auto simp: read_endpoint_def bind_Some_iff split: if_splits option.splits)

lemma valid_port_16: "is_valid_port (ucast (w :: u16)) \<Longrightarrow> 1024 < uint w"
  using valid_port_bounds [of "ucast w"] by simp

lemma read_endpoint_16_port:
  assumes "read_endpoint_16 L j = Some (Some e)"
  shows "1024 < uint (ep_port e)"
  using assms valid_port_16
  by (auto simp: read_endpoint_16_def bind_Some_iff Let_def split: if_splits option.splits)

section \<open>Data messages with a sender and a list of receivers\<close>

text \<open>
  The two server applications share the shape of their data messages: \<open>from\<close>, an
  array \<open>to\<close> and the payload.  The guard of the code is
  \<open>!(from is good) && (to is an array)\<close>, so that a \<open>to\<close> that is missing or not
  an array is not rejected by it.
\<close>

fun check_clients :: "('j, 'z) lib_scheme \<Rightarrow> 'j list \<Rightarrow> bool option" where
  "check_clients L [] = Some True"
| "check_clients L (client # rest) =
     (if \<not> jd_is_object L client then Some False else do {
        ok \<leftarrow> check_endpoint L client;
        if \<not> ok then Some False else check_clients L rest })"

definition check_from :: "('j, 'z) lib_scheme \<Rightarrow> 'j \<Rightarrow> bool option" where
  "check_from L d = opt_and (has_with L d ''from'' (jd_is_object L))
     (do { f \<leftarrow> member_of L d ''from''; check_endpoint L f })"

definition check_from_to :: "('j, 'z) lib_scheme \<Rightarrow> 'j \<Rightarrow> bool option" where
  "check_from_to L d = do {
     bad \<leftarrow> opt_and (map_option Not (check_from L d)) (has_with L d ''to'' (jd_is_array L));
     if bad then Some False else do {
     clients \<leftarrow> member_of L d ''to'';
     items \<leftarrow> array_items L clients;
     ok \<leftarrow> check_clients L items;
     if \<not> ok then Some False else
     has_with L d ''data'' (\<lambda>v. jd_is_object L v \<or> jd_is_string L v) } }"

fun read_clients ::
  "('j, 'a, 'z) net_lib_scheme \<Rightarrow> 'j list \<Rightarrow> 'a endpoint list \<Rightarrow> 'a endpoint list option option"
where
  "read_clients L [] acc = Some (Some acc)"
| "read_clients L (client # rest) acc = do {
     ep \<leftarrow> read_endpoint L client;
     case ep of None \<Rightarrow> Some None
     | Some e \<Rightarrow> read_clients L rest (acc @ [e]) }"

definition read_from_to ::
  "('j, 'a, 'z) net_lib_scheme \<Rightarrow> 'j \<Rightarrow> ('a endpoint \<times> 'a endpoint list) option option" where
  "read_from_to L doc = do {
     f \<leftarrow> member_of L doc ''from'';
     ep \<leftarrow> read_endpoint L f;
     case ep of None \<Rightarrow> Some None | Some from \<Rightarrow> do {
     clients \<leftarrow> member_of L doc ''to'';
     items \<leftarrow> array_items L clients;
     to \<leftarrow> read_clients L items [];
     Some (map_option (Pair from) to) } }"

lemma check_clients_total:
  "\<exists>b. check_clients L items = Some b"
proof (induction items)
  case (Cons x items)
  then show ?case
    using check_endpoint_total(1) [of L x] by fastforce
qed auto

lemma check_clients_True:
  "check_clients L items = Some True \<longleftrightarrow>
     (\<forall>c\<in>set items. check_endpoint L c = Some True)"
  by (induction items) (auto simp: check_endpoint_True bind_Some_iff)

lemma read_clients_total:
  assumes "\<forall>c\<in>set items. check_endpoint L c = Some True"
  shows "\<exists>r. read_clients L items acc = Some r"
  using assms
proof (induction items arbitrary: acc)
  case (Cons x items)
  then obtain r where "read_endpoint L x = Some r" using read_endpoint_total(1) [of L x] by auto
  with Cons show ?case by (cases r) auto
qed simp

lemma read_clients_ports:
  "\<lbrakk>read_clients L items acc = Some (Some eps);
    \<forall>e\<in>set acc. 1024 < uint (ep_port e)\<rbrakk> \<Longrightarrow> \<forall>e\<in>set eps. 1024 < uint (ep_port e)"
proof (induction items arbitrary: acc)
  case (Cons x items)
  obtain e where e: "read_endpoint L x = Some (Some e)"
    "read_clients L items (acc @ [e]) = Some (Some eps)"
    using Cons.prems(1) by (auto simp: bind_Some_iff split: option.splits)
  have "1024 < uint (ep_port e)" by (rule read_endpoint_port [OF e(1)])
  then show ?case by (intro Cons.IH [OF e(2)]) (use Cons.prems(2) in auto)
qed simp

lemma member_then_total:
  assumes "jd_is_object L d" "\<And>v. jd_find L d k = Some v \<Longrightarrow> jd_is_object L v \<Longrightarrow> \<exists>b. f v = Some b"
  shows "\<exists>b. opt_and (has_with L d k (jd_is_object L)) (do { v \<leftarrow> member_of L d k; f v }) = Some b"
  using assms by (auto simp: has_with_object opt_and_Some member_of_def split: option.splits)

lemma check_from_total:
  assumes "jd_is_object L d"
  shows "\<exists>b. check_from L d = Some b"
  unfolding check_from_def by (intro member_then_total assms check_endpoint_total)

lemma check_from_True:
  "check_from L d = Some True \<longleftrightarrow> jd_is_object L d \<and>
     (\<exists>f. jd_find L d ''from'' = Some f \<and> check_endpoint L f = Some True)"
  unfolding check_from_def opt_and_True member_bind_Some by (auto simp: check_endpoint_True)

text \<open>
  The guard leaves the contract inside \<open>operator[]\<close> or \<open>Begin\<close> exactly when \<open>to\<close> is
  not an array, whatever \<open>from\<close> is.
\<close>

lemma check_from_to_no_array:
  assumes "jd_is_object L d" "\<not> (\<exists>t. jd_find L d ''to'' = Some t \<and> jd_is_array L t)"
  shows "check_from_to L d = None"
proof -
  obtain f where "check_from L d = Some f" using check_from_total [OF assms(1)] by auto
  then show ?thesis
    using assms by (cases f; cases "jd_find L d ''to''")
      (simp_all add: check_from_to_def has_with_object member_of_def array_items_def opt_and_Some)
qed

lemma check_from_to_array:
  assumes "jd_is_object L d" "jd_find L d ''to'' = Some t" "jd_is_array L t"
  shows "check_from_to L d = Some (check_from L d = Some True \<and>
    check_clients L (jd_elements L t) = Some True \<and>
    has_with L d ''data'' (\<lambda>v. jd_is_object L v \<or> jd_is_string L v) = Some True)"
proof -
  obtain f where f: "check_from L d = Some f" using check_from_total [OF assms(1)] by auto
  obtain b where b: "check_clients L (jd_elements L t) = Some b"
    using check_clients_total [of L "jd_elements L t"] by auto
  show ?thesis
    using assms f b
    by (cases f; cases b) (auto simp: check_from_to_def has_with_object member_of_def
        array_items_def opt_and_Some split: option.splits)
qed

lemma check_from_to_fault:
  assumes "jd_is_object L d"
  shows "check_from_to L d = None \<longleftrightarrow> \<not> (\<exists>t. jd_find L d ''to'' = Some t \<and> jd_is_array L t)"
proof (cases "\<exists>t. jd_find L d ''to'' = Some t \<and> jd_is_array L t")
  case True
  then obtain t where "jd_find L d ''to'' = Some t" "jd_is_array L t" by auto
  then show ?thesis by (simp add: check_from_to_array [OF assms])
next
  case False
  then show ?thesis using check_from_to_no_array [OF assms False] by simp
qed

lemma check_from_to_True:
  assumes "check_from_to L d = Some True"
  shows "jd_is_object L d \<and> check_from L d = Some True \<and>
    (\<exists>t. jd_find L d ''to'' = Some t \<and> jd_is_array L t \<and>
      check_clients L (jd_elements L t) = Some True) \<and>
    has_with L d ''data'' (\<lambda>v. jd_is_object L v \<or> jd_is_string L v) = Some True"
proof (cases "jd_is_object L d")
  case True
  then obtain t where t: "jd_find L d ''to'' = Some t" "jd_is_array L t"
    using assms check_from_to_fault [OF True] by auto
  have "check_from L d = Some True \<and> check_clients L (jd_elements L t) = Some True \<and>
      has_with L d ''data'' (\<lambda>v. jd_is_object L v \<or> jd_is_string L v) = Some True"
    using assms unfolding check_from_to_array [OF True t] by simp
  then show ?thesis using True t by (intro conjI exI [of _ t]) (elim conjE; assumption)+
next
  case False
  then have "check_from_to L d = None"
    by (simp add: check_from_to_def check_from_def has_with_def has_member_def opt_and_def)
  with assms show ?thesis by simp
qed

lemma check_from_to_payload:
  "check_from_to L d = Some True \<Longrightarrow>
     has_with L d ''data'' (\<lambda>v. jd_is_object L v \<or> jd_is_string L v) = Some True"
  by (drule check_from_to_True) (elim conjE)

lemma read_from_to_total:
  assumes "check_from_to L d = Some True"
  shows "\<exists>r. read_from_to L d = Some r"
proof -
  obtain f t where d: "jd_is_object L d" "jd_find L d ''from'' = Some f"
    "jd_find L d ''to'' = Some t" "jd_is_array L t"
    and f: "check_endpoint L f = Some True"
    and c: "check_clients L (jd_elements L t) = Some True"
    using check_from_to_True [OF assms] by (auto simp: check_from_True)
  obtain ep where "read_endpoint L f = Some ep" using read_endpoint_total(1) [OF f] by auto
  moreover obtain to where "read_clients L (jd_elements L t) [] = Some to"
    using read_clients_total c unfolding check_clients_True by blast
  ultimately show ?thesis
    using d by (cases ep) (simp_all add: read_from_to_def member_of_def array_items_def)
qed

lemma read_from_to_ports:
  assumes "read_from_to L d = Some (Some (from, to))"
  shows "1024 < uint (ep_port from) \<and> (\<forall>e\<in>set to. 1024 < uint (ep_port e))"
proof -
  obtain f items where "read_endpoint L f = Some (Some from)"
    "read_clients L items [] = Some (Some to)"
    using assms by (auto simp: read_from_to_def bind_Some_iff split: option.splits)
  then show ?thesis using read_endpoint_port read_clients_ports by fastforce
qed

section \<open>A concrete network library\<close>

text \<open>One address with a text; every other text is not an address.\<close>

definition jv_net :: "(jval, nat) net_lib" where
  "jv_net = lib.extend (jv_lib (\<lambda>_. None) (\<lambda>_. ''''))
     \<lparr>net_address = (\<lambda>s. if s = ''10.0.0.7'' then Some 7 else None),
      net_text = (\<lambda>_. ''10.0.0.7'')\<rparr>"

lemma jv_net_sel [simp]:
  "jd_is_object jv_net = jd_is_object (jv_lib (\<lambda>_. None) (\<lambda>_. ''''))"
  "jd_is_array jv_net = jd_is_array (jv_lib (\<lambda>_. None) (\<lambda>_. ''''))"
  "jd_is_string jv_net = jd_is_string (jv_lib (\<lambda>_. None) (\<lambda>_. ''''))"
  "jd_is_bool jv_net = jd_is_bool (jv_lib (\<lambda>_. None) (\<lambda>_. ''''))"
  "jd_is_uint jv_net = jd_is_uint (jv_lib (\<lambda>_. None) (\<lambda>_. ''''))"
  "jd_is_int jv_net = jd_is_int (jv_lib (\<lambda>_. None) (\<lambda>_. ''''))"
  "jd_is_uint64 jv_net = jd_is_uint64 (jv_lib (\<lambda>_. None) (\<lambda>_. ''''))"
  "jd_get_string jv_net = jv_text" "jd_get_bool jv_net = jv_truth"
  "jd_get_uint jv_net j = word_of_int (jv_num j)"
  "jd_get_int jv_net j = word_of_int (jv_num j)"
  "jd_get_uint64 jv_net j = word_of_int (jv_num j)"
  "jd_find jv_net j = map_of (jv_members j)"
  "jd_elements jv_net = jv_items"
  "net_address jv_net s = (if s = ''10.0.0.7'' then Some 7 else None)"
  "net_text jv_net a = ''10.0.0.7''"
  by (simp_all add: jv_net_def lib.extend_def jv_lib_def)

lemma jv_net_laws: "dom_laws jv_net"
  using jv_lib_laws [of "\<lambda>_. None" "\<lambda>_. ''''"]
  by (simp add: dom_laws_def jv_net_def lib.extend_def)


section \<open>Properties\<close>

text \<open>
  C24: Bytes in JSON.  The array of numbers the message factory writes for a byte vector
  is read back as that vector, after what the buffer held before; a number above 255 is
  reduced modulo 256 without an error; and reading leaves the contract of the JSON
  library exactly when some element of the array, or some member of the object, is not an
  unsigned number, which the guards of the parsers do not look at.
\<close>

theorem byte_payload_roundtrip:
  assumes L: "dom_laws L"
  shows "json_2_byte_array L (make_data_array L data) buf = Some (True, buf @ data) \<and>
    json_2_byte_array L (jd_array L (map (jd_uint L) ws)) buf =
      Some (True, buf @ map (\<lambda>w. word_of_int (uint w mod 256)) ws) \<and>
    (json_2_byte_array L v buf = None \<longleftrightarrow> \<not> payload_uints L v)"
proof -
  have m: "map_opt (get_uint L) (map (jd_uint L) ws) = Some ws" for ws
    by (induction ws) (simp_all add: get_uint_def dom_simps [OF L])
  have r: "json_2_byte_array L (jd_array L (map (jd_uint L) ws)) buf = Some (True, buf @ map ucast ws)"
    for ws
    by (simp add: json_2_byte_array_def array_items_def dom_simps [OF L] m)
  have d: "make_data_array L data = jd_array L (map (jd_uint L) (map ucast data))"
    by (simp add: make_data_array_def comp_def)
  have b: "map ucast (map ucast data :: u32 list) = data"
    by (simp add: comp_def)
  have "json_2_byte_array L (make_data_array L data) buf = Some (True, buf @ data)"
    unfolding d r b by (rule refl)
  moreover have "json_2_byte_array L v buf = None \<longleftrightarrow> \<not> payload_uints L v"
    using json_2_byte_array_total [of L v buf] by (cases "json_2_byte_array L v buf") auto
  ultimately show ?thesis using r [of ws] by (simp add: narrow_eq(2))
qed

theorem byte_payload_roundtrip_witness:
  "json_2_byte_array jv_net (jd_array jv_net (map (jd_uint jv_net) [255, 256, 513])) [9] =
     Some (True, [9, 255, 0, 1]) \<and>
   json_2_byte_array jv_net (JArr [JStr ''a'']) [] = None"
  using byte_payload_roundtrip [OF jv_net_laws, of "[]" "[9]" "[255, 256, 513]" "JArr [JStr ''a'']"]
    byte_payload_roundtrip [OF jv_net_laws, of "[]" "[]" "[]" "JArr [JStr ''a'']"]
  by (simp add: payload_uints_def)

end
