(* ===== verification/Echo_App.thy ===== *)
theory Echo_App
  imports Endpoint
begin

text \<open>
  The echo application, \<open>src/src/apps/echo/json\<close>: the parser of its messages
  (\<open>parser.cpp\<close>) and the handler (\<open>echo.cpp\<close>), which sends the member \<open>data\<close> of the
  request back to every session.  The parsed data is not used by the handler.
\<close>

datatype Echo_Type = echo_string | echo_binary | echo_hex | echo_octo

record Echo_Data =
  ed_type :: Echo_Type
  ed_data :: byte_array

definition check_echo_message :: "('j, 'z) lib_scheme \<Rightarrow> 'j \<Rightarrow> bool option" where
  "check_echo_message L doc = do {
     ok \<leftarrow> has_with L doc DATA_KEY (jd_is_object L);
     if \<not> ok then Some False else do {
     d \<leftarrow> member_of L doc DATA_KEY;
     opt_and (Some (jd_is_object L d))
     (opt_and (has_with L d ''type'' (jd_is_string L)) (has_member L d ''data'')) } }"

text \<open>A type name that is not one of the four is a malformed message.\<close>

definition echo_type_of :: "string \<Rightarrow> Echo_Type option" where
  "echo_type_of t =
     (if t = ''text'' then Some echo_string
      else if t = ''hex'' then Some echo_hex
      else if t = ''binary'' then Some echo_binary
      else if t = ''octo'' then Some echo_octo
      else None)"

definition get_echo_message :: "('j, 'z) lib_scheme \<Rightarrow> 'j \<Rightarrow> Echo_Data option option" where
  "get_echo_message L doc = do {
     t \<leftarrow> member_c_str L doc ''type'';
     case echo_type_of t of
       None \<Rightarrow> Some None
     | Some ty \<Rightarrow> do {
         v \<leftarrow> member_of L doc DATA_KEY;
         (ok, data) \<leftarrow> json_2_byte_array L v [];
         Some (Some \<lparr>ed_type = ty, ed_data = data\<rparr>) } }"

definition parser_echo :: "('j, 'z) lib_scheme \<Rightarrow> 'j \<Rightarrow> Echo_Data option option" where
  "parser_echo L doc = do {
     ok \<leftarrow> check_echo_message L doc;
     if \<not> ok then Some None else do {
     d \<leftarrow> member_of L doc DATA_KEY;
     get_echo_message L d } }"

definition send_echo :: "('j, 'z) lib_scheme \<Rightarrow> 'j \<Rightarrow> 'f core \<Rightarrow> 'f core option" where
  "send_echo L doc c = do {
     d \<leftarrow> member_of L doc DATA_KEY;
     (msg, c) \<leftarrow> create_data_value L echo d c;
     Some (emit (Write_All (Byte_Array_of msg) True) c) }"

definition echo_app ::
  "('j, 'z) lib_scheme \<Rightarrow> nat \<Rightarrow> Main_Data \<Rightarrow> 'j \<Rightarrow> 'f core \<Rightarrow> 'f core option" where
  "echo_app L ws md doc c = do {
     r \<leftarrow> parser_echo L doc;
     case r of
       None \<Rightarrow> fail_message L ws echo (make_error_code ILL_FORMED) '''' c
     | Some d \<Rightarrow> send_echo L doc c }"

section \<open>Lemmas\<close>

lemma check_echo_True:
  "check_echo_message L doc = Some True \<longleftrightarrow> jd_is_object L doc \<and>
     (\<exists>d t v. jd_find L doc DATA_KEY = Some d \<and> jd_is_object L d \<and>
       jd_find L d ''type'' = Some t \<and> jd_is_string L t \<and> jd_find L d ''data'' = Some v)"
  unfolding check_echo_message_def guard_simps by auto

lemma check_echo_total: "jd_is_object L doc \<Longrightarrow> \<exists>b. check_echo_message L doc = Some b"
  unfolding check_echo_message_def
  by (intro under_object_total opt_and_total has_with_total has_member_total exI [of _ "jd_is_object L _"])
    (assumption | rule refl)+

lemma parser_echo_eq:
  assumes "jd_is_object L doc" "jd_find L doc DATA_KEY = Some d" "jd_is_object L d"
    and "jd_find L d ''type'' = Some t" "jd_is_string L t" "jd_find L d ''data'' = Some v"
  shows "parser_echo L doc =
    (case echo_type_of (c_str (jd_get_string L t)) of None \<Rightarrow> Some None
     | Some ty \<Rightarrow> map_option (\<lambda>(ok, data). Some \<lparr>ed_type = ty, ed_data = data\<rparr>)
         (json_2_byte_array L v []))"
proof -
  have "check_echo_message L doc = Some True" using assms by (auto simp: check_echo_True)
  then show ?thesis
    using assms by (cases "json_2_byte_array L v []")
      (auto simp: parser_echo_def get_echo_message_def member_of_def member_c_str_eq DATA_KEY_def
        split: option.splits)
qed

text \<open>An echo request with byte values that are not unsigned ends the program.\<close>

lemma echo_app_fault:
  assumes "jd_is_object L doc" "jd_find L doc DATA_KEY = Some d" "jd_is_object L d"
    and "jd_find L d ''type'' = Some t" "jd_is_string L t" "jd_find L d ''data'' = Some v"
    and "echo_type_of (c_str (jd_get_string L t)) = Some ty" "\<not> payload_uints L v"
  shows "echo_app L ws md doc c = None"
proof -
  have "json_2_byte_array L v [] = None"
    using assms(8) json_2_byte_array_total [of L v "[]"] by (cases "json_2_byte_array L v []") auto
  then show ?thesis using assms by (simp add: echo_app_def parser_echo_eq)
qed

lemma echo_app_ok:
  assumes "jd_is_object L doc" "jd_find L doc DATA_KEY = Some d" "jd_is_object L d"
    and "jd_find L d ''type'' = Some t" "jd_is_string L t" "jd_find L d ''data'' = Some v"
    and "echo_type_of (c_str (jd_get_string L t)) = Some ty" "payload_uints L v"
    and "factory_app c echo = Some n"
  shows "echo_app L ws md doc c = Some (emit (Write_All (Byte_Array_of (jd_write L (jd_object L
    (head_members L n (jd_uint L server_user_id) data_type c @ [(DATA_KEY, d)])))) True) (after_msg c))"
proof -
  obtain r where "json_2_byte_array L v [] = Some r"
    using assms(8) json_2_byte_array_total [of L v "[]"] by auto
  then show ?thesis
    using assms by (cases r) (simp add: echo_app_def parser_echo_eq send_echo_def member_of_def
        create_data_value_eq)
qed


section \<open>Properties\<close>

text \<open>
  What the echo application does with a request.  One with a type it knows and
  unsigned values is sent back to every session as a data message with the member \<open>data\<close>
  of the request; an unknown type is reported to the sender as malformed, as is a request
  that has no member \<open>data\<close>; and values that are not unsigned end the program.
\<close>

theorem echo_reply:
  assumes "jd_is_object L doc" "jd_find L doc DATA_KEY = Some d" "jd_is_object L d"
    and "jd_find L d ''type'' = Some t" "jd_is_string L t" "jd_find L d ''data'' = Some v"
    and "factory_app c echo = Some n" "jd_is_object L other" "jd_find L other DATA_KEY = None"
  shows "echo_app L ws md doc c =
      (case echo_type_of (c_str (jd_get_string L t)) of
         None \<Rightarrow> fail_message L ws echo (make_error_code ILL_FORMED) '''' c
       | Some ty \<Rightarrow>
           if payload_uints L v
           then Some (emit (Write_All (Byte_Array_of (jd_write L (jd_object L
             (head_members L n (jd_uint L server_user_id) data_type c @ [(DATA_KEY, d)])))) True)
               (after_msg c))
           else None) \<and>
    echo_app L ws md other c = fail_message L ws echo (make_error_code ILL_FORMED) '''' c"
proof -
  have "check_echo_message L other = Some False"
    using assms(8,9) by (simp add: check_echo_message_def has_with_object)
  then have "echo_app L ws md other c = fail_message L ws echo (make_error_code ILL_FORMED) '''' c"
    by (simp add: echo_app_def parser_echo_def)
  moreover have "echo_app L ws md doc c = fail_message L ws echo (make_error_code ILL_FORMED) '''' c"
    if "echo_type_of (c_str (jd_get_string L t)) = None"
    using that parser_echo_eq [OF assms(1-6)] by (simp add: echo_app_def)
  ultimately show ?thesis
    using echo_app_ok [OF assms(1-6) _ _ assms(7), of _ ws md] echo_app_fault [OF assms(1-6), of _ ws md c]
    by (simp split: option.splits)
qed

definition echo_core :: "unit core" where
  "echo_core = (core_init (\<lambda>_. 0))\<lparr>c_apps :=
     [(echo, \<lparr>app_id = echo, app_name = Some ''echo'', app_func = None\<rparr>)]\<rparr>"

theorem echo_reply_witness:
  "\<exists>s. echo_app jv_net 3 \<lparr>md_app = echo, md_time = 0, md_type = data_type, md_control = None\<rparr>
      (JObj [(''data'', JObj [(''type'', JStr ''hex''), (''data'', JArr [JNum 65])])]) echo_core =
    Some (emit (Write_All (Byte_Array_of s) True) (after_msg echo_core))"
proof -
  let ?d = "JObj [(''type'', JStr ''hex''), (''data'', JArr [JNum 65])]"
  have "factory_app echo_core echo = Some ''echo''"
    by (simp add: echo_core_def factory_app_def Dispatcher_app_def)
  from echo_reply [of jv_net "JObj [(''data'', ?d)]" ?d "JStr ''hex''" "JArr [JNum 65]", OF _ _ _ _ _ _ this,
      of "JObj []" 3 "\<lparr>md_app = echo, md_time = 0, md_type = data_type, md_control = None\<rparr>"]
  show ?thesis by (auto simp: DATA_KEY_def c_str_def echo_type_of_def payload_uints_def)
qed

end
