(* ===== verification/Monitor_App.thy ===== *)
theory Monitor_App
  imports Endpoint
begin

text \<open>
  The monitor application, \<open>src/src/apps/monitor\<close>: the parser of its requests
  (\<open>json/parser.cpp\<close>), the \<open>Executor\<close> that samples the process on a timer
  (\<open>executor.cpp\<close>) and the handler (\<open>monitor.cpp\<close>).  The measurements are inputs:
  whether \<open>/proc\<close> could be read, and the document of the measured values.
\<close>

section \<open>Requests\<close>

datatype Monitor_Type = mon_set | mon_cancel

text \<open>\<open>sample_time\<close> stays unassigned for a cancel request.\<close>

record Message_Monitor_Data =
  mm_sample_time :: "u32 option"
  mm_type :: Monitor_Type
  mm_cont :: bool

definition check_status_message :: "('j, 'z) lib_scheme \<Rightarrow> 'j \<Rightarrow> bool option" where
  "check_status_message L doc = do {
     ok \<leftarrow> has_with L doc DATA_KEY (jd_is_object L);
     if \<not> ok then Some False else do {
     d \<leftarrow> member_of L doc DATA_KEY;
     ok \<leftarrow> has_with L d ''type'' (jd_is_string L);
     if \<not> ok then Some False else do {
     t \<leftarrow> member_c_str L d ''type'';
     if t = ''set'' then
       opt_and (has_with L d ''sample_time'' (jd_is_int L)) (has_with L d ''cont'' (jd_is_bool L))
     else Some True } } }"

definition parse_app ::
  "('j, 'z) lib_scheme \<Rightarrow> 'j \<Rightarrow> Message_Monitor_Data option option" where
  "parse_app L doc = do {
     ok \<leftarrow> check_status_message L doc;
     if \<not> ok then Some None else do {
     d \<leftarrow> member_of L doc DATA_KEY;
     t \<leftarrow> member_c_str L d ''type'';
     if t = ''cancel''
     then Some (Some \<lparr>mm_sample_time = None, mm_type = mon_cancel, mm_cont = False\<rparr>)
     else do {
       s \<leftarrow> member_int L d ''sample_time'';
       k \<leftarrow> member_bool L d ''cont'';
       Some (Some \<lparr>mm_sample_time = Some s, mm_type = mon_set, mm_cont = k\<rparr>) } } }"

section \<open>The executor\<close>

text \<open>
  A handler given to \<open>timer_.async_wait\<close> is armed until the timer expires or is
  cancelled; then it is queued with its error code (\<open>True\<close> for aborted).
  \<open>expires_after\<close> cancels the waits that are still armed.
\<close>

datatype wait = Armed | Queued bool

fun abort_wait :: "wait \<Rightarrow> wait" where
  "abort_wait Armed = Queued True"
| "abort_wait (Queued a) = Queued a"

record Executor =
  ex_sample :: u32
  ex_keep_reading :: bool
  ex_is_running :: bool
  ex_waits :: "wait list"

definition Executor_new :: Executor where
  "Executor_new = \<lparr>ex_sample = 1, ex_keep_reading = False, ex_is_running = False, ex_waits = []\<rparr>"

definition exec_cancel :: "Executor \<Rightarrow> Executor" where
  "exec_cancel e = e\<lparr>ex_keep_reading := False, ex_waits := map abort_wait (ex_waits e)\<rparr>"

definition exec_continuos :: "bool \<Rightarrow> Executor \<Rightarrow> Executor" where
  "exec_continuos cont e = e\<lparr>ex_keep_reading := cont\<rparr>"

definition exec_sample :: "u32 \<Rightarrow> Executor \<Rightarrow> Executor" where
  "exec_sample samp e = e\<lparr>ex_sample := samp\<rparr>"

text \<open>
  \<open>calculate\<close>: \<open>info\<close> and \<open>uptime\<close> say whether \<open>process_info\<close> and
  \<open>process_uptime\<close> succeed.
\<close>

definition exec_calculate ::
  "('j, 'z) lib_scheme \<Rightarrow> bool \<Rightarrow> bool \<Rightarrow> Executor \<Rightarrow> 'f core \<Rightarrow> (Executor \<times> 'f core) option"
where
  "exec_calculate L info uptime e c =
     (if \<not> info then do {
        c \<leftarrow> fail_message_all L monitor (make_error_code SERVER_INTERNAL_ERROR) '''' c;
        Some (e\<lparr>ex_is_running := False\<rparr>, c) }
      else if \<not> uptime then do {
        c \<leftarrow> fail_message_all L monitor (make_error_code SERVER_INTERNAL_ERROR) '''' c;
        Some (e\<lparr>ex_is_running := False\<rparr>, c) }
      else Some (e\<lparr>ex_waits := map abort_wait (ex_waits e) @ [Armed]\<rparr>, c))"

definition exec_init ::
  "('j, 'z) lib_scheme \<Rightarrow> bool \<Rightarrow> bool \<Rightarrow> Executor \<Rightarrow> 'f core
     \<Rightarrow> (bool \<times> Executor \<times> 'f core) option" where
  "exec_init L info uptime e c = do {
     (e, c) \<leftarrow> (if ex_is_running e then Some (e, c)
       else exec_calculate L info uptime (e\<lparr>ex_is_running := True\<rparr>) c);
     Some (ex_is_running e, e, c) }"

text \<open>
  \<open>do_wait\<close>: \<open>end_info\<close> is the second \<open>process_info\<close>, \<open>doc\<close> the document of the
  measured values, \<open>shares\<close> the number of connected sessions.
\<close>

definition exec_do_wait ::
  "('j, 'z) lib_scheme \<Rightarrow> bool \<Rightarrow> bool \<Rightarrow> 'j \<Rightarrow> nat \<Rightarrow> bool \<Rightarrow> bool \<Rightarrow> Executor \<Rightarrow> 'f core
     \<Rightarrow> (Executor \<times> 'f core) option" where
  "exec_do_wait L aborted end_info doc shares info uptime e c =
     (if aborted then Some (e\<lparr>ex_is_running := False\<rparr>, c)
      else if \<not> end_info then do {
        c \<leftarrow> fail_message_all L monitor (make_error_code SERVER_INTERNAL_ERROR) '''' c;
        Some (e, c) }
      else do {
        (msg, c) \<leftarrow> create_data_value L monitor doc c;
        if shares = 0 then Some (e\<lparr>ex_is_running := False\<rparr>, c)
        else do {
          let c = emit (Write_All (Byte_Array_of msg) True) c;
          if ex_keep_reading e then exec_calculate L info uptime e c
          else Some (e\<lparr>ex_is_running := False\<rparr>, c) } })"

section \<open>The handler\<close>

definition send_monitor_data ::
  "('j, 'z) lib_scheme \<Rightarrow> bool \<Rightarrow> bool \<Rightarrow> nat \<Rightarrow> 'j \<Rightarrow> Executor \<times> 'f core
     \<Rightarrow> (Executor \<times> 'f core) option" where
  "send_monitor_data L info uptime ws doc = (\<lambda>(e, c). do {
     r \<leftarrow> parse_app L doc;
     case r of
       None \<Rightarrow> do {
         c \<leftarrow> fail_message L ws monitor (make_error_code ILL_FORMED) '''' c;
         Some (e, c) }
     | Some m \<Rightarrow> do {
         let e = exec_continuos (mm_cont m) e;
         if mm_type m = mon_set then do {
           s \<leftarrow> mm_sample_time m;
           (r, e, c) \<leftarrow> exec_init L info uptime (exec_sample s e) c;
           Some (e, c) }
         else Some (exec_cancel e, c) } })"

definition monitor_app ::
  "('j, 'z) lib_scheme \<Rightarrow> bool \<Rightarrow> bool \<Rightarrow> nat \<Rightarrow> Main_Data \<Rightarrow> 'j \<Rightarrow> Executor \<times> 'f core
     \<Rightarrow> (Executor \<times> 'f core) option" where
  "monitor_app L info uptime ws md doc s =
     (if md_type md = control_type then do {
        con \<leftarrow> md_control md;
        if con = status then send_monitor_data L info uptime ws doc s else Some s }
      else Some s)"

section \<open>The executor as a state machine\<close>

text \<open>
  A client request, the expiry of the timer, and the run of a queued handler, which
  leaves the list of waits before it runs.
\<close>

inductive mon_step ::
  "('j, 'z) lib_scheme \<Rightarrow> Executor \<times> 'f core \<Rightarrow> Executor \<times> 'f core \<Rightarrow> bool"
  for L :: "('j, 'z) lib_scheme" where
  request: "monitor_app L info uptime ws md doc s = Some s' \<Longrightarrow> mon_step L s s'"
| expire: "\<lbrakk>i < length (ex_waits e); ex_waits e ! i = Armed\<rbrakk> \<Longrightarrow>
     mon_step L (e, c) (e\<lparr>ex_waits := (ex_waits e)[i := Queued False]\<rparr>, c)"
| handler: "\<lbrakk>ex_waits e = ws @ Queued ab # ws';
     exec_do_wait L ab end_info doc shares info uptime (e\<lparr>ex_waits := ws @ ws'\<rparr>) c = Some s'\<rbrakk>
     \<Longrightarrow> mon_step L (e, c) s'"

inductive_cases mon_stepE: "mon_step L (e, c) s'"

section \<open>Lemmas\<close>

lemma parse_app_fault:
  assumes "jd_is_object L doc" "jd_find L doc DATA_KEY = Some d" "jd_is_object L d"
    and "jd_find L d ''type'' = Some t" "jd_is_string L t"
    and "c_str (jd_get_string L t) \<notin> {''set'', ''cancel''}" "jd_find L d ''sample_time'' = None"
  shows "parse_app L doc = None"
proof -
  have "check_status_message L doc = Some True"
    using assms by (simp add: check_status_message_def has_with_object member_of_def member_c_str_eq)
  then show ?thesis
    using assms by (simp add: parse_app_def member_of_def member_c_str_eq member_int_def)
qed

lemma parse_app_set:
  assumes "jd_is_object L doc" "jd_find L doc DATA_KEY = Some d" "jd_is_object L d"
    and "jd_find L d ''type'' = Some t" "jd_is_string L t" "c_str (jd_get_string L t) = ''set''"
    and "jd_find L d ''sample_time'' = Some s" "jd_is_int L s"
    and "jd_find L d ''cont'' = Some k" "jd_is_bool L k"
  shows "parse_app L doc = Some (Some \<lparr>mm_sample_time = Some (jd_get_int L s), mm_type = mon_set,
    mm_cont = jd_get_bool L k\<rparr>)"
proof -
  have "check_status_message L doc = Some True"
    using assms by (simp add: check_status_message_def has_with_object member_of_def member_c_str_eq)
  then show ?thesis
    using assms by (simp add: parse_app_def accessor_defs member_int_def member_bool_def)
qed

text \<open>The invariant: at most one handler is pending, and only while running.\<close>

definition mon_inv :: "Executor \<Rightarrow> bool" where
  "mon_inv e \<longleftrightarrow> length (ex_waits e) \<le> 1 \<and> (ex_waits e \<noteq> [] \<longrightarrow> ex_is_running e)"

lemma mon_inv_new [simp]: "mon_inv Executor_new"
  by (simp add: mon_inv_def Executor_new_def)

lemma mon_inv_updates:
  "mon_inv e \<Longrightarrow> mon_inv (exec_cancel e)"
  "mon_inv e \<Longrightarrow> mon_inv (exec_continuos b e)"
  "mon_inv e \<Longrightarrow> mon_inv (exec_sample n e)"
  by (auto simp: mon_inv_def exec_cancel_def exec_continuos_def exec_sample_def)

lemma exec_calculate_inv:
  assumes "exec_calculate L info uptime e c = Some (e', c')" "ex_waits e = []" "ex_is_running e"
  shows "mon_inv e'"
  using assms by (auto simp: exec_calculate_def mon_inv_def bind_Some_iff split: if_splits)

lemma exec_init_inv:
  assumes "exec_init L info uptime e c = Some (r, e', c')" "mon_inv e"
  shows "mon_inv e'"
proof (cases "ex_is_running e")
  case True
  with assms show ?thesis by (simp add: exec_init_def)
next
  case False
  then have "ex_waits e = []" using assms(2) by (auto simp: mon_inv_def)
  then show ?thesis
    using assms(1) False exec_calculate_inv [of L info uptime "e\<lparr>ex_is_running := True\<rparr>" c e' c']
    by (auto simp: exec_init_def bind_Some_iff)
qed

lemma monitor_app_cases:
  assumes "monitor_app L info uptime ws md doc (e, c) = Some (e', c')"
  shows "e' = e \<or> (\<exists>m. e' = exec_cancel (exec_continuos m e)) \<or>
      (\<exists>m s r c1. exec_init L info uptime (exec_sample s (exec_continuos m e)) c1 = Some (r, e', c'))"
  using assms
  by (auto simp: monitor_app_def send_monitor_data_def Let_def bind_Some_iff
      split: if_splits option.splits)

lemma monitor_app_inv:
  assumes "monitor_app L info uptime ws md doc (e, c) = Some (e', c')" "mon_inv e"
  shows "mon_inv e'"
  using monitor_app_cases [OF assms(1)] assms(2)
  by (auto intro: mon_inv_updates dest!: exec_init_inv)

lemma exec_init_running:
  "\<lbrakk>exec_init L info uptime e c = Some (r, e', c'); ex_is_running e\<rbrakk> \<Longrightarrow> e' = e"
  by (simp add: exec_init_def)

lemma exec_do_wait_inv:
  assumes "exec_do_wait L ab ei doc shares info uptime e c = Some (e', c')"
    and "ex_waits e = []" "ex_is_running e"
  shows "mon_inv e'"
proof -
  have "e' = e \<or> e' = e\<lparr>ex_is_running := False\<rparr> \<or>
      (\<exists>c1. exec_calculate L info uptime e c1 = Some (e', c'))"
    using assms(1) by (auto simp: exec_do_wait_def bind_Some_iff Let_def split: if_splits)
  then show ?thesis
    using assms(2,3) by (auto simp: mon_inv_def dest!: exec_calculate_inv)
qed

lemma mon_step_inv:
  assumes "mon_step L (e, c) (e', c')" "mon_inv e"
  shows "mon_inv e'"
  using assms(1)
proof (cases rule: mon_step.cases)
  case (request info uptime ws md doc)
  then show ?thesis by (intro monitor_app_inv [OF _ assms(2)])
next
  case (expire i)
  then show ?thesis using assms(2) by (auto simp: mon_inv_def)
next
  case (handler ws ab ws' end_info doc shares info uptime)
  then have "ws = []" "ws' = []" "ex_is_running e" using assms(2) by (auto simp: mon_inv_def)
  then show ?thesis
    using handler exec_do_wait_inv [of L ab end_info doc shares info uptime _ c e' c']
    by simp
qed

text \<open>
  The state the executor is left in when the second measurement fails: running,
  with no handler pending.  No request and no handler leaves it.
\<close>

definition mon_stuck :: "Executor \<Rightarrow> bool" where
  "mon_stuck e \<longleftrightarrow> ex_is_running e \<and> ex_waits e = []"

lemma mon_stuck_step:
  assumes "mon_step L (e, c) (e', c')" "mon_stuck e"
  shows "mon_stuck e'"
  using assms(1)
proof (cases rule: mon_step.cases)
  case (request info uptime ws md doc)
  have "monitor_app L info uptime ws md doc (e, c) = Some (e', c')"
    using request by simp
  from monitor_app_cases [OF this] show ?thesis
    using assms(2)
    by (auto simp: mon_stuck_def exec_cancel_def exec_continuos_def exec_sample_def
        dest!: exec_init_running)
next
  case (expire i)
  then show ?thesis using assms(2) by (simp add: mon_stuck_def)
next
  case (handler ws ab ws' end_info doc shares info uptime)
  then show ?thesis using assms(2) by (simp add: mon_stuck_def)
qed

lemma exec_do_wait_stuck:
  assumes "exec_do_wait L False False doc shares info uptime e c = Some (e', c')" "ex_is_running e"
    "ex_waits e = []"
  shows "mon_stuck e'"
  using assms by (auto simp: exec_do_wait_def mon_stuck_def bind_Some_iff)


section \<open>Properties\<close>

text \<open>
  From its construction on, and whatever the order of requests, expiries of the
  timer and runs of queued handlers, the executor has at most one handler pending, and
  only while it says it is running.
\<close>

theorem monitor_invariant:
  assumes "(mon_step L)\<^sup>*\<^sup>* (Executor_new, c) (e, c')"
  shows "length (ex_waits e) \<le> 1 \<and> (ex_waits e = [] \<or> ex_is_running e)"
proof -
  have "mon_inv (fst s)" if "(mon_step L)\<^sup>*\<^sup>* (Executor_new, c) s" for s
    using that
  proof (induction rule: rtranclp_induct)
    case (step s t)
    then show ?case using mon_step_inv [of L "fst s" "snd s" "fst t" "snd t"] by simp
  qed simp
  from this [OF assms] show ?thesis by (auto simp: mon_inv_def)
qed

definition mon_core :: "unit core" where
  "mon_core = (core_init (\<lambda>_. 0))\<lparr>c_apps :=
     [(monitor, \<lparr>app_id = monitor, app_name = Some ''monitor'', app_func = None\<rparr>)]\<rparr>"

definition mon_request :: jval where
  "mon_request = JObj [(''data'', JObj [(''type'', JStr ''set''), (''sample_time'', JNum 5),
     (''cont'', JBool True)])]"

definition mon_header :: Main_Data where
  "mon_header = \<lparr>md_app = monitor, md_time = 0, md_type = control_type, md_control = Some status\<rparr>"

lemma mon_request_set: "monitor_app jv_net True True 0 mon_header mon_request (Executor_new, mon_core) =
  Some (\<lparr>ex_sample = 5, ex_keep_reading = True, ex_is_running = True, ex_waits = [Armed]\<rparr>, mon_core)"
proof -
  have "parse_app jv_net mon_request = Some (Some \<lparr>mm_sample_time = Some 5, mm_type = mon_set,
      mm_cont = True\<rparr>)"
    by (subst parse_app_set [where d = "JObj [(''type'', JStr ''set''), (''sample_time'', JNum 5),
          (''cont'', JBool True)]" and t = "JStr ''set''" and s = "JNum 5" and k = "JBool True"])
      (simp_all add: mon_request_def DATA_KEY_def c_str_def)
  then show ?thesis
    by (simp add: monitor_app_def mon_header_def send_monitor_data_def exec_continuos_def
        exec_sample_def exec_init_def exec_calculate_def Executor_new_def Let_def)
qed

theorem monitor_invariant_witness:
  "\<exists>e. (mon_step jv_net)\<^sup>*\<^sup>* (Executor_new, mon_core) (e, mon_core) \<and> ex_waits e = [Armed] \<and>
     ex_is_running e"
proof -
  let ?e = "\<lparr>ex_sample = 5, ex_keep_reading = True, ex_is_running = True, ex_waits = [Armed]\<rparr>"
  have r: "(mon_step jv_net)\<^sup>*\<^sup>* (Executor_new, mon_core) (?e, mon_core)"
    by (rule r_into_rtranclp, rule mon_step.request [OF mon_request_set])
  from monitor_invariant [OF r] have "ex_is_running ?e" by simp
  with r show ?thesis by (intro exI [of _ ?e]) simp
qed

text \<open>
  C34: A second measurement that fails stops the monitor for good: the handler reports the
  error to every session but leaves the executor marked as running with nothing pending,
  and no sequence of requests and handlers changes that, so that no measurement is made
  again.
\<close>

theorem monitor_stuck:
  assumes "ex_waits e = [Queued False]" "ex_is_running e" "factory_app c monitor = Some nm"
  shows "\<exists>e1 c1 s. exec_do_wait L False False doc shares info uptime (e\<lparr>ex_waits := []\<rparr>) c =
      Some (e1, c1) \<and> mon_step L (e, c) (e1, c1) \<and>
    c1 = emit (Write_All (Byte_Array_of s) True) (after_msg c) \<and>
    (\<forall>e2 c2. (mon_step L)\<^sup>*\<^sup>* (e1, c1) (e2, c2) \<longrightarrow> ex_is_running e2 \<and> ex_waits e2 = [])"
proof -
  let ?e = "e\<lparr>ex_waits := []\<rparr>"
  obtain s where f: "fail_message_all L monitor (make_error_code SERVER_INTERNAL_ERROR) '''' c =
      Some (emit (Write_All (Byte_Array_of s) True) (after_msg c))"
    using assms(3) by (auto simp: fail_message_all_def make_error_message_eq)
  define c1 where "c1 = emit (Write_All (Byte_Array_of s) True) (after_msg c)"
  have run: "exec_do_wait L False False doc shares info uptime ?e c = Some (?e, c1)"
    using f by (simp add: exec_do_wait_def c1_def)
  have step: "mon_step L (e, c) (?e, c1)"
    by (rule mon_step.handler [where ws = "[]" and ws' = "[]" and ab = False])
      (use assms(1) run in auto)
  have "mon_stuck (fst t)" if "(mon_step L)\<^sup>*\<^sup>* (?e, c1) t" for t
    using that
  proof (induction rule: rtranclp_induct)
    case base
    then show ?case using assms(2) by (simp add: mon_stuck_def)
  next
    case (step s t)
    then show ?case using mon_stuck_step [of L "fst s" "snd s" "fst t" "snd t"] by simp
  qed
  then have "\<forall>e2 c2. (mon_step L)\<^sup>*\<^sup>* (?e, c1) (e2, c2) \<longrightarrow> ex_is_running e2 \<and> ex_waits e2 = []"
    by (auto simp: mon_stuck_def)
  with run step show ?thesis unfolding c1_def by blast
qed

theorem monitor_stuck_witness:
  "\<exists>e1 c1. mon_step jv_net (\<lparr>ex_sample = 5, ex_keep_reading = True, ex_is_running = True,
       ex_waits = [Queued False]\<rparr>, mon_core) (e1, c1) \<and>
     (\<forall>e2 c2. (mon_step jv_net)\<^sup>*\<^sup>* (e1, c1) (e2, c2) \<longrightarrow> ex_is_running e2 \<and> ex_waits e2 = [])"
proof -
  let ?e = "\<lparr>ex_sample = 5, ex_keep_reading = True, ex_is_running = True, ex_waits = [Queued False]\<rparr>"
  have "ex_waits ?e = [Queued False]" "ex_is_running ?e" by simp_all
  moreover have "factory_app mon_core monitor = Some ''monitor''"
    by (simp add: mon_core_def factory_app_def Dispatcher_app_def)
  ultimately show ?thesis using monitor_stuck [of ?e mon_core "''monitor''" jv_net] by blast
qed

text \<open>
  A monitor request whose type is neither \<open>set\<close> nor \<open>cancel\<close> passes the guard of the
  parser, which then reads a sample time that need not be there: without one the request
  ends the program.
\<close>

theorem monitor_parse_fault:
  assumes "jd_is_object L doc" "jd_find L doc DATA_KEY = Some d" "jd_is_object L d"
    and "jd_find L d ''type'' = Some t" "jd_is_string L t"
    and "c_str (jd_get_string L t) \<notin> {''set'', ''cancel''}" "jd_find L d ''sample_time'' = None"
    and "md_type md = control_type" "md_control md = Some status"
  shows "monitor_app L info uptime ws md doc (e, c) = None"
  using assms(8,9) parse_app_fault [OF assms(1-7)]
  by (simp add: monitor_app_def send_monitor_data_def)

theorem monitor_parse_fault_witness:
  "monitor_app jv_net True True 0 mon_header (JObj [(''data'', JObj [(''type'', JStr ''get'')])])
     (Executor_new, mon_core) = None"
  by (rule monitor_parse_fault [where d = "JObj [(''type'', JStr ''get'')]" and t = "JStr ''get''"])
    (simp_all add: DATA_KEY_def mon_header_def c_str_def)

end
