(* ===== verification/Ordered_Map.thy ===== *)
theory Ordered_Map
  imports Prelude
begin

text \<open>
  \<open>std::map\<close>: the containers of the program keep their sockets in maps ordered by
  key.  A map is a list of pairs in ascending order of keys; \<open>find\<close>, \<open>operator[]\<close>
  with an assignment and \<open>erase\<close> are the three operations the containers use, and
  iteration is the list itself.  The locale \<open>keyed_store\<close> states what a container
  may rely on, and what follows from it; it is interpreted on this representation.
\<close>

section \<open>The contract of a keyed store\<close>

locale keyed_store =
  fixes lookup :: "'s \<Rightarrow> 'k \<Rightarrow> 'v option"
    and store :: "'k \<Rightarrow> 'v \<Rightarrow> 's \<Rightarrow> 's"
    and remove :: "'k \<Rightarrow> 's \<Rightarrow> 's"
    and wf :: "'s \<Rightarrow> bool"
  assumes lookup_store: "wf s \<Longrightarrow> lookup (store k v s) = (lookup s)(k \<mapsto> v)"
    and lookup_remove: "wf s \<Longrightarrow> lookup (remove k s) = (lookup s)(k := None)"
    and wf_store: "wf s \<Longrightarrow> wf (store k v s)"
    and wf_remove: "wf s \<Longrightarrow> wf (remove k s)"
begin

text \<open>The open of a container: refuse a key that is present, add it otherwise.\<close>

definition open_new :: "'k \<Rightarrow> 'v \<Rightarrow> 's \<Rightarrow> bool \<times> 's" where
  "open_new k v s = (case lookup s k of Some _ \<Rightarrow> (False, s) | None \<Rightarrow> (True, store k v s))"

definition close_key :: "'k \<Rightarrow> 's \<Rightarrow> bool \<times> 's" where
  "close_key k s = (case lookup s k of None \<Rightarrow> (False, s) | Some _ \<Rightarrow> (True, remove k s))"

lemma open_new_keeps:
  "\<lbrakk>wf s; lookup s k' = Some v'\<rbrakk> \<Longrightarrow> lookup (snd (open_new k v s)) k' = Some v'"
  by (auto simp: open_new_def lookup_store split: option.splits)

lemma open_close:
  "\<lbrakk>wf s; lookup s k = None\<rbrakk> \<Longrightarrow>
     lookup (snd (close_key k (snd (open_new k v s)))) = lookup s"
  by (auto simp: open_new_def close_key_def lookup_store lookup_remove wf_store
      fun_upd_idem_iff split: option.splits)

lemma close_again: "wf s \<Longrightarrow> fst (close_key k (snd (close_key k s))) = False"
  by (auto simp: close_key_def lookup_remove split: option.splits)

lemma wf_open_close: "wf s \<Longrightarrow> wf (snd (open_new k v s))" "wf s \<Longrightarrow> wf (snd (close_key k s))"
  by (auto simp: open_new_def close_key_def wf_store wf_remove split: option.splits)

end

section \<open>The representation\<close>

type_synonym ('k, 'v) omap = "('k \<times> 'v) list"

definition om_ok :: "('k :: linorder, 'v) omap \<Rightarrow> bool" where
  "om_ok m \<longleftrightarrow> sorted_wrt (<) (map fst m)"

fun om_find :: "('k :: linorder, 'v) omap \<Rightarrow> 'k \<Rightarrow> 'v option" where
  "om_find [] k = None"
| "om_find ((k', v) # m) k = (if k = k' then Some v else om_find m k)"

text \<open>\<open>m[k] = v\<close>: replace, or insert at the place of the key.\<close>

fun om_set :: "'k :: linorder \<Rightarrow> 'v \<Rightarrow> ('k, 'v) omap \<Rightarrow> ('k, 'v) omap" where
  "om_set k v [] = [(k, v)]"
| "om_set k v ((k', v') # m) =
     (if k < k' then (k, v) # (k', v') # m
      else if k = k' then (k, v) # m
      else (k', v') # om_set k v m)"

fun om_erase :: "'k :: linorder \<Rightarrow> ('k, 'v) omap \<Rightarrow> ('k, 'v) omap" where
  "om_erase k [] = []"
| "om_erase k ((k', v') # m) = (if k = k' then m else (k', v') # om_erase k m)"

section \<open>Lemmas\<close>

lemma om_ok_Nil [simp]: "om_ok []"
  by (simp add: om_ok_def)

lemma om_ok_Cons [simp]: "om_ok ((k, v) # m) \<longleftrightarrow> (\<forall>x\<in>fst ` set m. k < x) \<and> om_ok m"
  by (simp add: om_ok_def)

lemma om_find_eq: "om_find m k = map_of m k"
  by (induction m) auto

lemma om_find_None: "\<forall>x\<in>fst ` set m. k < x \<Longrightarrow> om_find m k = None"
  by (induction m) auto

lemma om_find_set: "om_ok m \<Longrightarrow> om_find (om_set k v m) = (om_find m)(k \<mapsto> v)"
proof (induction m)
  case (Cons p m)
  then show ?case by (cases p) (auto simp: fun_eq_iff)
qed (simp add: fun_eq_iff)

lemma om_find_erase: "om_ok m \<Longrightarrow> om_find (om_erase k m) = (om_find m)(k := None)"
proof (induction m)
  case (Cons p m)
  obtain k' v where p: "p = (k', v)" by force
  have "om_find m k' = None"
    by (rule om_find_None) (use Cons.prems p in simp)
  then show ?case
    using Cons p by (auto simp: fun_eq_iff)
qed (simp add: fun_eq_iff)

lemma fst_om_set: "fst ` set (om_set k v m) = insert k (fst ` set m)"
proof (induction m)
  case (Cons p m)
  then show ?case by (cases p) auto
qed simp

lemma set_om_set: "set (om_set k v m) \<subseteq> insert (k, v) (set m)"
  by (induction k v m rule: om_set.induct) auto

lemma om_set_entries: "(k', v') \<in> set (om_set k v m) \<Longrightarrow> (k', v') = (k, v) \<or> (k', v') \<in> set m"
  by (drule subsetD [OF set_om_set]) simp

lemma set_om_erase: "set (om_erase k m) \<subseteq> set m"
proof (induction m)
  case (Cons p m)
  then show ?case by (cases p) auto
qed simp

lemma om_ok_set: "om_ok m \<Longrightarrow> om_ok (om_set k v m)"
proof (induction m)
  case (Cons p m)
  then show ?case by (cases p) (auto simp: fst_om_set)
qed simp

lemma om_ok_erase: "om_ok m \<Longrightarrow> om_ok (om_erase k m)"
proof (induction m)
  case (Cons p m)
  then show ?case using set_om_erase [of k m] by (cases p) auto
qed simp

section \<open>Values under a function\<close>

definition om_map :: "('v \<Rightarrow> 'u) \<Rightarrow> ('k, 'v) omap \<Rightarrow> ('k, 'u) omap" where
  "om_map f m = map (\<lambda>(k, v). (k, f v)) m"

lemma om_map_simps [simp]: "om_map f [] = []" "om_map f ((k, v) # m) = (k, f v) # om_map f m"
  by (simp_all add: om_map_def)

lemma om_find_map: "om_find (om_map f m) k = map_option f (om_find m k)"
  by (induction m) auto

lemma om_set_map: "om_set k (f v) (om_map f m) = om_map f (om_set k v m)"
  by (induction k v m rule: om_set.induct) auto

lemma om_erase_map: "om_erase k (om_map f m) = om_map f (om_erase k m)"
  by (induction k m rule: om_erase.induct) auto

lemma length_om_map [simp]: "length (om_map f m) = length m"
  by (simp add: om_map_def)

interpretation stdmap: keyed_store om_find om_set om_erase om_ok
  by unfold_locales (simp_all add: om_find_set om_find_erase om_ok_set om_ok_erase)

end
