(* ===== verification/Serial_Port.thy ===== *)
theory Serial_Port
  imports Write_Queue Ordered_Map "HOL-Library.Char_ord" "HOL-Library.List_Lexorder"
begin

text \<open>
  A serial port, \<open>serial/impl/serial_base_impl.hpp\<close> of
  \<open>src/src/libs/my_async/include/my_async\<close>, with the class of the application over it
  (\<open>src/src/apps/serial/serial_type.cpp\<close>), and the container of ports
  (\<open>serial/impl/container_impl.hpp\<close>).  The device is the operating system's: results
  of its calls are arguments.  A write is \<open>async_write_some\<close>, which may take only a
  part of the data.
\<close>

section \<open>A port\<close>

datatype serial_parity = parity_none | parity_odd | parity_even
datatype serial_stop = stop_one | stop_onepointfive | stop_two
datatype serial_flow = flow_none | flow_software | flow_hardware

datatype serial_option =
    Baud_Rate u32
  | Character_Size u32
  | Parity serial_parity
  | Stop_Bits serial_stop
  | Flow_Control serial_flow

text \<open>What the port calls: the read handler, or the close callback of the application.\<close>

datatype serial_event = Received byte_array | Close_Callback

record serial_port =
  sr_name :: string
  sr_is_open :: bool
  sr_posted :: "byte_array list"
  sr_queue :: "byte_array list"
  sr_writes :: "byte_array list"
  sr_reads :: nat
  sr_sent :: byte_array
  sr_options :: "serial_option list"
  sr_log :: "serial_event list"

definition serial_new :: serial_port where
  "serial_new = \<lparr>sr_name = '''', sr_is_open = False, sr_posted = [], sr_queue = [],
     sr_writes = [], sr_reads = 0, sr_sent = [], sr_options = [], sr_log = []\<rparr>"

definition serial_call :: "serial_event \<Rightarrow> serial_port \<Rightarrow> serial_port" where
  "serial_call e s = s\<lparr>sr_log := sr_log s @ [e]\<rparr>"

text \<open>
  \<open>Serial::fail\<close> acts on one number only, \<open>ENOENT\<close>.  The number is compared without the
  category, and 2 is also the end of file of Boost.Asio.
\<close>

definition vanished :: "error_code \<Rightarrow> bool" where
  "vanished ec \<longleftrightarrow> ec = no_such_file_or_directory \<or> ec = eof_error"

definition serial_fail :: "error_code \<Rightarrow> string \<Rightarrow> serial_port \<Rightarrow> serial_port" where
  "serial_fail ec what s = (if vanished ec then serial_call Close_Callback s else s)"

definition serial_is_open :: "serial_port \<Rightarrow> bool" where
  "serial_is_open s = sr_is_open s"

definition serial_do_read :: "serial_port \<Rightarrow> serial_port" where
  "serial_do_read s = s\<lparr>sr_reads := sr_reads s + 1\<rparr>"

text \<open>\<open>open_r\<close> and \<open>baud_r\<close> are the results of \<open>stream_.open\<close> and \<open>stream_.set_option\<close>.\<close>

definition serial_open ::
  "error_code option \<Rightarrow> error_code option \<Rightarrow> string \<Rightarrow> u32 \<Rightarrow> serial_port
     \<Rightarrow> error_code option \<times> serial_port" where
  "serial_open open_r baud_r name baud s =
     (if serial_is_open s
      then (Some already_connected, serial_fail already_connected ''open'' s)
      else (case open_r of Some ec \<Rightarrow> (Some ec, serial_fail ec ''open'' s)
      | None \<Rightarrow>
         (let s = s\<lparr>sr_is_open := True, sr_name := c_str name\<rparr> in
          (case baud_r of Some ec \<Rightarrow> (Some ec, serial_fail ec ''baudrate'' s)
           | None \<Rightarrow> (None, serial_do_read (s\<lparr>sr_options := sr_options s @ [Baud_Rate baud]\<rparr>))))))"

definition serial_close ::
  "error_code option \<Rightarrow> serial_port \<Rightarrow> error_code option \<times> serial_port" where
  "serial_close close_r s =
     (if \<not> sr_is_open s then (None, s)
      else
        (let s = s\<lparr>sr_is_open := False\<rparr>;
             s = (case close_r of Some ec \<Rightarrow> serial_fail ec ''close'' s | None \<Rightarrow> s) in
         (close_r, s\<lparr>sr_name := ''''\<rparr>)))"

definition serial_cancel ::
  "error_code option \<Rightarrow> serial_port \<Rightarrow> error_code option \<times> serial_port" where
  "serial_cancel r s = (r, case r of Some ec \<Rightarrow> serial_fail ec ''cancel'' s | None \<Rightarrow> s)"

definition serial_write :: "byte_array \<Rightarrow> serial_port \<Rightarrow> serial_port" where
  "serial_write data s = s\<lparr>sr_posted := sr_posted s @ [data]\<rparr>"

definition serial_set_option ::
  "error_code option \<Rightarrow> serial_option \<Rightarrow> serial_port \<Rightarrow> error_code option \<times> serial_port" where
  "serial_set_option r op s =
     (case r of Some ec \<Rightarrow> (Some ec, serial_fail ec ''set_option'' s)
      | None \<Rightarrow> (None, s\<lparr>sr_options := sr_options s @ [op]\<rparr>))"

definition serial_get_option ::
  "error_code + 'v \<Rightarrow> serial_port \<Rightarrow> (error_code + 'v) \<times> serial_port" where
  "serial_get_option r s =
     (r, case r of Inl ec \<Rightarrow> serial_fail ec ''get_option'' s | Inr _ \<Rightarrow> s)"

definition get_port_name :: "serial_port \<Rightarrow> string" where
  "get_port_name s = sr_name s"

definition serial_do_write :: "serial_port \<Rightarrow> serial_port" where
  "serial_do_write s = s\<lparr>sr_writes := sr_writes s @ take 1 (sr_queue s)\<rparr>"

definition serial_on_writing :: "byte_array \<Rightarrow> serial_port \<Rightarrow> serial_port" where
  "serial_on_writing data s =
     (let s = s\<lparr>sr_queue := sr_queue s @ [data]\<rparr> in
      if length (sr_queue s) > 1 then s else serial_do_write s)"

text \<open>
  The completion of a write: \<open>n\<close> bytes of the front have gone to the device.  The
  handler does not look at the number.
\<close>

definition serial_on_write :: "error_code option \<Rightarrow> nat \<Rightarrow> serial_port \<Rightarrow> serial_port" where
  "serial_on_write r n s =
     (let s = s\<lparr>sr_sent := sr_sent s @ take n (concat (take 1 (sr_writes s))),
               sr_writes := tl (sr_writes s)\<rparr> in
      case r of Some ec \<Rightarrow> serial_fail ec ''write'' s
      | None \<Rightarrow>
         (let s = s\<lparr>sr_queue := tl (sr_queue s)\<rparr> in
          if sr_queue s \<noteq> [] then serial_do_write s else s))"

definition serial_on_read :: "error_code option \<Rightarrow> byte_array \<Rightarrow> serial_port \<Rightarrow> serial_port" where
  "serial_on_read r buffer s =
     (let s = s\<lparr>sr_reads := sr_reads s - 1\<rparr> in
      case r of Some ec \<Rightarrow> serial_fail ec ''read'' s
      | None \<Rightarrow> serial_do_read (serial_call (Received buffer) s))"

section \<open>The container\<close>

type_synonym serials = "(string, serial_port) omap"

definition serials_is_open :: "serials \<Rightarrow> string \<Rightarrow> bool" where
  "serials_is_open m port_name =
     (case om_find m port_name of None \<Rightarrow> False | Some s \<Rightarrow> serial_is_open s)"

text \<open>The third result is the new port, whose close callback may have been called.\<close>

definition serials_open ::
  "error_code option \<Rightarrow> error_code option \<Rightarrow> string \<Rightarrow> u32 \<Rightarrow> serials
     \<Rightarrow> error_code option \<times> serials \<times> serial_port option" where
  "serials_open open_r baud_r port_name baud m =
     (case om_find m port_name of
        Some _ \<Rightarrow> (Some already_connected, m, None)
      | None \<Rightarrow>
          (case serial_open open_r baud_r (c_str port_name) baud serial_new of (ec, s) \<Rightarrow>
             if ec \<noteq> None then (ec, m, Some s) else (None, om_set port_name s m, Some s)))"

text \<open>The third result is the port that was closed and removed.\<close>

definition serials_close ::
  "error_code option \<Rightarrow> string \<Rightarrow> serials \<Rightarrow> error_code option \<times> serials \<times> serial_port option"
where
  "serials_close close_r port_name m =
     (case om_find m port_name of
        None \<Rightarrow> (Some not_connected, m, None)
      | Some s \<Rightarrow>
          (case (if serial_is_open s then serial_close close_r s else (None, s)) of (ec, s) \<Rightarrow>
             (ec, om_erase port_name m, Some s)))"

definition serials_write ::
  "string \<Rightarrow> byte_array \<Rightarrow> serials \<Rightarrow> error_code option \<times> serials" where
  "serials_write port_name data m =
     (case om_find m port_name of
        None \<Rightarrow> (Some not_connected, m)
      | Some s \<Rightarrow> (None, om_set port_name (serial_write data s) m))"

text \<open>Options are set in order until one fails.\<close>

fun serial_set_options ::
  "(error_code option \<times> serial_option) list \<Rightarrow> serial_port \<Rightarrow> error_code option \<times> serial_port"
where
  "serial_set_options [] s = (None, s)"
| "serial_set_options ((r, op) # ops) s =
     (case serial_set_option r op s of (ec, s) \<Rightarrow>
        if ec \<noteq> None then (ec, s) else serial_set_options ops s)"

definition serials_config ::
  "(nat \<Rightarrow> error_code option) \<Rightarrow> string \<Rightarrow> u32 \<Rightarrow> u32 \<Rightarrow> serial_parity \<Rightarrow> serial_stop \<Rightarrow> serial_flow
     \<Rightarrow> serials \<Rightarrow> error_code option \<times> serials" where
  "serials_config rs port_name baud ch parity sb fw m =
     (case om_find m port_name of
        None \<Rightarrow> (Some not_connected, m)
      | Some s \<Rightarrow>
          (case serial_set_options [(rs 0, Baud_Rate baud), (rs 1, Character_Size ch),
               (rs 2, Parity parity), (rs 3, Stop_Bits sb), (rs 4, Flow_Control fw)] s of (ec, s) \<Rightarrow>
             (ec, om_set port_name s m)))"

text \<open>\<open>get_config\<close>: five options are read in order until one fails.\<close>

fun serial_get_options ::
  "(error_code + u32) list \<Rightarrow> u32 list \<Rightarrow> serial_port \<Rightarrow> (error_code + u32 list) \<times> serial_port" where
  "serial_get_options [] acc s = (Inr acc, s)"
| "serial_get_options (r # rs) acc s =
     (case serial_get_option r s of
        (Inl ec, s) \<Rightarrow> (Inl ec, s)
      | (Inr v, s) \<Rightarrow> serial_get_options rs (acc @ [v]) s)"

definition serials_get_config ::
  "(nat \<Rightarrow> error_code + u32) \<Rightarrow> string \<Rightarrow> serials \<Rightarrow> (error_code + u32 list) \<times> serials" where
  "serials_get_config rs port_name m =
     (case om_find m port_name of
        None \<Rightarrow> (Inl not_connected, m)
      | Some s \<Rightarrow>
          (case serial_get_options [rs 0, rs 1, rs 2, rs 3, rs 4] [] s of (v, s) \<Rightarrow>
             (v, om_set port_name s m)))"

text \<open>\<open>check_ports\<close>: closing a port that is not open does nothing.\<close>

definition serials_check_ports :: "serials \<Rightarrow> bool \<times> serials" where
  "serials_check_ports m =
     (list_ex (\<lambda>(k, s). \<not> serial_is_open s) m,
      map (\<lambda>(k, s). (k, if \<not> serial_is_open s then snd (serial_close None s) else s)) m)"

section \<open>Scanning\<close>

text \<open>The names of the entries of \<open>/dev/\<close>; \<open>None\<close> when it cannot be opened.\<close>

definition scan_ports :: "string list option \<Rightarrow> string list" where
  "scan_ports entries =
     (case entries of None \<Rightarrow> []
      | Some ds \<Rightarrow> map (\<lambda>d. ''/dev/'' @ d)
          (filter (\<lambda>d. list_ex (\<lambda>p. take (length p) d = p) [''ttyUSB'', ''ttyACM'']) ds))"

section \<open>Lemmas\<close>

lemmas serial_defs =
  serial_call_def serial_fail_def serial_is_open_def serial_do_read_def serial_open_def
  serial_close_def serial_write_def serial_do_write_def serial_on_writing_def
  serial_on_write_def serial_on_read_def Let_def

interpretation serial_wq: write_queue sr_queue sr_writes serial_on_writing
  "serial_on_write None n" for n
proof
  fix d s
  show "sr_queue (serial_on_writing d s) = sr_queue s @ [d]"
    by (simp add: serial_defs)
  show "sr_writes (serial_on_writing d s) = sr_writes s @ (if sr_queue s = [] then [d] else [])"
    by (cases "sr_queue s") (simp_all add: serial_defs)
  show "sr_queue (serial_on_write None n s) = tl (sr_queue s)"
    by (simp add: serial_defs)
  show "sr_writes (serial_on_write None n s) = tl (sr_writes s) @ take 1 (tl (sr_queue s))"
    by (simp add: serial_defs)
qed

text \<open>
  A partial write: the device gets the first \<open>n\<close> bytes of the front, and the rest is
  dropped with it.
\<close>

lemma serial_partial_write:
  assumes "sr_queue s = d # ds" "sr_writes s = [d]"
  shows "sr_sent (serial_on_write None n s) = sr_sent s @ take n d"
    "sr_queue (serial_on_write None n s) = ds"
  using assms by (simp_all add: serial_defs)

text \<open>\<open>check_ports\<close> reports whether a port is closed, and changes nothing.\<close>

lemma serials_check_ports_eq:
  "serials_check_ports m = ((\<exists>(k, s)\<in>set m. \<not> sr_is_open s), m)"
  by (induction m) (auto simp: serials_check_ports_def serial_close_def serial_is_open_def)

text \<open>The ports of the container are open and stored under their own names.\<close>

definition serials_ok :: "serials \<Rightarrow> bool" where
  "serials_ok m \<longleftrightarrow> om_ok m \<and> (\<forall>(k, s)\<in>set m. sr_is_open s \<and> sr_name s = k)"

lemma serials_ok_set:
  "\<lbrakk>serials_ok m; sr_is_open s; sr_name s = k\<rbrakk> \<Longrightarrow> serials_ok (om_set k s m)"
  using om_set_entries [of _ _ k s m] by (fastforce simp: serials_ok_def om_ok_set)

lemma serials_ok_erase: "serials_ok m \<Longrightarrow> serials_ok (om_erase k m)"
  using set_om_erase [of k m] by (auto simp: serials_ok_def om_ok_erase)

lemma serials_ok_find:
  "\<lbrakk>serials_ok m; om_find m k = Some s\<rbrakk> \<Longrightarrow> sr_is_open s \<and> sr_name s = k"
  by (auto simp: serials_ok_def om_find_eq dest: map_of_SomeD)

lemma serial_set_options_sel:
  "sr_is_open (snd (serial_set_options ops s)) = sr_is_open s"
  "sr_name (snd (serial_set_options ops s)) = sr_name s"
  by (induction ops s rule: serial_set_options.induct)
    (auto simp: serial_set_option_def serial_fail_def serial_call_def split: option.splits)

lemma serials_ops_ok:
  assumes "serials_ok m"
  shows "c_str name = name \<Longrightarrow> serials_ok (fst (snd (serials_open r1 r2 name baud m)))"
    "serials_ok (fst (snd (serials_close r name m)))"
    "serials_ok (snd (serials_write name d m))"
    "serials_ok (snd (serials_config rs name baud ch p sb fw m))"
proof -
  show "c_str name = name \<Longrightarrow> serials_ok (fst (snd (serials_open r1 r2 name baud m)))"
    using assms by (auto simp: serials_open_def serial_open_def serial_new_def serial_is_open_def
        serial_do_read_def Let_def intro!: serials_ok_set split: option.splits prod.splits if_splits)
  show "serials_ok (fst (snd (serials_close r name m)))"
    using assms by (auto simp: serials_close_def serials_ok_erase split: option.splits prod.splits)
  show "serials_ok (snd (serials_write name d m))"
    using assms serials_ok_find [OF assms, of name]
    by (auto simp: serials_write_def serial_write_def intro!: serials_ok_set split: option.splits)
  show "serials_ok (snd (serials_config rs name baud ch p sb fw m))"
  proof (cases "om_find m name")
    case (Some s)
    then show ?thesis
      using assms serials_ok_find [OF assms Some]
      by (auto simp: serials_config_def serial_set_options_sel case_prod_beta
          simp del: serial_set_options.simps intro!: serials_ok_set)
  qed (use assms in \<open>simp add: serials_config_def\<close>)
qed


section \<open>Properties\<close>

text \<open>
  C30: A serial port sends only what the device takes at once.  From an idle port, when
  every write is followed by the completion that took \<open>n\<close> bytes of it, the device has
  received exactly the first \<open>n\<close> bytes of each write, one after the other; the port is
  idle again and what was not taken is gone.
\<close>

theorem serial_partial_writes:
  assumes "sr_queue s = []" "sr_writes s = []"
  shows "sr_sent (fold (\<lambda>(d, n) s. serial_on_write None n (serial_on_writing d s)) xs s) =
      sr_sent s @ concat (map (\<lambda>(d, n). take n d) xs) \<and>
    sr_queue (fold (\<lambda>(d, n) s. serial_on_write None n (serial_on_writing d s)) xs s) = [] \<and>
    sr_writes (fold (\<lambda>(d, n) s. serial_on_write None n (serial_on_writing d s)) xs s) = []"
  using assms
proof (induction xs arbitrary: s)
  case (Cons x xs)
  obtain d n where x: "x = (d, n)" by force
  have w: "sr_queue (serial_on_writing d s) = [d]" "sr_writes (serial_on_writing d s) = [d]"
    "sr_sent (serial_on_writing d s) = sr_sent s"
    using Cons.prems by (simp_all add: serial_defs)
  have "sr_writes (serial_on_write None n (serial_on_writing d s)) = []"
    using w by (simp add: serial_wq.fin_out)
  then show ?case
    using Cons.IH [of "serial_on_write None n (serial_on_writing d s)"] x w
      serial_partial_write [OF w(1,2), of n] by simp
qed simp

theorem serial_partial_writes_witness:
  "sr_sent (fold (\<lambda>(d, n) s. serial_on_write None n (serial_on_writing d s))
     [([1, 2, 3], 2), ([4], 1)] serial_new) = [1, 2, 4]"
proof -
  have "sr_queue serial_new = []" "sr_writes serial_new = []" "sr_sent serial_new = []"
    by (simp_all add: serial_new_def)
  with serial_partial_writes [OF this(1,2), of "[([1, 2, 3], 2), ([4], 1)]"] show ?thesis by simp
qed

text \<open>
  C32: The container of serial ports.  It holds open ports only, each under its own name
  and in the order of names, and every operation keeps that (for a name without NUL).
  Opening a name that is present is refused and changes nothing; closing a port removes
  it and no other; closing or writing on an absent name reports that it is not connected
  and changes nothing; \<open>check_ports\<close> therefore finds no closed port and does nothing.
\<close>

theorem serial_container:
  assumes m: "serials_ok m" and n: "c_str nm = nm"
  shows "serials_ok (fst (snd (serials_open r1 r2 nm baud m))) \<and>
    serials_ok (fst (snd (serials_close r nm m))) \<and>
    serials_ok (snd (serials_write nm d m)) \<and>
    serials_ok (snd (serials_config rs nm baud ch p sb fw m)) \<and>
    serials_check_ports m = (False, m) \<and>
    (case om_find m nm of
      Some s \<Rightarrow> serials_open r1 r2 nm baud m = (Some already_connected, m, None) \<and>
        (\<exists>ec m' s'. serials_close r nm m = (ec, m', Some s') \<and> om_find m' = (om_find m)(nm := None))
    | None \<Rightarrow> serials_close r nm m = (Some not_connected, m, None) \<and>
        serials_write nm d m = (Some not_connected, m) \<and>
        (\<exists>s. serials_open None None nm baud m = (None, om_set nm s m, Some s) \<and> sr_reads s = 1 \<and>
          om_find (om_set nm s m) = (om_find m)(nm \<mapsto> s)))"
proof -
  have ok: "om_ok m" using m by (simp add: serials_ok_def)
  have "serials_check_ports m = (False, m)"
    using m by (auto simp: serials_check_ports_eq serials_ok_def)
  moreover have "case om_find m nm of
      Some s \<Rightarrow> serials_open r1 r2 nm baud m = (Some already_connected, m, None) \<and>
        (\<exists>ec m' s'. serials_close r nm m = (ec, m', Some s') \<and> om_find m' = (om_find m)(nm := None))
    | None \<Rightarrow> serials_close r nm m = (Some not_connected, m, None) \<and>
        serials_write nm d m = (Some not_connected, m) \<and>
        (\<exists>s. serials_open None None nm baud m = (None, om_set nm s m, Some s) \<and> sr_reads s = 1 \<and>
          om_find (om_set nm s m) = (om_find m)(nm \<mapsto> s))"
    by (cases "om_find m nm")
      (simp_all add: serials_open_def serials_close_def serials_write_def serial_open_def
        serial_is_open_def serial_new_def serial_do_read_def Let_def case_prod_beta
        om_find_set [OF ok] om_find_erase [OF ok])
  ultimately show ?thesis using serials_ops_ok [OF m] n by simp
qed

theorem serial_container_witness:
  "\<exists>s. serials_open None None ''/dev/ttyUSB0'' 9600 [] =
      (None, om_set ''/dev/ttyUSB0'' s [], Some s) \<and> sr_reads s = 1"
proof -
  have "serials_ok []" by (simp add: serials_ok_def)
  moreover have "c_str ''/dev/ttyUSB0'' = ''/dev/ttyUSB0''" by (simp add: c_str_def)
  ultimately show ?thesis
    using serial_container [of "[]" "''/dev/ttyUSB0''" None None 9600 None "[]" "\<lambda>_. None" 8
        parity_none stop_one flow_none] by auto
qed

section \<open>Overloads that throw\<close>

text \<open>
  The overloads without an error argument throw a \<open>Serial_Exception\<close> of the error (\<open>Inl\<close>).
  Those of \<open>open\<close>, \<open>close\<close> and \<open>cancel\<close> call the others, those of the options go to the
  stream themselves.
\<close>

definition throwing :: "error_code option \<times> 's \<Rightarrow> (error_code + unit) \<times> 's" where
  "throwing r = (case r of (ec, s) \<Rightarrow> (case ec of Some ec \<Rightarrow> Inl ec | None \<Rightarrow> Inr (), s))"

definition serial_open_throw ::
  "error_code option \<Rightarrow> error_code option \<Rightarrow> string \<Rightarrow> u32 \<Rightarrow> serial_port
     \<Rightarrow> (error_code + unit) \<times> serial_port" where
  "serial_open_throw open_r baud_r name baud s = throwing (serial_open open_r baud_r name baud s)"

definition serial_close_throw ::
  "error_code option \<Rightarrow> serial_port \<Rightarrow> (error_code + unit) \<times> serial_port" where
  "serial_close_throw r s = throwing (serial_close r s)"

definition serial_cancel_throw ::
  "error_code option \<Rightarrow> serial_port \<Rightarrow> (error_code + unit) \<times> serial_port" where
  "serial_cancel_throw r s = throwing (serial_cancel r s)"

definition serial_set_option_throw ::
  "error_code option \<Rightarrow> serial_option \<Rightarrow> serial_port \<Rightarrow> (error_code + unit) \<times> serial_port" where
  "serial_set_option_throw r op s =
     (case r of Some ec \<Rightarrow> (Inl ec, s) | None \<Rightarrow> (Inr (), s\<lparr>sr_options := sr_options s @ [op]\<rparr>))"

definition serial_get_option_throw ::
  "error_code + 'v \<Rightarrow> serial_port \<Rightarrow> (error_code + 'v) \<times> serial_port" where
  "serial_get_option_throw r s = (r, s)"

text \<open>
  An option of a device that has vanished: the overload with the error closes the port, the
  one that throws leaves that to its caller.
\<close>

lemma vanished_option:
  "vanished ec \<Longrightarrow> sr_log (snd (serial_set_option (Some ec) op s)) = sr_log s @ [Close_Callback]"
  "snd (serial_set_option_throw (Some ec) op s) = s"
  by (simp_all add: serial_set_option_def serial_set_option_throw_def serial_fail_def serial_call_def)

end
