(* ===== verification/Serial_App.thy ===== *)
theory Serial_App
  imports Serial_Port Endpoint
begin

text \<open>
  The serial application, \<open>src/src/apps/serial\<close>: the parsers of its requests
  (\<open>json/parser.cpp\<close>), its messages (\<open>json/make.cpp\<close>) and its handlers (\<open>serial.cpp\<close>,
  \<open>serial_type.cpp\<close>).  The answers of the operating system during a request are the
  record \<open>serial_os\<close>.  The constructor of \<open>character_size\<close> belongs to Boost; its
  documented precondition is the parameter \<open>char_ok\<close>, outside of which it throws.
\<close>

section \<open>Requests\<close>

record Serial_Config =
  sc_port :: string
  sc_baud :: u32
  sc_char_size :: u32
  sc_parity :: serial_parity
  sc_stopbits :: serial_stop
  sc_fc :: serial_flow
  sc_fc_start :: byte
  sc_fc_stop :: byte

definition check_serial_close_message :: "('j, 'z) lib_scheme \<Rightarrow> 'j \<Rightarrow> bool option" where
  "check_serial_close_message L doc = do {
     ok \<leftarrow> has_with L doc DATA_KEY (jd_is_object L);
     if \<not> ok then Some False else do {
     d \<leftarrow> member_of L doc DATA_KEY;
     has_with L d ''port'' (jd_is_string L) } }"

definition check_serial_config_message :: "('j, 'z) lib_scheme \<Rightarrow> 'j \<Rightarrow> bool option" where
  "check_serial_config_message L d = do {
     ok \<leftarrow> has_with L d DATA_KEY (jd_is_object L);
     if \<not> ok then Some False else do {
     doc \<leftarrow> member_of L d DATA_KEY;
     opt_and (has_with L doc ''port'' (jd_is_string L))
     (opt_and (has_with L doc ''baudrate'' (jd_is_uint L))
     (opt_and (has_with L doc ''parity'' (jd_is_uint L))
     (opt_and (has_with L doc ''stopbit'' (jd_is_uint L))
     (opt_and (has_with L doc ''char_size'' (jd_is_uint L))
     (opt_and (has_with L doc ''flow_control'' (jd_is_uint L))
     (opt_and (has_with L doc ''fc_start'' (jd_is_uint L))
              (has_with L doc ''fc_stop'' (jd_is_uint L)))))))) } }"

definition get_serial_config ::
  "('j, 'z) lib_scheme \<Rightarrow> (u32 \<Rightarrow> bool) \<Rightarrow> 'j \<Rightarrow> Serial_Config option option" where
  "get_serial_config L char_ok doc = do {
     port \<leftarrow> member_c_str L doc ''port'';
     baud \<leftarrow> member_uint L doc ''baudrate'';
     ch \<leftarrow> member_uint L doc ''char_size'';
     require (char_ok ch);
     sb \<leftarrow> member_uint L doc ''stopbit'';
     case (if sb = 0 then Some stop_one else if sb = 2 then Some stop_two
           else if sb = 1 then Some stop_onepointfive else None) of
       None \<Rightarrow> Some None
     | Some stopbits \<Rightarrow> do {
     p \<leftarrow> member_uint L doc ''parity'';
     case (if p = 0 then Some parity_none else if p = 1 then Some parity_odd
           else if p = 2 then Some parity_even else None) of
       None \<Rightarrow> Some None
     | Some parity \<Rightarrow> do {
     f \<leftarrow> member_uint L doc ''flow_control'';
     case (if f = 0 then Some flow_none else if f = 1 then Some flow_software
           else if f = 2 then Some flow_hardware else None) of
       None \<Rightarrow> Some None
     | Some fc \<Rightarrow> do {
     st \<leftarrow> member_uint L doc ''fc_start'';
     sp \<leftarrow> member_uint L doc ''fc_stop'';
     Some (Some \<lparr>sc_port = port, sc_baud = baud, sc_char_size = ch, sc_parity = parity,
       sc_stopbits = stopbits, sc_fc = fc, sc_fc_start = ucast st, sc_fc_stop = ucast sp\<rparr>) } } } }"

definition check_serial_data :: "('j, 'z) lib_scheme \<Rightarrow> 'j \<Rightarrow> bool option" where
  "check_serial_data L doc = do {
     ok \<leftarrow> has_with L doc DATA_KEY (jd_is_object L);
     if \<not> ok then Some False else do {
     d \<leftarrow> member_of L doc DATA_KEY;
     opt_and (Some (jd_is_object L doc))
     (opt_and (has_with L d ''port'' (jd_is_string L))
              (has_with L d ''data'' (\<lambda>v. jd_is_object L v \<or> jd_is_string L v))) } }"

definition get_serial_data :: "('j, 'z) lib_scheme \<Rightarrow> 'j \<Rightarrow> (string \<times> byte_array) option" where
  "get_serial_data L doc = do {
     d \<leftarrow> member_of L doc DATA_KEY;
     port \<leftarrow> member_c_str L d ''port'';
     data \<leftarrow> read_payload L d ''data'';
     Some (port, data) }"

definition parser_serial_config ::
  "('j, 'z) lib_scheme \<Rightarrow> (u32 \<Rightarrow> bool) \<Rightarrow> 'j \<Rightarrow> Serial_Config option option" where
  "parser_serial_config L char_ok doc = do {
     ok \<leftarrow> check_serial_config_message L doc;
     if \<not> ok then Some None else do {
     d \<leftarrow> member_of L doc DATA_KEY;
     get_serial_config L char_ok d } }"

definition parser_serial_close :: "('j, 'z) lib_scheme \<Rightarrow> 'j \<Rightarrow> string option option" where
  "parser_serial_close L doc = do {
     ok \<leftarrow> check_serial_close_message L doc;
     if \<not> ok then Some None else do {
     d \<leftarrow> member_of L doc DATA_KEY;
     port \<leftarrow> member_c_str L d ''port'';
     Some (Some port) } }"

definition parser_serial_data ::
  "('j, 'z) lib_scheme \<Rightarrow> 'j \<Rightarrow> (string \<times> byte_array) option option" where
  "parser_serial_data L doc = do {
     ok \<leftarrow> check_serial_data L doc;
     if \<not> ok then Some None else map_option Some (get_serial_data L doc) }"

section \<open>Messages\<close>

record serial_os =
  so_open :: "error_code option"
  so_baud :: "error_code option"
  so_close :: "error_code option"
  so_config :: "nat \<Rightarrow> error_code option"
  so_options :: "string \<Rightarrow> nat \<Rightarrow> error_code + u32"
  so_entries :: "string list option"

definition close_vanishes :: "serial_os \<Rightarrow> bool" where
  "close_vanishes os = (case so_close os of None \<Rightarrow> False | Some ec \<Rightarrow> vanished ec)"

definition serial_make_data ::
  "('j, 'z) lib_scheme \<Rightarrow> string \<Rightarrow> byte_array \<Rightarrow> 'f core \<Rightarrow> (byte_array \<times> 'f core) option" where
  "serial_make_data L str data c = do {
     (s, c) \<leftarrow> create_data_value L serial
       (jd_object L [(''port'', jd_string L (c_str str)), (''data'', bytes_array L data)]) c;
     Some (Byte_Array_of s, c) }"

text \<open>The entry of one port in the status message; \<open>cfg\<close> are its five options.\<close>

definition serial_port_object ::
  "('j, 'z) lib_scheme \<Rightarrow> string \<Rightarrow> bool \<Rightarrow> u32 list option \<Rightarrow> 'j" where
  "serial_port_object L p opened cfg =
     jd_object L ([(''port'', jd_string L (c_str p)), (''open'', jd_bool L opened)] @
       (case cfg of Some [br, ch, parity, stopbit, fc] \<Rightarrow>
          [(''config'', jd_object L
             [(''baudrate'', jd_uint L br), (''char_size'', jd_uint L ch),
              (''parity'', jd_int L parity), (''stopbit'', jd_int L stopbit),
              (''flow_control'', jd_int L fc)])]
        | _ \<Rightarrow> []))"

text \<open>
  The loop over the scanned ports.  Reading the options of a port whose device has
  vanished calls its close callback, \<open>vanish\<close>, in the middle of the loop.
\<close>

fun serial_ports_loop ::
  "('j, 'z) lib_scheme \<Rightarrow> serial_os \<Rightarrow>
   (string \<Rightarrow> serials \<times> 'f core \<Rightarrow> (serials \<times> 'f core) option) \<Rightarrow> string list \<Rightarrow>
   serials \<times> 'f core \<Rightarrow> ('j list \<times> serials \<times> 'f core) option" where
  "serial_ports_loop L os vanish [] s = Some ([], s)"
| "serial_ports_loop L os vanish (p # ps) (m, c) = do {
     let opened = serials_is_open m p;
     (cfg, m, c) \<leftarrow>
       (if \<not> opened then Some (None, m, c)
        else (case serials_get_config (so_options os p) p m of
            (Inr v, m) \<Rightarrow> Some (Some v, m, c)
          | (Inl ec, m) \<Rightarrow>
              if vanished ec
              then do { (m, c) \<leftarrow> vanish p (m, c); Some (None, m, c) }
              else Some (None, m, c)));
     (js, s) \<leftarrow> serial_ports_loop L os vanish ps (m, c);
     Some (serial_port_object L p opened cfg # js, s) }"

text \<open>
  \<open>serial_send_status\<close> and the close callback of a port call each other; the first
  argument bounds the depth.  A callback during \<open>close\<close> would find the port again and
  erase it twice, which is \<open>None\<close>.
\<close>

definition serial_vanish ::
  "serial_os \<Rightarrow> (serials \<times> 'f core \<Rightarrow> (serials \<times> 'f core) option) \<Rightarrow> string \<Rightarrow>
   serials \<times> 'f core \<Rightarrow> (serials \<times> 'f core) option" where
  "serial_vanish os send_status name = (\<lambda>(m, c).
     (case serials_close (so_close os) name m of (ec, m', closed) \<Rightarrow> do {
        require (\<not> (serials_is_open m name \<and> close_vanishes os));
        send_status (m', c) }))"

fun serial_status ::
  "nat \<Rightarrow> ('j, 'z) lib_scheme \<Rightarrow> serial_os \<Rightarrow> serials \<times> 'f core \<Rightarrow> (serials \<times> 'f core) option"
where
  "serial_status 0 L os s = None"
| "serial_status (Suc n) L os s = do {
     (ports, m, c) \<leftarrow> serial_ports_loop L os (serial_vanish os (serial_status n L os))
       (scan_ports (so_entries os)) s;
     (msg, c) \<leftarrow> create_control_doc L serial status
       (jd_object L [(''ports'', jd_array L ports)]) c;
     Some (m, emit (Write_All_Same (Byte_Array_of msg)) c) }"

definition serial_send_status ::
  "('j, 'z) lib_scheme \<Rightarrow> serial_os \<Rightarrow> serials \<times> 'f core \<Rightarrow> (serials \<times> 'f core) option" where
  "serial_send_status L os s = serial_status (Suc (length (fst s))) L os s"

section \<open>What a port calls\<close>

definition serial_close_callback ::
  "('j, 'z) lib_scheme \<Rightarrow> serial_os \<Rightarrow> string \<Rightarrow> serials \<times> 'f core \<Rightarrow> (serials \<times> 'f core) option"
where
  "serial_close_callback L os name s = serial_vanish os (serial_send_status L os) name s"

definition serial_read_handler ::
  "('j, 'z) lib_scheme \<Rightarrow> string \<Rightarrow> byte_array \<Rightarrow> serials \<times> 'f core \<Rightarrow> (serials \<times> 'f core) option"
where
  "serial_read_handler L name data = (\<lambda>(m, c). do {
     (data_send, c) \<leftarrow> serial_make_data L name data c;
     Some (m, emit (Write_All data_send True) c) })"

fun serial_events ::
  "('j, 'z) lib_scheme \<Rightarrow> serial_os \<Rightarrow> string \<Rightarrow> serial_event list \<Rightarrow> serials \<times> 'f core
     \<Rightarrow> (serials \<times> 'f core) option" where
  "serial_events L os name [] s = Some s"
| "serial_events L os name (Received b # es) s = do {
     s \<leftarrow> serial_read_handler L name b s; serial_events L os name es s }"
| "serial_events L os name (Close_Callback # es) s = do {
     s \<leftarrow> serial_close_callback L os name s; serial_events L os name es s }"

text \<open>A completion handler of the port stored under \<open>name\<close>, with the calls it makes.\<close>

definition serial_run ::
  "('j, 'z) lib_scheme \<Rightarrow> serial_os \<Rightarrow> string \<Rightarrow> (serial_port \<Rightarrow> serial_port) \<Rightarrow>
   serials \<times> 'f core \<Rightarrow> (serials \<times> 'f core) option" where
  "serial_run L os name f = (\<lambda>(m, c). do {
     s \<leftarrow> om_find m name;
     let s' = f s;
     serial_events L os (get_port_name s') (drop (length (sr_log s)) (sr_log s'))
       (om_set name s' m, c) })"

section \<open>Requests\<close>

definition serial_message ::
  "('j, 'z) lib_scheme \<Rightarrow> nat \<Rightarrow> 'j \<Rightarrow> serials \<times> 'f core \<Rightarrow> (serials \<times> 'f core) option" where
  "serial_message L ws doc = (\<lambda>(m, c). do {
     r \<leftarrow> parser_serial_data L doc;
     case r of
       None \<Rightarrow> do {
         c \<leftarrow> fail_message L ws serial (make_error_code ILL_FORMED) '''' c; Some (m, c) }
     | Some (port, data) \<Rightarrow>
         (case serials_write port data m of (ec, m) \<Rightarrow>
            (case ec of None \<Rightarrow> Some (m, c)
             | Some e \<Rightarrow> do { c \<leftarrow> fail_message L ws serial e '''' c; Some (m, c) })) })"

text \<open>The callbacks a failing option runs come before the error message.\<close>

definition serial_config ::
  "('j, 'z) lib_scheme \<Rightarrow> serial_os \<Rightarrow> nat \<Rightarrow> Serial_Config \<Rightarrow> serials \<times> 'f core
     \<Rightarrow> (serials \<times> 'f core) option" where
  "serial_config L os ws cfg = (\<lambda>(m, c).
     (case serials_config (so_config os) (sc_port cfg) (sc_baud cfg) (sc_char_size cfg)
        (sc_parity cfg) (sc_stopbits cfg) (sc_fc cfg) m of (ec, m) \<Rightarrow>
       (case ec of None \<Rightarrow> Some (m, c)
        | Some e \<Rightarrow> do {
            (m, c) \<leftarrow> (if vanished e
              then serial_close_callback L os (sc_port cfg) (m, c) else Some (m, c));
            c \<leftarrow> fail_message L ws serial e '''' c;
            Some (m, c) })))"

definition serial_open_request ::
  "('j, 'z) lib_scheme \<Rightarrow> (u32 \<Rightarrow> bool) \<Rightarrow> serial_os \<Rightarrow> nat \<Rightarrow> 'j \<Rightarrow> serials \<times> 'f core
     \<Rightarrow> (serials \<times> 'f core) option" where
  "serial_open_request L char_ok os ws doc = (\<lambda>(m, c). do {
     r \<leftarrow> parser_serial_config L char_ok doc;
     case r of
       None \<Rightarrow> do {
         c \<leftarrow> fail_message L ws serial (make_error_code ILL_FORMED) '''' c; Some (m, c) }
     | Some cfg \<Rightarrow>
         if serials_is_open m (sc_port cfg)
         then do { c \<leftarrow> fail_message L ws serial already_connected '''' c; Some (m, c) }
         else
           (case serials_open (so_open os) (so_baud os) (sc_port cfg) (sc_baud cfg) m of
              (ec, m, made) \<Rightarrow> do {
                (m, c) \<leftarrow> (case made of
                    Some s \<Rightarrow> serial_events L os (get_port_name s) (sr_log s) (m, c)
                  | None \<Rightarrow> Some (m, c));
                case ec of
                  Some e \<Rightarrow> do { c \<leftarrow> fail_message L ws serial e '''' c; Some (m, c) }
                | None \<Rightarrow> serial_config L os ws cfg (m, c) }) })"

definition serial_close_request ::
  "('j, 'z) lib_scheme \<Rightarrow> serial_os \<Rightarrow> nat \<Rightarrow> 'j \<Rightarrow> serials \<times> 'f core
     \<Rightarrow> (serials \<times> 'f core) option" where
  "serial_close_request L os ws doc = (\<lambda>(m, c). do {
     r \<leftarrow> parser_serial_close L doc;
     case r of
       None \<Rightarrow> do {
         c \<leftarrow> fail_message L ws serial (make_error_code ILL_FORMED) '''' c; Some (m, c) }
     | Some port \<Rightarrow> do {
         require (\<not> (serials_is_open m port \<and> close_vanishes os));
         (case serials_close (so_close os) port m of (ec, m, closed) \<Rightarrow>
            (case ec of None \<Rightarrow> Some (m, c)
             | Some e \<Rightarrow> do {
                 c \<leftarrow> fail_message L ws serial (Sys_Code ''no_such_device_or_address'') '''' c;
                 Some (m, c) })) } })"

text \<open>\<open>serial_app\<close>: every open, close and status request ends with the status message.\<close>

definition serial_app ::
  "('j, 'z) lib_scheme \<Rightarrow> (u32 \<Rightarrow> bool) \<Rightarrow> serial_os \<Rightarrow> nat \<Rightarrow> Main_Data \<Rightarrow> 'j
     \<Rightarrow> serials \<times> 'f core \<Rightarrow> (serials \<times> 'f core) option" where
  "serial_app L char_ok os ws md doc s =
     (if md_type md = control_type then do {
        con \<leftarrow> md_control md;
        case con of
          open_c \<Rightarrow> do {
            s \<leftarrow> serial_open_request L char_ok os ws doc s; serial_send_status L os s }
        | close_c \<Rightarrow> do {
            s \<leftarrow> serial_close_request L os ws doc s; serial_send_status L os s }
        | status \<Rightarrow> serial_send_status L os s
        | _ \<Rightarrow> Some s }
      else serial_message L ws doc s)"

section \<open>Lemmas\<close>

text \<open>The parser of an open request throws exactly when the character size is refused.\<close>

lemma check_serial_config_True:
  "check_serial_config_message L doc = Some True \<longleftrightarrow> jd_is_object L doc \<and>
     (\<exists>d. jd_find L doc DATA_KEY = Some d \<and> jd_is_object L d \<and>
       (\<exists>v. jd_find L d ''port'' = Some v \<and> jd_is_string L v) \<and>
       (\<forall>k\<in>{''baudrate'', ''parity'', ''stopbit'', ''char_size'', ''flow_control'', ''fc_start'',
          ''fc_stop''}. \<exists>v. jd_find L d k = Some v \<and> jd_is_uint L v))"
  unfolding check_serial_config_message_def guard_simps by auto

lemma parser_serial_config_char_size:
  assumes "check_serial_config_message L doc = Some True" "jd_find L doc DATA_KEY = Some d"
    "jd_find L d ''char_size'' = Some v"
  shows "parser_serial_config L char_ok doc = None \<longleftrightarrow> \<not> char_ok (jd_get_uint L v)"
proof -
  have d: "jd_is_object L doc" "jd_is_object L d" "jd_is_uint L v"
    using assms by (auto simp: check_serial_config_True)
  obtain port where port: "member_c_str L d ''port'' = Some port"
    using assms by (auto simp: check_serial_config_True member_c_str_eq)
  have u: "\<exists>w. member_uint L d k = Some w"
    if "k \<in> {''baudrate'', ''parity'', ''stopbit'', ''flow_control'', ''fc_start'', ''fc_stop''}" for k
    using assms that by (auto simp: check_serial_config_True member_uint_def accessor_defs)
  obtain b p s f x y where "member_uint L d ''baudrate'' = Some b" "member_uint L d ''parity'' = Some p"
    "member_uint L d ''stopbit'' = Some s" "member_uint L d ''flow_control'' = Some f"
    "member_uint L d ''fc_start'' = Some x" "member_uint L d ''fc_stop'' = Some y"
    using u by (meson insertCI)
  moreover have "member_uint L d ''char_size'' = Some (jd_get_uint L v)"
    using d assms(3) by (simp add: member_uint_def accessor_defs)
  ultimately show ?thesis
    using assms(1,2) d port
    by (simp add: parser_serial_config_def get_serial_config_def member_of_def require_def)
qed

text \<open>The status message terminates: every nested callback removes a port.\<close>

lemma length_om_erase: "om_find m k \<noteq> None \<Longrightarrow> length m = Suc (length (om_erase k m))"
  by (induction k m rule: om_erase.induct) (auto split: if_splits)

lemma length_om_set: "\<lbrakk>om_ok m; om_find m k \<noteq> None\<rbrakk> \<Longrightarrow> length (om_set k v m) = length m"
proof (induction m)
  case (Cons a m)
  obtain k' w where a: "a = (k', w)" by force
  show ?case
  proof (cases "k < k'")
    case True
    then have "om_find m k = None" using Cons.prems a by (intro om_find_None) auto
    then show ?thesis using Cons.prems True a by (auto split: if_splits)
  next
    case False
    then show ?thesis using Cons a by (auto split: if_splits)
  qed
qed simp

lemma serial_get_options_sel:
  "serial_get_options rs acc s = (v, s') \<Longrightarrow> sr_is_open s' = sr_is_open s \<and> sr_name s' = sr_name s"
  by (induction rs acc s arbitrary: v s' rule: serial_get_options.induct)
    (auto simp: serial_get_option_def serial_fail_def serial_call_def split: sum.splits if_splits)

lemma serials_get_config_ok:
  assumes "serials_ok m" "serials_get_config rs p m = (v, m')" "om_find m p \<noteq> None"
  shows "serials_ok m' \<and> length m' = length m \<and> om_find m' p \<noteq> None"
proof -
  obtain s where s: "om_find m p = Some s" using assms(3) by auto
  obtain w s' where g: "serial_get_options [rs 0, rs 1, rs 2, rs 3, rs 4] [] s = (w, s')" by force
  have m': "m' = om_set p s' m" using assms(2) s g by (simp add: serials_get_config_def)
  have ok: "om_ok m" using assms(1) by (simp add: serials_ok_def)
  have "sr_is_open s' \<and> sr_name s' = p"
    using serial_get_options_sel [OF g] serials_ok_find [OF assms(1) s] by simp
  then show ?thesis
    using assms(1,3) ok m' by (simp add: serials_ok_set length_om_set om_find_set)
qed

definition serial_ready :: "string \<Rightarrow> serials \<times> 'f core \<Rightarrow> bool" where
  "serial_ready nm s \<longleftrightarrow> serials_ok (fst s) \<and> factory_app (snd s) serial = Some nm"

lemma serial_ports_loop_total:
  assumes vanish: "\<And>p m c. \<lbrakk>serial_ready nm (m, c); om_find m p \<noteq> None; length m \<le> N\<rbrakk> \<Longrightarrow>
      \<exists>m' c'. vanish p (m, c) = Some (m', c') \<and> serial_ready nm (m', c') \<and> length m' \<le> length m"
    and "serial_ready nm (m, c)" "length m \<le> N"
  shows "\<exists>js m' c'. serial_ports_loop L os vanish ps (m, c) = Some (js, m', c') \<and>
    serial_ready nm (m', c') \<and> length m' \<le> length m"
  using assms(2,3)
proof (induction ps arbitrary: m c)
  case (Cons p ps)
  have "\<exists>cfg m1 c1. (if \<not> serials_is_open m p then Some (None, m, c)
        else (case serials_get_config (so_options os p) p m of
            (Inr v, m) \<Rightarrow> Some (Some v, m, c)
          | (Inl ec, m) \<Rightarrow>
              if vanished ec
              then do { (m, c) \<leftarrow> vanish p (m, c); Some (None, m, c) }
              else Some (None, m, c))) = Some (cfg, m1, c1) \<and>
      serial_ready nm (m1, c1) \<and> length m1 \<le> length m"
  proof (cases "serials_is_open m p")
    case True
    then have f: "om_find m p \<noteq> None" by (auto simp: serials_is_open_def split: option.splits)
    obtain v m1 where g: "serials_get_config (so_options os p) p m = (v, m1)" by force
    then have m1: "serial_ready nm (m1, c)" "length m1 = length m" "om_find m1 p \<noteq> None"
      using serials_get_config_ok [OF _ g f] Cons.prems by (auto simp: serial_ready_def)
    then obtain m2 c2 where "vanish p (m1, c) = Some (m2, c2)" "serial_ready nm (m2, c2)"
      "length m2 \<le> length m"
      using vanish [OF m1(1,3)] Cons.prems(2) by auto
    then show ?thesis using True g m1 by (cases v) auto
  qed (use Cons.prems in auto)
  then obtain cfg m1 c1 where h: "(if \<not> serials_is_open m p then Some (None, m, c)
        else (case serials_get_config (so_options os p) p m of
            (Inr v, m) \<Rightarrow> Some (Some v, m, c)
          | (Inl ec, m) \<Rightarrow>
              if vanished ec
              then do { (m, c) \<leftarrow> vanish p (m, c); Some (None, m, c) }
              else Some (None, m, c))) = Some (cfg, m1, c1)"
    "serial_ready nm (m1, c1)" "length m1 \<le> length m"
    by blast
  obtain js m' c' where "serial_ports_loop L os vanish ps (m1, c1) = Some (js, m', c')"
    "serial_ready nm (m', c')" "length m' \<le> length m1"
    using Cons.IH [OF h(2)] h(3) Cons.prems(2) by auto
  then show ?case using h by (simp add: Let_def)
qed simp

lemma serial_status_total:
  fixes c :: "'f core"
  assumes "serial_ready nm (m, c)" "length m < n" "\<not> close_vanishes os"
  shows "\<exists>m' c'. serial_status n L os (m, c) = Some (m', c') \<and> serial_ready nm (m', c') \<and>
    length m' \<le> length m"
  using assms(1,2)
proof (induction n arbitrary: m c)
  case (Suc n)
  have vanish: "\<exists>m' c'. serial_vanish os (serial_status n L os) p (m, c) = Some (m', c') \<and>
      serial_ready nm (m', c') \<and> length m' \<le> length m"
    if m: "serial_ready nm (m, c)" "om_find m p \<noteq> None" "length m \<le> n" for p m and c :: "'f core"
  proof -
    obtain s where s: "om_find m p = Some s" using m(2) by auto
    have "serial_ready nm (om_erase p m, c)" "length (om_erase p m) < n"
      "length (om_erase p m) \<le> length m"
      using m length_om_erase [OF m(2)] by (auto simp: serial_ready_def serials_ok_erase)
    with Suc.IH [of "om_erase p m" c] obtain m' c' where
      "serial_status n L os (om_erase p m, c) = Some (m', c')" "serial_ready nm (m', c')"
      "length m' \<le> length m" by auto
    then show ?thesis
      using s assms(3) by (simp add: serial_vanish_def serials_close_def case_prod_beta require_def)
  qed
  have "\<exists>js m' c'. serial_ports_loop L os (serial_vanish os (serial_status n L os))
      (scan_ports (so_entries os)) (m, c) = Some (js, m', c') \<and>
      serial_ready nm (m', c') \<and> length m' \<le> length m"
    by (rule serial_ports_loop_total [where N = n]) (use vanish Suc.prems in auto)
  then obtain js m' c' where "serial_ports_loop L os (serial_vanish os (serial_status n L os))
      (scan_ports (so_entries os)) (m, c) = Some (js, m', c')"
    "serial_ready nm (m', c')" "length m' \<le> length m" by blast
  then show ?case by (auto simp: create_control_doc_eq serial_ready_def)
qed simp

lemma serial_send_status_total:
  assumes "serial_ready nm s" "\<not> close_vanishes os"
  shows "\<exists>s'. serial_send_status L os s = Some s' \<and> serial_ready nm s' \<and>
    length (fst s') \<le> length (fst s)"
proof -
  obtain m c where s: "s = (m, c)" by force
  show ?thesis
    using serial_status_total [of nm m c "Suc (length m)" os L] assms s
    by (auto simp: serial_send_status_def)
qed


text \<open>The depth of nested callbacks does not matter once it is enough.\<close>

lemma serial_ports_loop_mono:
  assumes "\<And>p s r. v1 p s = Some r \<Longrightarrow> v2 p s = Some r"
  shows "serial_ports_loop L os v1 ps s = Some r \<Longrightarrow> serial_ports_loop L os v2 ps s = Some r"
proof (induction ps arbitrary: s r)
  case (Cons p ps)
  obtain m c where s: "s = (m, c)" by force
  show ?case
  proof (cases "serials_is_open m p")
    case True
    obtain v m1 where g: "serials_get_config (so_options os p) p m = (v, m1)" by force
    show ?thesis
      using Cons s True g
      by (cases v) (auto simp: bind_Some_iff dest!: assms split: if_splits)
  qed (use Cons s in \<open>auto simp: bind_Some_iff\<close>)
qed simp

lemma serial_vanish_mono:
  assumes "\<And>s r. f s = Some r \<Longrightarrow> g s = Some r"
  shows "serial_vanish os f p s = Some r \<Longrightarrow> serial_vanish os g p s = Some r"
  using assms by (auto simp: serial_vanish_def bind_Some_iff split: prod.splits)

lemma serial_status_Suc:
  fixes s :: "serials \<times> 'f core"
  shows "serial_status n L os s = Some r \<Longrightarrow> serial_status (Suc n) L os s = Some r"
proof (induction n arbitrary: s r)
  case (Suc n)
  have v: "serial_vanish os (serial_status n L os) p s = Some r \<Longrightarrow>
      serial_vanish os (serial_status (Suc n) L os) p s = Some r"
    for p r and s :: "serials \<times> 'f core"
    by (rule serial_vanish_mono [OF Suc.IH])
  obtain ports m c msg c' where h: "serial_ports_loop L os (serial_vanish os (serial_status n L os))
      (scan_ports (so_entries os)) s = Some (ports, m, c)"
    "create_control_doc L serial status (jd_object L [(''ports'', jd_array L ports)]) c = Some (msg, c')"
    "r = (m, emit (Write_All_Same (Byte_Array_of msg)) c')"
    using Suc.prems by (auto simp: bind_Some_iff)
  have "serial_ports_loop L os (serial_vanish os (serial_status (Suc n) L os))
      (scan_ports (so_entries os)) s = Some (ports, m, c)"
    by (rule serial_ports_loop_mono [OF v h(1)])
  then show ?case
    using h(2,3) by (subst serial_status.simps) (simp del: serial_status.simps)
qed simp

lemma serial_status_mono:
  "\<lbrakk>serial_status n L os s = Some r; n \<le> k\<rbrakk> \<Longrightarrow> serial_status k L os s = Some r"
  by (induction k arbitrary: n) (auto simp: le_Suc_eq intro: serial_status_Suc simp del: serial_status.simps)

section \<open>Properties\<close>


definition serial_core :: "unit core" where
  "serial_core = (core_init (\<lambda>_. 0))\<lparr>c_apps :=
     [(serial, \<lparr>app_id = serial, app_name = Some ''serial'', app_func = None\<rparr>)]\<rparr>"

definition serial_demo :: serials where
  "serial_demo = fst (snd (serials_open None None ''/dev/ttyUSB0'' 9600 []))"

definition serial_gone :: serial_os where
  "serial_gone = \<lparr>so_open = None, so_baud = None, so_close = None, so_config = (\<lambda>_. None),
     so_options = (\<lambda>_ _. Inl no_such_file_or_directory), so_entries = Some [''ttyUSB0'']\<rparr>"


text \<open>
  An open request for a serial port whose character size the serial port library
  refuses passes the guards of the parser, whose conversion then throws: the request ends
  the program instead of being reported as malformed, and no other well-formed request
  does so in the parser.
\<close>

theorem serial_config_char_size:
  assumes "check_serial_config_message L doc = Some True" "jd_find L doc DATA_KEY = Some d"
    "jd_find L d ''char_size'' = Some v"
    and "md_type md = control_type" "md_control md = Some open_c"
  shows "(parser_serial_config L char_ok doc = None \<longleftrightarrow> \<not> char_ok (jd_get_uint L v)) \<and>
    (char_ok (jd_get_uint L v) \<or> serial_app L char_ok os ws md doc s = None)"
proof -
  have p: "parser_serial_config L char_ok doc = None \<longleftrightarrow> \<not> char_ok (jd_get_uint L v)"
    by (rule parser_serial_config_char_size [OF assms(1-3)])
  then have "serial_open_request L char_ok os ws doc s = None" if "\<not> char_ok (jd_get_uint L v)"
    using that by (simp add: serial_open_request_def case_prod_beta)
  with p assms(4,5) show ?thesis by (auto simp: serial_app_def)
qed

definition serial_bad_open :: jval where
  "serial_bad_open = JObj [(''data'', JObj [(''port'', JStr ''/dev/ttyUSB0''), (''baudrate'', JNum 9600),
     (''parity'', JNum 0), (''stopbit'', JNum 0), (''char_size'', JNum 9), (''flow_control'', JNum 0),
     (''fc_start'', JNum 0), (''fc_stop'', JNum 0)])]"

theorem serial_config_char_size_witness:
  "serial_app jv_net (\<lambda>n. 5 \<le> n \<and> n \<le> 8) serial_gone 0
     \<lparr>md_app = serial, md_time = 0, md_type = control_type, md_control = Some open_c\<rparr>
     serial_bad_open (serial_demo, serial_core) = None"
proof -
  have c: "check_serial_config_message jv_net serial_bad_open = Some True"
    by (simp add: check_serial_config_True serial_bad_open_def DATA_KEY_def)
  have d: "jd_find jv_net serial_bad_open DATA_KEY = Some (snd (hd (jv_members serial_bad_open)))"
    "jd_find jv_net (snd (hd (jv_members serial_bad_open))) ''char_size'' = Some (JNum 9)"
    by (simp_all add: serial_bad_open_def DATA_KEY_def)
  from serial_config_char_size [OF c d, of
      "\<lparr>md_app = serial, md_time = 0, md_type = control_type, md_control = Some open_c\<rparr>"
      "\<lambda>n. 5 \<le> n \<and> n \<le> 8" serial_gone 0 "(serial_demo, serial_core)"]
  show ?thesis by simp
qed

end
