(* ===== verification/Udp_Sockets.thy ===== *)
theory Udp_Sockets
  imports Write_Queue Endpoint
begin

text \<open>
  The UDP sockets, \<open>udp_client/impl/client_base_impl.hpp\<close> and
  \<open>udp_server/impl/server_base_impl.hpp\<close> of \<open>src/src/libs/my_async/include/my_async\<close>.
  The client keeps one \<open>endpoint_\<close>: \<open>open\<close> sets it, \<open>do_write\<close> sends to it, and
  \<open>async_receive_from\<close> overwrites it with the sender of each datagram.  The server
  keeps the destination in the queue.
\<close>

section \<open>Client\<close>

record 'a udp_client_socket =
  uc_local :: "'a endpoint"
  uc_endpoint :: "'a endpoint"
  uc_posted :: "byte_array list"
  uc_queue :: "byte_array list"
  uc_writes :: "('a endpoint \<times> byte_array) list"
  uc_reads :: nat
  uc_is_open :: bool
  uc_log :: "callback list"

definition udp_client_call :: "callback list \<Rightarrow> 'a udp_client_socket \<Rightarrow> 'a udp_client_socket" where
  "udp_client_call cs s = s\<lparr>uc_log := uc_log s @ cs\<rparr>"

definition udp_client_do_read :: "'a udp_client_socket \<Rightarrow> 'a udp_client_socket" where
  "udp_client_do_read s = s\<lparr>uc_reads := uc_reads s + 1\<rparr>"

definition udp_client_open :: "'a endpoint \<Rightarrow> 'a udp_client_socket \<Rightarrow> 'a udp_client_socket" where
  "udp_client_open ep s =
     udp_client_do_read (udp_client_call [On_Open] (s\<lparr>uc_endpoint := ep\<rparr>))"

text \<open>The error code \<open>close\<close> passes on is the one \<open>socket_.close\<close> leaves in it.\<close>

definition udp_client_close :: "error_code \<Rightarrow> 'a udp_client_socket \<Rightarrow> 'a udp_client_socket" where
  "udp_client_close closed s = udp_client_call [On_Close closed] (s\<lparr>uc_is_open := False\<rparr>)"

definition udp_client_fail ::
  "error_code \<Rightarrow> string \<Rightarrow> error_code \<Rightarrow> 'a udp_client_socket \<Rightarrow> 'a udp_client_socket" where
  "udp_client_fail ec what closed s =
     (if ec = operation_aborted \<or> ec = bad_descriptor then s
      else udp_client_close closed (udp_client_call [On_Error ec what] s))"

definition udp_client_on_read ::
  "error_code option \<Rightarrow> 'a endpoint \<Rightarrow> byte_array \<Rightarrow> error_code
     \<Rightarrow> 'a udp_client_socket \<Rightarrow> 'a udp_client_socket" where
  "udp_client_on_read r sender buffer closed s =
     (let s = s\<lparr>uc_reads := uc_reads s - 1\<rparr> in
      case r of Some ec \<Rightarrow> udp_client_fail ec ''read'' closed s
      | None \<Rightarrow> udp_client_do_read
          (udp_client_call [Read_Handler buffer] (s\<lparr>uc_endpoint := sender\<rparr>)))"

definition udp_client_write :: "byte_array \<Rightarrow> 'a udp_client_socket \<Rightarrow> 'a udp_client_socket" where
  "udp_client_write data s = s\<lparr>uc_posted := uc_posted s @ [data]\<rparr>"

definition udp_client_do_write :: "'a udp_client_socket \<Rightarrow> 'a udp_client_socket" where
  "udp_client_do_write s =
     s\<lparr>uc_writes := uc_writes s @ map (Pair (uc_endpoint s)) (take 1 (uc_queue s))\<rparr>"

definition udp_client_writing :: "byte_array \<Rightarrow> 'a udp_client_socket \<Rightarrow> 'a udp_client_socket" where
  "udp_client_writing data s =
     (let s = s\<lparr>uc_queue := uc_queue s @ [data]\<rparr> in
      if length (uc_queue s) > 1 then s else udp_client_do_write s)"

definition udp_client_on_write ::
  "error_code option \<Rightarrow> error_code \<Rightarrow> 'a udp_client_socket \<Rightarrow> 'a udp_client_socket" where
  "udp_client_on_write r closed s =
     (let s = s\<lparr>uc_writes := tl (uc_writes s)\<rparr> in
      case r of Some ec \<Rightarrow> udp_client_fail ec ''write'' closed s
      | None \<Rightarrow>
         (let s = s\<lparr>uc_queue := tl (uc_queue s)\<rparr> in
          if uc_queue s \<noteq> [] then udp_client_do_write s else s))"

section \<open>Server\<close>

record 'a udp_server_socket =
  us_local :: "'a endpoint"
  us_endpoint :: "'a endpoint"
  us_posted :: "('a endpoint \<times> byte_array) list"
  us_queue :: "('a endpoint \<times> byte_array) list"
  us_writes :: "('a endpoint \<times> byte_array) list"
  us_reads :: nat
  us_is_open :: bool
  us_log :: "callback list"

definition udp_server_call :: "callback list \<Rightarrow> 'a udp_server_socket \<Rightarrow> 'a udp_server_socket" where
  "udp_server_call cs s = s\<lparr>us_log := us_log s @ cs\<rparr>"

definition udp_server_do_read :: "'a udp_server_socket \<Rightarrow> 'a udp_server_socket" where
  "udp_server_do_read s = s\<lparr>us_reads := us_reads s + 1\<rparr>"

text \<open>
  \<open>open\<close>: the throwing \<open>socket_.open\<close> (its failure leaves the \<open>noexcept\<close> function),
  then \<open>bind\<close>, whose error is returned and leaves the socket open and silent.
\<close>

definition udp_server_open ::
  "bool \<Rightarrow> error_code option \<Rightarrow> 'a endpoint \<Rightarrow> 'a udp_server_socket
     \<Rightarrow> (error_code option \<times> 'a udp_server_socket) option" where
  "udp_server_open opened bind_r ep s = do {
     require opened;
     let s = s\<lparr>us_is_open := True\<rparr>;
     case bind_r of Some ec \<Rightarrow> Some (Some ec, s)
     | None \<Rightarrow> Some (None,
         udp_server_do_read (udp_server_call [On_Open] (s\<lparr>us_local := ep\<rparr>))) }"

definition udp_server_close :: "error_code \<Rightarrow> 'a udp_server_socket \<Rightarrow> 'a udp_server_socket" where
  "udp_server_close closed s = udp_server_call [On_Close closed] (s\<lparr>us_is_open := False\<rparr>)"

definition udp_server_fail ::
  "error_code \<Rightarrow> string \<Rightarrow> error_code \<Rightarrow> 'a udp_server_socket \<Rightarrow> 'a udp_server_socket" where
  "udp_server_fail ec what closed s =
     (if ec = operation_aborted \<or> ec = bad_descriptor then s
      else udp_server_close closed (udp_server_call [On_Error ec what] s))"

definition udp_server_on_read ::
  "error_code option \<Rightarrow> 'a endpoint \<Rightarrow> byte_array \<Rightarrow> error_code
     \<Rightarrow> 'a udp_server_socket \<Rightarrow> 'a udp_server_socket" where
  "udp_server_on_read r sender buffer closed s =
     (let s = s\<lparr>us_reads := us_reads s - 1\<rparr> in
      case r of Some ec \<Rightarrow> udp_server_fail ec ''read'' closed s
      | None \<Rightarrow> udp_server_do_read
          (udp_server_call [Read_Handler buffer] (s\<lparr>us_endpoint := sender\<rparr>)))"

definition udp_server_write ::
  "'a endpoint \<Rightarrow> byte_array \<Rightarrow> 'a udp_server_socket \<Rightarrow> 'a udp_server_socket" where
  "udp_server_write ep data s = s\<lparr>us_posted := us_posted s @ [(ep, data)]\<rparr>"

definition udp_server_do_write :: "'a udp_server_socket \<Rightarrow> 'a udp_server_socket" where
  "udp_server_do_write s = s\<lparr>us_writes := us_writes s @ take 1 (us_queue s)\<rparr>"

definition udp_server_writing ::
  "'a endpoint \<times> byte_array \<Rightarrow> 'a udp_server_socket \<Rightarrow> 'a udp_server_socket" where
  "udp_server_writing p s =
     (let s = s\<lparr>us_queue := us_queue s @ [p]\<rparr> in
      if length (us_queue s) > 1 then s else udp_server_do_write s)"

definition udp_server_on_write ::
  "error_code option \<Rightarrow> error_code \<Rightarrow> 'a udp_server_socket \<Rightarrow> 'a udp_server_socket" where
  "udp_server_on_write r closed s =
     (let s = s\<lparr>us_writes := tl (us_writes s)\<rparr> in
      case r of Some ec \<Rightarrow> udp_server_fail ec ''write'' closed s
      | None \<Rightarrow>
         (let s = s\<lparr>us_queue := tl (us_queue s)\<rparr> in
          if us_queue s \<noteq> [] then udp_server_do_write s else s))"

section \<open>Lemmas\<close>

lemmas udp_client_defs =
  udp_client_call_def udp_client_do_read_def udp_client_open_def udp_client_close_def
  udp_client_fail_def udp_client_on_read_def udp_client_write_def udp_client_do_write_def
  udp_client_writing_def udp_client_on_write_def Let_def

lemmas udp_server_defs =
  udp_server_call_def udp_server_do_read_def udp_server_open_def udp_server_close_def
  udp_server_fail_def udp_server_on_read_def udp_server_write_def udp_server_do_write_def
  udp_server_writing_def udp_server_on_write_def Let_def

interpretation udp_client_wq: write_queue uc_queue "\<lambda>s. map snd (uc_writes s)"
  udp_client_writing "udp_client_on_write None closed" for closed
proof
  fix d and s :: "'a udp_client_socket"
  show "uc_queue (udp_client_writing d s) = uc_queue s @ [d]"
    by (simp add: udp_client_defs)
  show "map snd (uc_writes (udp_client_writing d s)) =
      map snd (uc_writes s) @ (if uc_queue s = [] then [d] else [])"
    by (cases "uc_queue s") (simp_all add: udp_client_defs)
  show "uc_queue (udp_client_on_write None closed s) = tl (uc_queue s)"
    by (simp add: udp_client_defs)
  show "map snd (uc_writes (udp_client_on_write None closed s)) =
      tl (map snd (uc_writes s)) @ take 1 (tl (uc_queue s))"
    by (cases "tl (uc_queue s)") (simp_all add: udp_client_defs map_tl)
qed

interpretation udp_server_wq: write_queue us_queue us_writes
  udp_server_writing "udp_server_on_write None closed" for closed
proof
  fix d and s :: "'a udp_server_socket"
  show "us_queue (udp_server_writing d s) = us_queue s @ [d]"
    by (simp add: udp_server_defs)
  show "us_writes (udp_server_writing d s) = us_writes s @ (if us_queue s = [] then [d] else [])"
    by (cases "us_queue s") (simp_all add: udp_server_defs)
  show "us_queue (udp_server_on_write None closed s) = tl (us_queue s)"
    by (simp add: udp_server_defs)
  show "us_writes (udp_server_on_write None closed s) =
      tl (us_writes s) @ take 1 (tl (us_queue s))"
    by (simp add: udp_server_defs)
qed

text \<open>Where a write of the client goes: the endpoint at the time the write starts.\<close>

lemma udp_client_write_target:
  assumes "uc_queue s = []" "uc_writes s = []"
  shows "uc_writes (udp_client_writing d s) = [(uc_endpoint s, d)]"
  using assms by (simp add: udp_client_defs)

lemma udp_client_read_retargets:
  "uc_endpoint (udp_client_on_read None sender b closed s) = sender"
  by (simp add: udp_client_defs)

section \<open>Properties\<close>



text \<open>
  C28: A UDP server sends every datagram to the endpoint it was queued for: from an idle
  socket, any sequence of writes and successful completions sends a prefix of the queued
  pairs of endpoint and data, in order, and the rest stays queued.
\<close>

theorem udp_server_fifo:
  assumes "us_queue s = []" "us_writes s = []"
    "udp_server_wq.run closed es s = (s', sent)"
  shows "udp_server_wq.handed es = sent @ us_queue s' \<and> us_writes s' = take 1 (us_queue s')"
proof -
  have inv: "udp_server_wq.wq_inv s" using assms by (simp add: udp_server_wq.wq_inv_def)
  have "udp_server_wq.handed es = sent @ us_queue s'"
    using udp_server_wq.run_fifo [OF inv assms(3)] assms(1) by simp
  moreover have "us_writes s' = take 1 (us_queue s')"
    using udp_server_wq.run_inv [OF inv, of closed es] assms(3)
    by (simp add: udp_server_wq.wq_inv_def)
  ultimately show ?thesis by blast
qed

definition us_idle :: "nat udp_server_socket" where
  "us_idle = \<lparr>us_local = Endpoint 1 3000, us_endpoint = Endpoint 1 3000, us_posted = [],
     us_queue = [], us_writes = [], us_reads = 1, us_is_open = True, us_log = []\<rparr>"

theorem udp_server_fifo_witness:
  "udp_server_wq.handed [Some (Endpoint (2 :: nat) 5000, [1]), Some (Endpoint 3 6000, [2]), None] =
    snd (udp_server_wq.run bad_descriptor
      [Some (Endpoint 2 5000, [1]), Some (Endpoint 3 6000, [2]), None] us_idle) @
    us_queue (fst (udp_server_wq.run bad_descriptor
      [Some (Endpoint 2 5000, [1]), Some (Endpoint 3 6000, [2]), None] us_idle))"
proof -
  have "us_queue us_idle = []" "us_writes us_idle = []" by (simp_all add: us_idle_def)
  from udp_server_fifo [OF this prod.collapse [symmetric]] show ?thesis by blast
qed

end
