(* ===== verification/Udp_Json.thy ===== *)
theory Udp_Json
  imports Endpoint
begin

text \<open>
  The messages of the two UDP applications: \<open>src/src/apps/udp_client/json\<close> and
  \<open>src/src/apps/udp_server/json\<close> with the structures of their \<open>types.hpp\<close>.  The
  client's parser cuts the port of an open request to 16 bits before it tests it;
  the server's parser tests the port it was sent.
\<close>

section \<open>The client's structures and parsers\<close>

record 'a uc_Open =
  uco_remote :: "'a endpoint"

record 'a uc_Close =
  ucc_local :: "'a endpoint"

record 'a uc_Data =
  ucd_local :: "'a endpoint"
  ucd_data :: byte_array

definition udp_client_check_data :: "('j, 'z) lib_scheme \<Rightarrow> 'j \<Rightarrow> bool option" where
  "udp_client_check_data L doc = do {
     ok \<leftarrow> has_with L doc DATA_KEY (jd_is_object L);
     if \<not> ok then Some False else do {
     d \<leftarrow> member_of L doc DATA_KEY;
     ok \<leftarrow> has_with L d ''data'' (\<lambda>v. jd_is_object L v \<or> jd_is_string L v);
     if \<not> ok then Some False else do {
     ok \<leftarrow> has_with L d ''local'' (jd_is_object L);
     if \<not> ok then Some False else do {
     local \<leftarrow> member_of L d ''local'';
     check_endpoint L local } } } }"

definition udp_client_get_data ::
  "('j, 'a, 'z) net_lib_scheme \<Rightarrow> 'j \<Rightarrow> 'a uc_Data option option" where
  "udp_client_get_data L doc = do {
     local \<leftarrow> member_of L doc ''local'';
     ep \<leftarrow> read_endpoint L local;
     case ep of None \<Rightarrow> Some None | Some e \<Rightarrow> do {
     bytes \<leftarrow> read_payload L doc ''data'';
     Some (Some \<lparr>ucd_local = e, ucd_data = bytes\<rparr>) } }"

definition udp_client_parser_data ::
  "('j, 'a, 'z) net_lib_scheme \<Rightarrow> 'j \<Rightarrow> 'a uc_Data option option" where
  "udp_client_parser_data L doc = do {
     ok \<leftarrow> udp_client_check_data L doc;
     if \<not> ok then Some None else do {
     d \<leftarrow> member_of L doc DATA_KEY;
     udp_client_get_data L d } }"

definition udp_client_check_open :: "('j, 'z) lib_scheme \<Rightarrow> 'j \<Rightarrow> bool option" where
  "udp_client_check_open L doc = do {
     ok \<leftarrow> has_with L doc DATA_KEY (jd_is_object L);
     if \<not> ok then Some False else do {
     d \<leftarrow> member_of L doc DATA_KEY;
     check_endpoint_port_first L d } }"

definition udp_client_get_open ::
  "('j, 'a, 'z) net_lib_scheme \<Rightarrow> 'j \<Rightarrow> 'a uc_Open option option" where
  "udp_client_get_open L doc = do {
     ep \<leftarrow> read_endpoint_16 L doc;
     Some (map_option (\<lambda>e. \<lparr>uco_remote = e\<rparr>) ep) }"

definition udp_client_parser_open ::
  "('j, 'a, 'z) net_lib_scheme \<Rightarrow> 'j \<Rightarrow> 'a uc_Open option option" where
  "udp_client_parser_open L doc = do {
     ok \<leftarrow> udp_client_check_open L doc;
     if \<not> ok then Some None else do {
     d \<leftarrow> member_of L doc DATA_KEY;
     udp_client_get_open L d } }"

definition udp_client_check_close :: "('j, 'z) lib_scheme \<Rightarrow> 'j \<Rightarrow> bool option" where
  "udp_client_check_close L doc = do {
     ok \<leftarrow> has_with L doc DATA_KEY (jd_is_object L);
     if \<not> ok then Some False else do {
     d \<leftarrow> member_of L doc DATA_KEY;
     check_endpoint_port_first L d } }"

definition udp_client_get_close ::
  "('j, 'a, 'z) net_lib_scheme \<Rightarrow> 'j \<Rightarrow> 'a uc_Close option option" where
  "udp_client_get_close L doc = do {
     ep \<leftarrow> read_endpoint L doc;
     Some (map_option (\<lambda>e. \<lparr>ucc_local = e\<rparr>) ep) }"

definition udp_client_parser_close ::
  "('j, 'a, 'z) net_lib_scheme \<Rightarrow> 'j \<Rightarrow> 'a uc_Close option option" where
  "udp_client_parser_close L doc = do {
     ok \<leftarrow> udp_client_check_close L doc;
     if \<not> ok then Some None else do {
     d \<leftarrow> member_of L doc DATA_KEY;
     udp_client_get_close L d } }"

section \<open>The client's messages\<close>

text \<open>\<open>eps\<close> is what \<open>clients->endpoints()\<close> returns: pairs of local and remote.\<close>

definition udp_client_make_status_message ::
  "('j, 'a, 'z) net_lib_scheme \<Rightarrow> ('a endpoint \<times> 'a endpoint) list \<Rightarrow> 'f core \<Rightarrow> 'f message"
where
  "udp_client_make_status_message L eps c =
     create_control_doc L udp_client status
       (jd_array L (map (\<lambda>(local, remote). jd_object L
          [(''local'', endpoint_object L local), (''remote'', endpoint_object L remote)]) eps)) c"

definition udp_client_make_received_message ::
  "('j, 'a, 'z) net_lib_scheme \<Rightarrow> 'a endpoint \<Rightarrow> byte_array \<Rightarrow> 'f core \<Rightarrow> 'f message" where
  "udp_client_make_received_message L local data c =
     create_data_value L udp_client
       (jd_object L [(''local'', endpoint_object L local), (''data'', bytes_array L data)]) c"

section \<open>The server's structures and parsers\<close>

record 'a us_Open =
  uso_ep :: "'a endpoint"

record 'a us_Close =
  usc_ep :: "'a endpoint"

record 'a us_Data =
  usd_from :: "'a endpoint"
  usd_to :: "'a endpoint list"
  usd_data :: byte_array

definition udp_server_check_data :: "('j, 'z) lib_scheme \<Rightarrow> 'j \<Rightarrow> bool option" where
  "udp_server_check_data L doc = do {
     ok \<leftarrow> has_with L doc DATA_KEY (jd_is_object L);
     if \<not> ok then Some False else do {
     d \<leftarrow> member_of L doc DATA_KEY;
     check_from_to L d } }"

definition udp_server_get_data ::
  "('j, 'a, 'z) net_lib_scheme \<Rightarrow> 'j \<Rightarrow> 'a us_Data option option" where
  "udp_server_get_data L doc = do {
     ft \<leftarrow> read_from_to L doc;
     case ft of None \<Rightarrow> Some None | Some (from, to) \<Rightarrow> do {
     bytes \<leftarrow> read_payload L doc ''data'';
     Some (Some \<lparr>usd_from = from, usd_to = to, usd_data = bytes\<rparr>) } }"

definition udp_server_parser_data ::
  "('j, 'a, 'z) net_lib_scheme \<Rightarrow> 'j \<Rightarrow> 'a us_Data option option" where
  "udp_server_parser_data L doc = do {
     ok \<leftarrow> udp_server_check_data L doc;
     if \<not> ok then Some None else do {
     d \<leftarrow> member_of L doc DATA_KEY;
     udp_server_get_data L d } }"

definition udp_server_check_open :: "('j, 'z) lib_scheme \<Rightarrow> 'j \<Rightarrow> bool option" where
  "udp_server_check_open L doc = do {
     ok \<leftarrow> has_with L doc DATA_KEY (jd_is_object L);
     if \<not> ok then Some False else do {
     d \<leftarrow> member_of L doc DATA_KEY;
     check_endpoint_port_first L d } }"

definition udp_server_get_open ::
  "('j, 'a, 'z) net_lib_scheme \<Rightarrow> 'j \<Rightarrow> 'a us_Open option option" where
  "udp_server_get_open L doc = do {
     ep \<leftarrow> read_endpoint L doc;
     Some (map_option (\<lambda>e. \<lparr>uso_ep = e\<rparr>) ep) }"

definition udp_server_parser_open ::
  "('j, 'a, 'z) net_lib_scheme \<Rightarrow> 'j \<Rightarrow> 'a us_Open option option" where
  "udp_server_parser_open L doc = do {
     ok \<leftarrow> udp_server_check_open L doc;
     if \<not> ok then Some None else do {
     d \<leftarrow> member_of L doc DATA_KEY;
     udp_server_get_open L d } }"

definition udp_server_check_close :: "('j, 'z) lib_scheme \<Rightarrow> 'j \<Rightarrow> bool option" where
  "udp_server_check_close L doc = do {
     ok \<leftarrow> has_with L doc DATA_KEY (jd_is_object L);
     if \<not> ok then Some False else do {
     d \<leftarrow> member_of L doc DATA_KEY;
     check_endpoint_port_first L d } }"

definition udp_server_get_close ::
  "('j, 'a, 'z) net_lib_scheme \<Rightarrow> 'j \<Rightarrow> 'a us_Close option option" where
  "udp_server_get_close L doc = do {
     ep \<leftarrow> read_endpoint L doc;
     Some (map_option (\<lambda>e. \<lparr>usc_ep = e\<rparr>) ep) }"

definition udp_server_parser_close ::
  "('j, 'a, 'z) net_lib_scheme \<Rightarrow> 'j \<Rightarrow> 'a us_Close option option" where
  "udp_server_parser_close L doc = do {
     ok \<leftarrow> udp_server_check_close L doc;
     if \<not> ok then Some None else do {
     d \<leftarrow> member_of L doc DATA_KEY;
     udp_server_get_close L d } }"

section \<open>The server's messages\<close>

definition udp_server_make_status_message ::
  "('j, 'a, 'z) net_lib_scheme \<Rightarrow> 'a endpoint list \<Rightarrow> 'f core \<Rightarrow> 'f message" where
  "udp_server_make_status_message L eps c =
     create_control_doc L udp_server status
       (jd_object L [(''list'', jd_array L (map (endpoint_object L) eps))]) c"

text \<open>The parameters are in the order of the declaration: \<open>to\<close> before \<open>from\<close>.\<close>

definition udp_server_make_received_message ::
  "('j, 'a, 'z) net_lib_scheme \<Rightarrow> 'a endpoint \<Rightarrow> 'a endpoint \<Rightarrow> byte_array \<Rightarrow> 'f core
     \<Rightarrow> 'f message" where
  "udp_server_make_received_message L to from data c =
     create_data_value L udp_server
       (jd_object L [(''from'', endpoint_object L from), (''to'', endpoint_object L to),
         (''data'', bytes_array L data)]) c"

section \<open>Lemmas\<close>

text \<open>A parser that enters \<open>data\<close>, guards an endpoint and reads it.\<close>

lemma endpoint_parser_total:
  assumes "jd_is_object L doc"
    and check: "check = (do { ok \<leftarrow> has_with L doc DATA_KEY (jd_is_object L);
      if \<not> ok then Some False else do {
      d \<leftarrow> member_of L doc DATA_KEY; check_endpoint_port_first L d } })"
    and get: "\<And>d. check_endpoint_port_first L d = Some True \<Longrightarrow> \<exists>r. get d = Some r"
  shows "\<exists>r. (do { ok \<leftarrow> check; if \<not> ok then Some None else do {
      d \<leftarrow> member_of L doc DATA_KEY; get d } }) = Some r"
proof (intro guarded_total)
  show "\<exists>b. check = Some b"
    unfolding check by (intro under_object_total assms(1) check_endpoint_total)
next
  assume "check = Some True"
  then obtain d where "jd_find L doc DATA_KEY = Some d" "check_endpoint_port_first L d = Some True"
    unfolding check guard_simps by (elim exE conjE)
  then show "\<exists>r. member_of L doc DATA_KEY \<bind> get = Some r"
    using get [of d] assms(1) by (simp add: member_of_def)
qed

lemma bind_Some_total: "\<exists>r. m = Some r \<Longrightarrow> \<exists>r. m \<bind> (\<lambda>x. Some (f x)) = Some r"
  by auto

lemma udp_parsers_total:
  assumes "jd_is_object L doc"
  shows "\<exists>r. udp_client_parser_open L doc = Some r" "\<exists>r. udp_client_parser_close L doc = Some r"
    "\<exists>r. udp_server_parser_open L doc = Some r" "\<exists>r. udp_server_parser_close L doc = Some r"
proof -
  show "\<exists>r. udp_client_parser_open L doc = Some r"
    unfolding udp_client_parser_open_def
    by (intro endpoint_parser_total [OF assms udp_client_check_open_def])
      (simp add: udp_client_get_open_def bind_Some_total read_endpoint_total)
  show "\<exists>r. udp_client_parser_close L doc = Some r"
    unfolding udp_client_parser_close_def
    by (intro endpoint_parser_total [OF assms udp_client_check_close_def])
      (simp add: udp_client_get_close_def bind_Some_total read_endpoint_total)
  show "\<exists>r. udp_server_parser_open L doc = Some r"
    unfolding udp_server_parser_open_def
    by (intro endpoint_parser_total [OF assms udp_server_check_open_def])
      (simp add: udp_server_get_open_def bind_Some_total read_endpoint_total)
  show "\<exists>r. udp_server_parser_close L doc = Some r"
    unfolding udp_server_parser_close_def
    by (intro endpoint_parser_total [OF assms udp_server_check_close_def])
      (simp add: udp_server_get_close_def bind_Some_total read_endpoint_total)
qed

lemma udp_server_check_data_fault:
  assumes "jd_is_object L doc" "jd_find L doc DATA_KEY = Some d" "jd_is_object L d"
  shows "udp_server_check_data L doc = None \<longleftrightarrow>
    \<not> (\<exists>t. jd_find L d ''to'' = Some t \<and> jd_is_array L t)"
  using assms check_from_to_fault [of L d]
  by (simp add: udp_server_check_data_def has_with_object member_of_def)

lemma udp_client_parser_ports:
  "udp_client_parser_open L doc = Some (Some m) \<Longrightarrow> 1024 < uint (ep_port (uco_remote m))"
  "udp_client_parser_close L doc = Some (Some k) \<Longrightarrow> 1024 < uint (ep_port (ucc_local k))"
  "udp_client_parser_data L doc = Some (Some b) \<Longrightarrow> 1024 < uint (ep_port (ucd_local b))"
  using read_endpoint_port read_endpoint_16_port
  by (auto simp: udp_client_parser_open_def udp_client_get_open_def udp_client_parser_close_def
      udp_client_get_close_def udp_client_parser_data_def udp_client_get_data_def bind_Some_iff
      split: if_splits option.splits)

lemma udp_server_parser_ports:
  "udp_server_parser_open L doc = Some (Some m) \<Longrightarrow> 1024 < uint (ep_port (uso_ep m))"
  "udp_server_parser_close L doc = Some (Some k) \<Longrightarrow> 1024 < uint (ep_port (usc_ep k))"
  "udp_server_parser_data L doc = Some (Some b) \<Longrightarrow> 1024 < uint (ep_port (usd_from b)) \<and>
     (\<forall>e\<in>set (usd_to b). 1024 < uint (ep_port e))"
  using read_endpoint_port
  by (auto simp: udp_server_parser_open_def udp_server_get_open_def udp_server_parser_close_def
      udp_server_get_close_def udp_server_parser_data_def udp_server_get_data_def bind_Some_iff
      dest!: read_from_to_ports split: if_splits option.splits)

end
