(* ===== verification/Udp_Apps.thy ===== *)
theory Udp_Apps
  imports Udp_Sockets Udp_Json Ordered_Map
begin

text \<open>
  The UDP applications: the containers of sockets keyed by local endpoint
  (\<open>udp_client/impl/simple_container_impl.hpp\<close> and
  \<open>udp_server/impl/simple_container_impl.hpp\<close> of the library), the classes that
  connect a socket to the websocket clients (\<open>udp_client_type.hpp\<close>,
  \<open>udp_server_type.cpp\<close>) and the handlers of requests (\<open>udp_client.cpp\<close>,
  \<open>udp_server.cpp\<close>).  What the operating system answers is an argument.
\<close>

section \<open>Container of UDP clients\<close>

type_synonym 'a udp_clients = "('a endpoint, 'a udp_client_socket) omap"

definition udp_client_new :: "'a endpoint \<Rightarrow> 'a udp_client_socket" where
  "udp_client_new local = \<lparr>uc_local = local, uc_endpoint = local, uc_posted = [], uc_queue = [],
     uc_writes = [], uc_reads = 0, uc_is_open = True, uc_log = []\<rparr>"

text \<open>
  \<open>open\<close>: the socket is bound by its constructor to an endpoint the system picks,
  which throws when it cannot (\<open>None\<close>); the socket is stored under that endpoint.
\<close>

definition udp_clients_open ::
  "('a :: linorder) endpoint option \<Rightarrow> 'a endpoint \<Rightarrow> 'a udp_clients \<Rightarrow> 'a udp_clients option"
where
  "udp_clients_open bound ep m = do {
     local \<leftarrow> bound;
     let client = udp_client_open ep (udp_client_new local);
     Some (om_set (uc_local client) client m) }"

definition udp_clients_close ::
  "('a :: linorder) endpoint \<Rightarrow> error_code option \<Rightarrow> 'a udp_clients
     \<Rightarrow> error_code option \<times> 'a udp_clients" where
  "udp_clients_close local_ep close_r m =
     (case om_find m local_ep of
        None \<Rightarrow> (Some not_connected, m)
      | Some client \<Rightarrow> (close_r, om_erase local_ep m))"

definition udp_clients_write ::
  "('a :: linorder) endpoint \<Rightarrow> byte_array \<Rightarrow> 'a udp_clients
     \<Rightarrow> error_code option \<times> 'a udp_clients" where
  "udp_clients_write ep data m =
     (case om_find m ep of
        None \<Rightarrow> (Some not_connected, m)
      | Some client \<Rightarrow> (None, om_set ep (udp_client_write data client) m))"

definition udp_clients_client ::
  "('a :: linorder) udp_clients \<Rightarrow> 'a endpoint \<Rightarrow> 'a udp_client_socket option" where
  "udp_clients_client m local_ep = om_find m local_ep"

text \<open>\<open>local_endpoint()\<close> throws on a closed socket.\<close>

definition udp_clients_endpoints ::
  "('a :: linorder) udp_clients \<Rightarrow> ('a endpoint \<times> 'a endpoint) list option" where
  "udp_clients_endpoints m = map_opt (\<lambda>(ep, socket). do {
     require (uc_is_open socket);
     Some (uc_local socket, uc_endpoint socket) }) m"

definition udp_clients_size :: "'a udp_clients \<Rightarrow> nat" where
  "udp_clients_size m = length m"

section \<open>Container of UDP servers\<close>

type_synonym 'a udp_servers = "('a endpoint, 'a udp_server_socket) omap"

definition udp_server_new :: "'a endpoint \<Rightarrow> 'a udp_server_socket" where
  "udp_server_new ep = \<lparr>us_local = ep, us_endpoint = ep, us_posted = [], us_queue = [],
     us_writes = [], us_reads = 0, us_is_open = False, us_log = []\<rparr>"

definition udp_servers_open ::
  "bool \<Rightarrow> error_code option \<Rightarrow> ('a :: linorder) endpoint \<Rightarrow> 'a udp_servers
     \<Rightarrow> (error_code option \<times> 'a udp_servers) option" where
  "udp_servers_open opened bind_r ep m = do {
     (ec, server) \<leftarrow> udp_server_open opened bind_r ep (udp_server_new ep);
     if ec \<noteq> None then Some (ec, m)
     else Some (None, om_set (us_local server) server m) }"

definition udp_servers_close ::
  "('a :: linorder) endpoint \<Rightarrow> error_code option \<Rightarrow> 'a udp_servers
     \<Rightarrow> error_code option \<times> 'a udp_servers" where
  "udp_servers_close local_ep close_r m =
     (case om_find m local_ep of
        None \<Rightarrow> (Some not_connected, m)
      | Some server \<Rightarrow> (close_r, om_erase local_ep m))"

definition udp_servers_write ::
  "('a :: linorder) endpoint \<Rightarrow> 'a endpoint \<Rightarrow> byte_array \<Rightarrow> 'a udp_servers
     \<Rightarrow> error_code option \<times> 'a udp_servers" where
  "udp_servers_write from to data m =
     (case om_find m from of
        None \<Rightarrow> (Some not_connected, m)
      | Some server \<Rightarrow> (None, om_set from (udp_server_write to data server) m))"

fun udp_server_write_all ::
  "'a endpoint list \<Rightarrow> byte_array \<Rightarrow> 'a udp_server_socket \<Rightarrow> 'a udp_server_socket" where
  "udp_server_write_all [] data s = s"
| "udp_server_write_all (to # tos) data s =
     udp_server_write_all tos data (udp_server_write to data s)"

definition udp_servers_write_to ::
  "('a :: linorder) endpoint \<Rightarrow> 'a endpoint list \<Rightarrow> byte_array \<Rightarrow> 'a udp_servers
     \<Rightarrow> error_code option \<times> 'a udp_servers" where
  "udp_servers_write_to from tos data m =
     (case om_find m from of
        None \<Rightarrow> (Some not_connected, m)
      | Some server \<Rightarrow> (None, om_set from (udp_server_write_all tos data server) m))"

definition udp_servers_server ::
  "('a :: linorder) udp_servers \<Rightarrow> 'a endpoint \<Rightarrow> 'a udp_server_socket option" where
  "udp_servers_server m local_ep = om_find m local_ep"

definition udp_servers_endpoints :: "'a udp_servers \<Rightarrow> 'a endpoint list" where
  "udp_servers_endpoints m = map fst m"

definition udp_servers_size :: "'a udp_servers \<Rightarrow> nat" where
  "udp_servers_size m = length m"

section \<open>What the sockets tell the websocket clients\<close>

definition udp_client_read_handler ::
  "('j, 'a, 'z) net_lib_scheme \<Rightarrow> 'a udp_client_socket \<Rightarrow> byte_array \<Rightarrow> 'f core \<Rightarrow> 'f core option"
where
  "udp_client_read_handler L s data c = do {
     require (uc_is_open s);
     (msg, c) \<leftarrow> udp_client_make_received_message L (uc_local s) data c;
     Some (emit (Write_All_Same (Byte_Array_of msg)) c) }"

definition udp_client_on_error ::
  "('j, 'z) lib_scheme \<Rightarrow> error_code \<Rightarrow> string \<Rightarrow> 'f core \<Rightarrow> 'f core option" where
  "udp_client_on_error L ec what c = fail_message_all L udp_client ec what c"

definition udp_server_read_handler ::
  "('j, 'a, 'z) net_lib_scheme \<Rightarrow> 'a udp_server_socket \<Rightarrow> byte_array \<Rightarrow> 'f core \<Rightarrow> 'f core option"
where
  "udp_server_read_handler L s data c = do {
     require (us_is_open s);
     (msg, c) \<leftarrow> udp_server_make_received_message L (us_local s) (us_endpoint s) data c;
     Some (emit (Write_All_Same (Byte_Array_of msg)) c) }"

text \<open>The error of a UDP server is reported under the name of the TCP server.\<close>

definition udp_server_on_error ::
  "('j, 'z) lib_scheme \<Rightarrow> error_code \<Rightarrow> string \<Rightarrow> 'f core \<Rightarrow> 'f core option" where
  "udp_server_on_error L ec what c = fail_message_all L tcp_server ec what c"

section \<open>The UDP client application\<close>

definition ill_formed :: error_code where
  "ill_formed = make_error_code ILL_FORMED"

definition udp_client_message_status ::
  "('j, 'a :: linorder, 'z) net_lib_scheme \<Rightarrow> 'a udp_clients \<times> 'f core
     \<Rightarrow> ('a udp_clients \<times> 'f core) option" where
  "udp_client_message_status L = (\<lambda>(m, c). do {
     eps \<leftarrow> udp_clients_endpoints m;
     (msg, c) \<leftarrow> udp_client_make_status_message L eps c;
     Some (m, emit (Write_All_Same (Byte_Array_of msg)) c) })"

text \<open>An error of the write is reported under the name of the TCP client.\<close>

definition udp_client_message_data ::
  "('j, 'a :: linorder, 'z) net_lib_scheme \<Rightarrow> nat \<Rightarrow> 'j \<Rightarrow> 'a udp_clients \<times> 'f core
     \<Rightarrow> ('a udp_clients \<times> 'f core) option" where
  "udp_client_message_data L ws doc = (\<lambda>(m, c). do {
     r \<leftarrow> udp_client_parser_data L doc;
     case r of
       None \<Rightarrow> do { c \<leftarrow> fail_message L ws udp_client ill_formed '''' c; Some (m, c) }
     | Some d \<Rightarrow>
         (case udp_clients_write (ucd_local d) (ucd_data d) m of (ec, m) \<Rightarrow>
            (case ec of None \<Rightarrow> Some (m, c)
             | Some e \<Rightarrow> do { c \<leftarrow> fail_message L ws tcp_client e '''' c; Some (m, c) })) })"

definition udp_client_message_close ::
  "('j, 'a :: linorder, 'z) net_lib_scheme \<Rightarrow> error_code option \<Rightarrow> nat \<Rightarrow> 'j
     \<Rightarrow> 'a udp_clients \<times> 'f core \<Rightarrow> ('a udp_clients \<times> 'f core) option" where
  "udp_client_message_close L close_r ws doc = (\<lambda>(m, c). do {
     r \<leftarrow> udp_client_parser_close L doc;
     case r of
       None \<Rightarrow> do { c \<leftarrow> fail_message L ws udp_client ill_formed '''' c; Some (m, c) }
     | Some d \<Rightarrow>
         (case udp_clients_close (ucc_local d) close_r m of (ec, m) \<Rightarrow>
            (case ec of None \<Rightarrow> udp_client_message_status L (m, c)
             | Some e \<Rightarrow> do { c \<leftarrow> fail_message L ws udp_client e '''' c; Some (m, c) })) })"

definition udp_client_message_open ::
  "('j, 'a :: linorder, 'z) net_lib_scheme \<Rightarrow> 'a endpoint option \<Rightarrow> nat \<Rightarrow> 'j
     \<Rightarrow> 'a udp_clients \<times> 'f core \<Rightarrow> ('a udp_clients \<times> 'f core) option" where
  "udp_client_message_open L bound ws doc = (\<lambda>(m, c). do {
     r \<leftarrow> udp_client_parser_open L doc;
     case r of
       None \<Rightarrow> do { c \<leftarrow> fail_message L ws udp_client ill_formed '''' c; Some (m, c) }
     | Some d \<Rightarrow> do {
         m \<leftarrow> udp_clients_open bound (uco_remote d) m;
         udp_client_message_status L (m, c) } })"

definition udp_client_app ::
  "('j, 'a :: linorder, 'z) net_lib_scheme \<Rightarrow> 'a endpoint option \<Rightarrow> error_code option
     \<Rightarrow> nat \<Rightarrow> Main_Data \<Rightarrow> 'j \<Rightarrow> 'a udp_clients \<times> 'f core
     \<Rightarrow> ('a udp_clients \<times> 'f core) option" where
  "udp_client_app L bound close_r ws md doc s =
     (if md_type md = control_type then do {
        con \<leftarrow> md_control md;
        case con of
          open_c \<Rightarrow> udp_client_message_open L bound ws doc s
        | close_c \<Rightarrow> udp_client_message_close L close_r ws doc s
        | status \<Rightarrow> udp_client_message_status L s
        | _ \<Rightarrow> do { c \<leftarrow> fail_message L ws udp_client ill_formed '''' (snd s); Some (fst s, c) } }
      else udp_client_message_data L ws doc s)"

section \<open>The UDP server application\<close>

definition udp_server_message_status ::
  "('j, 'a :: linorder, 'z) net_lib_scheme \<Rightarrow> 'a udp_servers \<times> 'f core
     \<Rightarrow> ('a udp_servers \<times> 'f core) option" where
  "udp_server_message_status L = (\<lambda>(m, c). do {
     (msg, c) \<leftarrow> udp_server_make_status_message L (udp_servers_endpoints m) c;
     Some (m, emit (Write_All (Byte_Array_of msg) True) c) })"

definition udp_server_message_data ::
  "('j, 'a :: linorder, 'z) net_lib_scheme \<Rightarrow> nat \<Rightarrow> 'j \<Rightarrow> 'a udp_servers \<times> 'f core
     \<Rightarrow> ('a udp_servers \<times> 'f core) option" where
  "udp_server_message_data L ws doc = (\<lambda>(m, c). do {
     r \<leftarrow> udp_server_parser_data L doc;
     case r of
       None \<Rightarrow> do { c \<leftarrow> fail_message L ws udp_server ill_formed '''' c; Some (m, c) }
     | Some d \<Rightarrow>
         (case udp_servers_write_to (usd_from d) (usd_to d) (usd_data d) m of (ec, m) \<Rightarrow>
            (case ec of None \<Rightarrow> Some (m, c)
             | Some e \<Rightarrow> do { c \<leftarrow> fail_message L ws udp_server e '''' c; Some (m, c) })) })"

definition udp_server_message_close ::
  "('j, 'a :: linorder, 'z) net_lib_scheme \<Rightarrow> error_code option \<Rightarrow> nat \<Rightarrow> 'j
     \<Rightarrow> 'a udp_servers \<times> 'f core \<Rightarrow> ('a udp_servers \<times> 'f core) option" where
  "udp_server_message_close L close_r ws doc = (\<lambda>(m, c). do {
     r \<leftarrow> udp_server_parser_close L doc;
     case r of
       None \<Rightarrow> do { c \<leftarrow> fail_message L ws udp_server ill_formed '''' c; Some (m, c) }
     | Some d \<Rightarrow>
         (case udp_servers_close (usc_ep d) close_r m of (ec, m) \<Rightarrow>
            (case ec of None \<Rightarrow> udp_server_message_status L (m, c)
             | Some e \<Rightarrow> do {
                 c \<leftarrow> fail_message L ws udp_server (make_error_code SERVER_INTERNAL_ERROR) '''' c;
                 Some (m, c) })) })"

definition udp_server_message_open ::
  "('j, 'a :: linorder, 'z) net_lib_scheme \<Rightarrow> bool \<Rightarrow> error_code option \<Rightarrow> nat \<Rightarrow> 'j
     \<Rightarrow> 'a udp_servers \<times> 'f core \<Rightarrow> ('a udp_servers \<times> 'f core) option" where
  "udp_server_message_open L opened bind_r ws doc = (\<lambda>(m, c). do {
     r \<leftarrow> udp_server_parser_open L doc;
     case r of
       None \<Rightarrow> do { c \<leftarrow> fail_message L ws udp_server ill_formed '''' c; Some (m, c) }
     | Some d \<Rightarrow> do {
         (ec, m) \<leftarrow> udp_servers_open opened bind_r (uso_ep d) m;
         case ec of None \<Rightarrow> udp_server_message_status L (m, c)
         | Some e \<Rightarrow> do { c \<leftarrow> fail_message L ws udp_server e '''' c; Some (m, c) } } })"

definition udp_server_app ::
  "('j, 'a :: linorder, 'z) net_lib_scheme \<Rightarrow> bool \<Rightarrow> error_code option \<Rightarrow> error_code option
     \<Rightarrow> nat \<Rightarrow> Main_Data \<Rightarrow> 'j \<Rightarrow> 'a udp_servers \<times> 'f core
     \<Rightarrow> ('a udp_servers \<times> 'f core) option" where
  "udp_server_app L opened bind_r close_r ws md doc s =
     (if md_type md = control_type then do {
        con \<leftarrow> md_control md;
        case con of
          open_c \<Rightarrow> udp_server_message_open L opened bind_r ws doc s
        | close_c \<Rightarrow> udp_server_message_close L close_r ws doc s
        | status \<Rightarrow> udp_server_message_status L s
        | _ \<Rightarrow> do { c \<leftarrow> fail_message L ws udp_server ill_formed '''' (snd s); Some (fst s, c) } }
      else udp_server_message_data L ws doc s)"

section \<open>Lemmas\<close>

text \<open>The containers keep their maps in order and keyed by the local endpoint.\<close>

definition udp_clients_ok :: "('a :: linorder) udp_clients \<Rightarrow> bool" where
  "udp_clients_ok m \<longleftrightarrow> om_ok m \<and> (\<forall>(k, s) \<in> set m. uc_local s = k)"

lemma udp_client_open_local [simp]: "uc_local (udp_client_open ep s) = uc_local s"
  by (simp add: udp_client_defs)

lemma udp_clients_ok_set:
  "\<lbrakk>udp_clients_ok m; uc_local s = k\<rbrakk> \<Longrightarrow> udp_clients_ok (om_set k s m)"
  using set_om_set [of k s m] by (auto simp: udp_clients_ok_def om_ok_set)

lemma udp_clients_ok_erase: "udp_clients_ok m \<Longrightarrow> udp_clients_ok (om_erase k m)"
  using set_om_erase [of k m] by (auto simp: udp_clients_ok_def om_ok_erase)

lemma om_find_in: "om_find m k = Some v \<Longrightarrow> (k, v) \<in> set m"
  by (simp add: om_find_eq map_of_SomeD)

lemma udp_clients_ops_ok:
  assumes "udp_clients_ok m"
  shows "udp_clients_open b ep m = Some m' \<Longrightarrow> udp_clients_ok m'"
    "udp_clients_ok (snd (udp_clients_close ep r m))"
    "udp_clients_ok (snd (udp_clients_write ep d m))"
proof -
  show "udp_clients_open b ep m = Some m' \<Longrightarrow> udp_clients_ok m'"
    using assms by (auto simp: udp_clients_open_def bind_Some_iff Let_def udp_client_new_def
        intro!: udp_clients_ok_set)
  show "udp_clients_ok (snd (udp_clients_close ep r m))"
    using assms by (auto simp: udp_clients_close_def intro: udp_clients_ok_erase
        split: option.splits)
  show "udp_clients_ok (snd (udp_clients_write ep d m))"
  proof (cases "om_find m ep")
    case (Some s)
    then have "uc_local s = ep" using assms om_find_in [OF Some] by (auto simp: udp_clients_ok_def)
    then show ?thesis
      using assms Some by (simp add: udp_clients_write_def udp_clients_ok_set udp_client_write_def)
  qed (use assms in \<open>simp add: udp_clients_write_def\<close>)
qed

text \<open>
  The status message needs every socket of the container to be open: the request
  ends in an exception as soon as one of them has closed itself.
\<close>

lemma udp_client_status_closed:
  assumes "(k, s) \<in> set m" "\<not> uc_is_open s"
  shows "udp_client_message_status L (m, c) = None"
proof -
  have "\<not> (\<exists>eps. udp_clients_endpoints m = Some eps)"
    using assms unfolding udp_clients_endpoints_def map_opt_total_iff
    by (force simp: require_def)
  then show ?thesis by (simp add: udp_client_message_status_def)
qed

lemma udp_client_fail_closes:
  "ec \<notin> {operation_aborted, bad_descriptor} \<Longrightarrow> \<not> uc_is_open (udp_client_fail ec w closed s)"
  by (simp add: udp_client_defs)

lemma udp_server_write_all_posted:
  "us_posted (udp_server_write_all tos d s) = us_posted s @ map (\<lambda>t. (t, d)) tos"
  by (induction tos arbitrary: s) (auto simp: udp_server_write_def)

section \<open>Properties\<close>

lemma udp_clients_open_find:
  assumes "udp_clients_ok m" "udp_clients_open (Some ep) remote m = Some m'"
  shows "udp_clients_ok m' \<and>
    om_find m' = (om_find m)(ep \<mapsto> udp_client_open remote (udp_client_new ep))"
  using udp_clients_ops_ok(1) [OF assms] assms
  by (auto simp: udp_clients_open_def udp_client_new_def om_find_set Let_def udp_clients_ok_def)

lemma udp_clients_close_find:
  assumes "udp_clients_ok m" "om_find m k = Some s"
  shows "\<exists>m'. udp_clients_close k r m = (r, m') \<and> om_find m' = (om_find m)(k := None) \<and>
    udp_clients_ok m'"
  using udp_clients_ops_ok(2) [OF assms(1), of k r] assms
  by (auto simp: udp_clients_close_def om_find_erase udp_clients_ok_def)

lemma udp_clients_write_find:
  assumes "udp_clients_ok m" "om_find m k = Some s"
  shows "\<exists>m'. udp_clients_write k d m = (None, m') \<and>
    om_find m' = (om_find m)(k \<mapsto> udp_client_write d s) \<and> udp_clients_ok m'"
  using udp_clients_ops_ok(3) [OF assms(1), of k d] assms
  by (auto simp: udp_clients_write_def om_find_set udp_clients_ok_def)

text \<open>
  C25: The container of UDP clients is a map from local endpoints to sockets.  Read
  through \<open>find\<close>, opening adds the new socket under the endpoint the system gave it,
  closing a present endpoint removes that entry and no other, closing or writing on an
  absent one reports that it is not connected and changes nothing, and writing posts the
  data on the one socket; every operation keeps the entries in order and under their own
  endpoints.
\<close>

theorem udp_clients_refine_map:
  assumes "udp_clients_ok m"
  shows "(\<forall>m'. udp_clients_open (Some ep) remote m = Some m' \<longrightarrow> udp_clients_ok m' \<and>
      om_find m' = (om_find m)(ep \<mapsto> udp_client_open remote (udp_client_new ep))) \<and>
    (case om_find m k of
      Some s \<Rightarrow>
        (\<exists>m'. udp_clients_close k r m = (r, m') \<and> om_find m' = (om_find m)(k := None) \<and>
          udp_clients_ok m') \<and>
        (\<exists>m'. udp_clients_write k d m = (None, m') \<and>
          om_find m' = (om_find m)(k \<mapsto> udp_client_write d s) \<and> udp_clients_ok m')
    | None \<Rightarrow> udp_clients_close k r m = (Some not_connected, m) \<and>
        udp_clients_write k d m = (Some not_connected, m))"
proof (intro conjI allI impI)
  fix m' assume "udp_clients_open (Some ep) remote m = Some m'"
  from udp_clients_open_find [OF assms this] show "udp_clients_ok m'"
    "om_find m' = (om_find m)(ep \<mapsto> udp_client_open remote (udp_client_new ep))" by blast+
next
  show "case om_find m k of
      Some s \<Rightarrow>
        (\<exists>m'. udp_clients_close k r m = (r, m') \<and> om_find m' = (om_find m)(k := None) \<and>
          udp_clients_ok m') \<and>
        (\<exists>m'. udp_clients_write k d m = (None, m') \<and>
          om_find m' = (om_find m)(k \<mapsto> udp_client_write d s) \<and> udp_clients_ok m')
    | None \<Rightarrow> udp_clients_close k r m = (Some not_connected, m) \<and>
        udp_clients_write k d m = (Some not_connected, m)"
    using udp_clients_close_find [OF assms] udp_clients_write_find [OF assms]
    by (cases "om_find m k") (simp_all add: udp_clients_close_def udp_clients_write_def)
qed

definition uc_demo :: "nat udp_clients" where
  "uc_demo = the (udp_clients_open (Some (Endpoint 4 3000)) (Endpoint 2 5000) [])"

lemma uc_demo_facts: "udp_clients_ok uc_demo"
  "om_find uc_demo (Endpoint 4 3000) =
    Some (udp_client_open (Endpoint 2 5000) (udp_client_new (Endpoint 4 3000)))"
proof -
  have new: "udp_clients_open (Some (Endpoint 4 3000)) (Endpoint 2 5000) [] = Some uc_demo"
    by (simp add: uc_demo_def udp_clients_open_def Let_def)
  have "udp_clients_ok ([] :: nat udp_clients)" by (simp add: udp_clients_ok_def)
  from udp_clients_open_find [OF this new] show "udp_clients_ok uc_demo"
    "om_find uc_demo (Endpoint 4 3000) =
      Some (udp_client_open (Endpoint 2 5000) (udp_client_new (Endpoint 4 3000)))" by simp_all
qed

theorem udp_clients_refine_map_witness:
  "(\<exists>m'. udp_clients_close (Endpoint 4 3000) None uc_demo = (None, m') \<and>
     om_find m' = (om_find uc_demo)(Endpoint 4 3000 := None)) \<and>
   udp_clients_write (Endpoint 3 9) [7] uc_demo = (Some not_connected, uc_demo)"
proof -
  have "om_find uc_demo (Endpoint 3 9) = None"
    by (simp add: uc_demo_def udp_clients_open_def udp_client_new_def Let_def om_find_set)
  then show ?thesis
    using udp_clients_refine_map [OF uc_demo_facts(1), of "Endpoint 0 0" "Endpoint 0 0"
        "Endpoint 4 3000" None "[]"]
      udp_clients_refine_map [OF uc_demo_facts(1), of "Endpoint 0 0" "Endpoint 0 0"
        "Endpoint 3 9" None "[7]"]
    by (simp add: uc_demo_facts) blast
qed



end
