(* ===== verification/Tcp_Client_Socket.thy ===== *)
theory Tcp_Client_Socket
  imports Write_Queue
begin

text \<open>
  The socket of the TCP client,
  \<open>src/src/libs/my_async/include/my_async/tcp_client/impl/client_base_impl.hpp\<close>:
  an asynchronous connect with a callback, an optional TLS handshake, and the same
  read and write machinery as the server's session.
\<close>

section \<open>State\<close>

text \<open>\<open>Opened\<close> is the call of the callback given to \<open>open\<close>.\<close>

datatype client_event = Opened "error_code option" | Called callback

record tcp_client_socket =
  cs_ssl :: bool
  cs_posted :: "byte_array task list"
  cs_queue :: "byte_array list"
  cs_writes :: "byte_array list"
  cs_reads :: nat
  cs_connects :: "bool list"
  cs_handshakes :: "bool list"
  cs_open :: bool
  cs_log :: "client_event list"

definition tcp_client_new :: "bool \<Rightarrow> tcp_client_socket" where
  "tcp_client_new use_ssl = \<lparr>cs_ssl = use_ssl, cs_posted = [], cs_queue = [], cs_writes = [],
     cs_reads = 0, cs_connects = [], cs_handshakes = [], cs_open = True, cs_log = []\<rparr>"

definition tcp_client_call :: "client_event list \<Rightarrow> tcp_client_socket \<Rightarrow> tcp_client_socket" where
  "tcp_client_call es s = s\<lparr>cs_log := cs_log s @ es\<rparr>"

section \<open>Operations\<close>

text \<open>
  An outstanding connect or handshake remembers whether it was started with a
  callback (\<open>True\<close>) or not.
\<close>

definition tcp_client_open :: "tcp_client_socket \<Rightarrow> tcp_client_socket" where
  "tcp_client_open s = s\<lparr>cs_connects := cs_connects s @ [False]\<rparr>"

definition tcp_client_open_cb :: "tcp_client_socket \<Rightarrow> tcp_client_socket" where
  "tcp_client_open_cb s = s\<lparr>cs_connects := cs_connects s @ [True]\<rparr>"

definition tcp_client_close :: "tcp_client_socket \<Rightarrow> tcp_client_socket" where
  "tcp_client_close s = s\<lparr>cs_posted := cs_posted s @ [Closing]\<rparr>"

definition tcp_client_do_read :: "tcp_client_socket \<Rightarrow> tcp_client_socket" where
  "tcp_client_do_read s = s\<lparr>cs_reads := cs_reads s + 1\<rparr>"

text \<open>\<open>fail\<close>: a refused connection reports the error and nothing else.\<close>

definition tcp_client_fail ::
  "error_code \<Rightarrow> string \<Rightarrow> tcp_client_socket \<Rightarrow> tcp_client_socket" where
  "tcp_client_fail ec what s =
     (if ec = operation_aborted \<or> ec = eof_error then tcp_client_call [Called (On_Close ec)] s
      else if cs_ssl s \<and> ec = stream_truncated then tcp_client_call [Called (On_Close ec)] s
      else
        (let s = tcp_client_call [Called (On_Error ec what)] s in
         if ec = connection_refused then s
         else tcp_client_close (tcp_client_call [Called (On_Close ec)] s)))"

definition tcp_client_on_handshake ::
  "error_code option \<Rightarrow> tcp_client_socket \<Rightarrow> tcp_client_socket" where
  "tcp_client_on_handshake r s =
     (case r of Some ec \<Rightarrow> tcp_client_fail ec ''handshake'' s
      | None \<Rightarrow> tcp_client_do_read (tcp_client_call [Called On_Open] s))"

definition tcp_client_on_handshake_cb ::
  "error_code option \<Rightarrow> tcp_client_socket \<Rightarrow> tcp_client_socket" where
  "tcp_client_on_handshake_cb r s =
     (let s = tcp_client_call [Opened r] s in
      case r of Some ec \<Rightarrow> tcp_client_fail ec ''handshake'' s
      | None \<Rightarrow> tcp_client_do_read (tcp_client_call [Called On_Open] s))"

definition tcp_client_opened ::
  "error_code option \<Rightarrow> tcp_client_socket \<Rightarrow> tcp_client_socket" where
  "tcp_client_opened r s =
     (case r of Some ec \<Rightarrow> tcp_client_fail ec ''open'' s
      | None \<Rightarrow>
         if cs_ssl s then s\<lparr>cs_handshakes := cs_handshakes s @ [False]\<rparr>
         else tcp_client_do_read (tcp_client_call [Called On_Open] s))"

definition tcp_client_opened_cb ::
  "error_code option \<Rightarrow> tcp_client_socket \<Rightarrow> tcp_client_socket" where
  "tcp_client_opened_cb r s =
     (case r of Some ec \<Rightarrow> tcp_client_fail ec ''open'' (tcp_client_call [Opened r] s)
      | None \<Rightarrow>
         if cs_ssl s then s\<lparr>cs_handshakes := cs_handshakes s @ [True]\<rparr>
         else tcp_client_do_read (tcp_client_call [Called On_Open] (tcp_client_call [Opened r] s)))"

definition tcp_client_on_read ::
  "error_code option \<Rightarrow> byte_array \<Rightarrow> tcp_client_socket \<Rightarrow> tcp_client_socket" where
  "tcp_client_on_read r buffer s =
     (let s = s\<lparr>cs_reads := cs_reads s - 1\<rparr> in
      case r of Some ec \<Rightarrow> tcp_client_fail ec ''read'' s
      | None \<Rightarrow> tcp_client_do_read (tcp_client_call [Called (Read_Handler buffer)] s))"

definition tcp_client_write :: "byte_array \<Rightarrow> tcp_client_socket \<Rightarrow> tcp_client_socket" where
  "tcp_client_write data s = s\<lparr>cs_posted := cs_posted s @ [Writing data]\<rparr>"

definition tcp_client_do_write :: "tcp_client_socket \<Rightarrow> tcp_client_socket" where
  "tcp_client_do_write s = s\<lparr>cs_writes := cs_writes s @ take 1 (cs_queue s)\<rparr>"

definition tcp_client_writing :: "byte_array \<Rightarrow> tcp_client_socket \<Rightarrow> tcp_client_socket" where
  "tcp_client_writing data s =
     (let s = s\<lparr>cs_queue := cs_queue s @ [data]\<rparr> in
      if length (cs_queue s) > 1 then s else tcp_client_do_write s)"

definition tcp_client_on_write ::
  "error_code option \<Rightarrow> tcp_client_socket \<Rightarrow> tcp_client_socket" where
  "tcp_client_on_write r s =
     (let s = s\<lparr>cs_writes := tl (cs_writes s)\<rparr> in
      case r of Some ec \<Rightarrow> tcp_client_fail ec ''write'' s
      | None \<Rightarrow>
         (let s = s\<lparr>cs_queue := tl (cs_queue s)\<rparr> in
          if cs_queue s \<noteq> [] then tcp_client_do_write s else s))"

definition tcp_client_closing ::
  "error_code option \<Rightarrow> error_code option \<Rightarrow> tcp_client_socket \<Rightarrow> tcp_client_socket" where
  "tcp_client_closing shut canc s =
     (if shut \<noteq> None then s else if canc \<noteq> None then s else s\<lparr>cs_open := False\<rparr>)"

section \<open>Steps\<close>

inductive tcp_client_step :: "tcp_client_socket \<Rightarrow> tcp_client_socket \<Rightarrow> bool" where
  c_write: "tcp_client_step s (tcp_client_write d s)"
| c_close: "tcp_client_step s (tcp_client_close s)"
| c_writing: "cs_posted s = Writing d # ts \<Longrightarrow>
     tcp_client_step s (tcp_client_writing d (s\<lparr>cs_posted := ts\<rparr>))"
| c_closing: "cs_posted s = Closing # ts \<Longrightarrow>
     tcp_client_step s (tcp_client_closing r1 r2 (s\<lparr>cs_posted := ts\<rparr>))"
| c_connected: "cs_connects s = False # cs \<Longrightarrow>
     tcp_client_step s (tcp_client_opened r (s\<lparr>cs_connects := cs\<rparr>))"
| c_connected_cb: "cs_connects s = True # cs \<Longrightarrow>
     tcp_client_step s (tcp_client_opened_cb r (s\<lparr>cs_connects := cs\<rparr>))"
| c_handshake: "cs_handshakes s = False # hs \<Longrightarrow>
     tcp_client_step s (tcp_client_on_handshake r (s\<lparr>cs_handshakes := hs\<rparr>))"
| c_handshake_cb: "cs_handshakes s = True # hs \<Longrightarrow>
     tcp_client_step s (tcp_client_on_handshake_cb r (s\<lparr>cs_handshakes := hs\<rparr>))"
| c_read: "cs_reads s > 0 \<Longrightarrow> tcp_client_step s (tcp_client_on_read r b s)"
| c_written: "cs_writes s \<noteq> [] \<Longrightarrow> tcp_client_step s (tcp_client_on_write r s)"

inductive tcp_client_reach :: "bool \<Rightarrow> tcp_client_socket \<Rightarrow> bool" for use_ssl :: bool where
  c_start: "tcp_client_reach use_ssl (tcp_client_open_cb (tcp_client_new use_ssl))"
| c_step: "\<lbrakk>tcp_client_reach use_ssl s; tcp_client_step s s'\<rbrakk> \<Longrightarrow> tcp_client_reach use_ssl s'"

section \<open>Lemmas\<close>

lemmas tcp_client_defs =
  tcp_client_call_def tcp_client_do_read_def tcp_client_open_def tcp_client_open_cb_def
  tcp_client_close_def tcp_client_fail_def tcp_client_on_handshake_def
  tcp_client_on_handshake_cb_def tcp_client_opened_def tcp_client_opened_cb_def
  tcp_client_closing_def tcp_client_on_read_def tcp_client_write_def tcp_client_do_write_def
  tcp_client_writing_def tcp_client_on_write_def tcp_client_new_def Let_def

interpretation tcp_client_wq: write_queue cs_queue cs_writes tcp_client_writing
  "tcp_client_on_write None"
proof
  fix d s
  show "cs_queue (tcp_client_writing d s) = cs_queue s @ [d]"
    by (simp add: tcp_client_defs)
  show "cs_writes (tcp_client_writing d s) = cs_writes s @ (if cs_queue s = [] then [d] else [])"
    by (cases "cs_queue s") (simp_all add: tcp_client_defs)
  show "cs_queue (tcp_client_on_write None s) = tl (cs_queue s)"
    by (simp add: tcp_client_defs)
  show "cs_writes (tcp_client_on_write None s) = tl (cs_writes s) @ take 1 (tl (cs_queue s))"
    by (simp add: tcp_client_defs)
qed

text \<open>
  The callback of \<open>open\<close> is called at most once, and before every other callback;
  while the connection is being made nothing has been called.
\<close>

definition opened_calls :: "client_event list \<Rightarrow> nat" where
  "opened_calls es = length (filter (\<lambda>e. case e of Opened _ \<Rightarrow> True | _ \<Rightarrow> False) es)"

lemma opened_calls_simps [simp]:
  "opened_calls [] = 0" "opened_calls (es @ fs) = opened_calls es + opened_calls fs"
  "opened_calls (Opened r # es) = Suc (opened_calls es)"
  "opened_calls (Called c # es) = opened_calls es"
  by (simp_all add: opened_calls_def)

definition tcp_client_inv :: "tcp_client_socket \<Rightarrow> bool" where
  "tcp_client_inv s \<longleftrightarrow>
     opened_calls (cs_log s) + length (cs_connects s) + length (cs_handshakes s) = 1 \<and>
     set (cs_connects s) \<union> set (cs_handshakes s) \<subseteq> {True} \<and>
     (opened_calls (cs_log s) = 0 \<longrightarrow> cs_reads s = 0) \<and> cs_reads s \<le> 1 \<and>
     (cs_writes s = take 1 (cs_queue s) \<or> cs_queue s \<noteq> [] \<and> cs_writes s = [])"

lemma tcp_client_fail_sel [simp]:
  "cs_queue (tcp_client_fail ec w s) = cs_queue s"
  "cs_writes (tcp_client_fail ec w s) = cs_writes s"
  "cs_reads (tcp_client_fail ec w s) = cs_reads s"
  "cs_connects (tcp_client_fail ec w s) = cs_connects s"
  "cs_handshakes (tcp_client_fail ec w s) = cs_handshakes s"
  "opened_calls (cs_log (tcp_client_fail ec w s)) = opened_calls (cs_log s)"
  by (simp_all add: tcp_client_defs)

lemma tcp_client_inv_on_write:
  assumes "tcp_client_inv s" "cs_writes s \<noteq> []"
  shows "tcp_client_inv (tcp_client_on_write r s)"
proof -
  obtain d q where "cs_queue s = d # q" "cs_writes s = [d]"
    using assms by (cases "cs_queue s") (auto simp: tcp_client_inv_def)
  then show ?thesis
    using assms(1) by (cases r) (auto simp: tcp_client_inv_def tcp_client_on_write_def
        tcp_client_do_write_def Let_def)
qed

lemma tcp_client_inv_step:
  assumes "tcp_client_step s s'" "tcp_client_inv s"
  shows "tcp_client_inv s'"
  using assms(1)
proof cases
  case (c_writing d ts)
  then show ?thesis using assms(2)
    by (cases "cs_queue s") (auto simp: tcp_client_inv_def tcp_client_writing_def
        tcp_client_do_write_def)
next
  case (c_written r)
  then show ?thesis using assms(2) tcp_client_inv_on_write by simp
next
  case (c_connected_cb cs r)
  then show ?thesis using assms(2)
    by (cases r) (auto simp: tcp_client_inv_def tcp_client_opened_cb_def tcp_client_do_read_def
        tcp_client_call_def)
next
  case (c_handshake_cb hs r)
  then show ?thesis using assms(2)
    by (cases r) (auto simp: tcp_client_inv_def tcp_client_on_handshake_cb_def
        tcp_client_do_read_def tcp_client_call_def Let_def)
next
  case (c_read r b)
  then show ?thesis using assms(2)
    by (cases r) (auto simp: tcp_client_inv_def tcp_client_on_read_def
        tcp_client_do_read_def tcp_client_call_def Let_def)
qed (use assms(2) in \<open>auto simp: tcp_client_inv_def tcp_client_write_def tcp_client_close_def
  tcp_client_closing_def\<close>)

lemma tcp_client_reach_inv: "tcp_client_reach ssl s \<Longrightarrow> tcp_client_inv s"
proof (induction rule: tcp_client_reach.induct)
  case c_start
  then show ?case by (simp add: tcp_client_inv_def tcp_client_defs)
next
  case (c_step s s')
  then show ?case using tcp_client_inv_step by blast
qed

section \<open>Properties\<close>

text \<open>
  C14: A TCP client socket, in every state it can reach from the \<open>open\<close> with a callback:
  the connect, the handshake and the call of the callback happen one after the other and
  each at most once; nothing is read before the callback; at most one read and one write
  are outstanding, the write being the front of the queue.
\<close>

theorem tcp_client_safe:
  assumes "tcp_client_reach use_ssl s"
  shows "opened_calls (cs_log s) + length (cs_connects s) + length (cs_handshakes s) = 1 \<and>
    (cs_reads s > 0 \<longrightarrow> opened_calls (cs_log s) = 1) \<and> cs_reads s \<le> 1 \<and>
    length (cs_writes s) \<le> 1 \<and> cs_writes s = take (length (cs_writes s)) (cs_queue s)"
proof -
  have inv: "tcp_client_inv s" by (rule tcp_client_reach_inv [OF assms])
  have "length (cs_writes s) \<le> 1 \<and> cs_writes s = take (length (cs_writes s)) (cs_queue s)"
    using inv by (cases "cs_queue s") (auto simp: tcp_client_inv_def)
  moreover have "cs_reads s > 0 \<longrightarrow> opened_calls (cs_log s) = 1"
    using inv by (cases "opened_calls (cs_log s)") (auto simp: tcp_client_inv_def)
  ultimately show ?thesis using inv by (simp add: tcp_client_inv_def)
qed

definition tcl_demo :: tcp_client_socket where
  "tcl_demo = tcp_client_opened_cb None ((tcp_client_open_cb (tcp_client_new False))\<lparr>cs_connects := []\<rparr>)"

theorem tcp_client_safe_witness:
  "opened_calls (cs_log tcl_demo) = 1 \<and> cs_reads tcl_demo = 1 \<and> length (cs_writes tcl_demo) \<le> 1"
proof -
  have "tcp_client_reach False tcl_demo" unfolding tcl_demo_def
    by (rule tcp_client_reach.c_step [OF tcp_client_reach.c_start],
        rule tcp_client_step.c_connected_cb) (simp add: tcp_client_defs)
  then show ?thesis using tcp_client_safe [of False tcl_demo] by (simp add: tcl_demo_def tcp_client_defs)
qed

end
