(* ===== verification/Tcp_Client_Json.thy ===== *)
theory Tcp_Client_Json
  imports Endpoint
begin

text \<open>
  The messages of the TCP client application: \<open>src/src/apps/tcp_client/json\<close>
  (\<open>parser.cpp\<close> and \<open>make.cpp\<close>) with the structures of \<open>types.hpp\<close>.  A parser
  returns \<open>None\<close> outside RapidJSON's contract, \<open>Some None\<close> where the code returns
  \<open>false\<close> and \<open>Some (Some m)\<close> with the message it filled.
\<close>

section \<open>Structures\<close>

datatype Secure_Type = plain | ssl

record keepalive_options =
  keep_alive :: bool
  idle :: u32
  interval :: u32
  count :: u32

text \<open>
  The counters of \<open>options\<close> are uninitialised until \<open>get_keepalive\<close> fills them; they
  are only read under \<open>keep_alive\<close>, which starts as \<open>false\<close>.
\<close>

definition no_keepalive :: keepalive_options where
  "no_keepalive = \<lparr>keep_alive = False, idle = 0, interval = 0, count = 0\<rparr>"

record 'a tc_Open =
  tco_secure :: Secure_Type
  tco_remote :: "'a endpoint"
  tco_options :: keepalive_options

record 'a tc_Close =
  tcc_local :: "'a endpoint"

record 'a tc_Data =
  tcd_local :: "'a endpoint"
  tcd_data :: byte_array

record 'a tc_Socket_Info =
  tci_secure :: bool
  tci_local :: "'a endpoint"
  tci_remote :: "'a endpoint"

section \<open>Data messages\<close>

definition tcp_client_check_data :: "('j, 'z) lib_scheme \<Rightarrow> 'j \<Rightarrow> bool option" where
  "tcp_client_check_data L doc = do {
     ok \<leftarrow> has_with L doc DATA_KEY (jd_is_object L);
     if \<not> ok then Some False else do {
     d \<leftarrow> member_of L doc DATA_KEY;
     ok \<leftarrow> has_with L d ''data'' (\<lambda>v. jd_is_object L v \<or> jd_is_string L v);
     if \<not> ok then Some False else do {
     ok \<leftarrow> has_with L d ''local'' (jd_is_object L);
     if \<not> ok then Some False else do {
     local \<leftarrow> member_of L d ''local'';
     check_endpoint L local } } } }"

definition tcp_client_get_data ::
  "('j, 'a, 'z) net_lib_scheme \<Rightarrow> 'j \<Rightarrow> 'a tc_Data option option" where
  "tcp_client_get_data L doc = do {
     local \<leftarrow> member_of L doc ''local'';
     ep \<leftarrow> read_endpoint L local;
     case ep of None \<Rightarrow> Some None | Some e \<Rightarrow> do {
     bytes \<leftarrow> read_payload L doc ''data'';
     Some (Some \<lparr>tcd_local = e, tcd_data = bytes\<rparr>) } }"

definition tcp_client_parser_data ::
  "('j, 'a, 'z) net_lib_scheme \<Rightarrow> 'j \<Rightarrow> 'a tc_Data option option" where
  "tcp_client_parser_data L doc = do {
     ok \<leftarrow> tcp_client_check_data L doc;
     if \<not> ok then Some None else do {
     d \<leftarrow> member_of L doc DATA_KEY;
     tcp_client_get_data L d } }"

section \<open>Open messages\<close>

definition tcp_client_check_open :: "('j, 'z) lib_scheme \<Rightarrow> 'j \<Rightarrow> bool option" where
  "tcp_client_check_open L doc = do {
     ok \<leftarrow> has_with L doc DATA_KEY (jd_is_object L);
     if \<not> ok then Some False else do {
     d \<leftarrow> member_of L doc DATA_KEY;
     opt_and (has_with L d ''port'' (jd_is_uint L))
     (opt_and (has_with L d ''secure'' (jd_is_string L))
              (has_with L d ''addr'' (jd_is_string L))) } }"

definition tcp_client_check_keepalive :: "('j, 'z) lib_scheme \<Rightarrow> 'j \<Rightarrow> bool option" where
  "tcp_client_check_keepalive L obj = do {
     ok \<leftarrow> has_with L obj ''options'' (jd_is_object L);
     if \<not> ok then Some False else do {
     opt \<leftarrow> member_of L obj ''options'';
     opt_and (has_with L opt ''keepalive'' (jd_is_bool L))
     (opt_and (has_with L opt ''idle'' (jd_is_uint L))
     (opt_and (has_with L opt ''interval'' (jd_is_uint L))
              (has_with L opt ''count'' (jd_is_uint L)))) } }"

definition tcp_client_get_keepalive ::
  "('j, 'z) lib_scheme \<Rightarrow> 'j \<Rightarrow> keepalive_options option" where
  "tcp_client_get_keepalive L opt = do {
     k \<leftarrow> member_bool L opt ''keepalive'';
     i \<leftarrow> member_uint L opt ''idle'';
     n \<leftarrow> member_uint L opt ''interval'';
     c \<leftarrow> member_uint L opt ''count'';
     Some \<lparr>keep_alive = k, idle = i, interval = n, count = c\<rparr> }"

text \<open>\<open>if(check_keepalive(doc)) get_keepalive(doc["options"], data)\<close>.\<close>

definition tcp_client_keepalive ::
  "('j, 'z) lib_scheme \<Rightarrow> 'j \<Rightarrow> keepalive_options option" where
  "tcp_client_keepalive L doc = do {
     ka \<leftarrow> tcp_client_check_keepalive L doc;
     if ka then do { opt \<leftarrow> member_of L doc ''options''; tcp_client_get_keepalive L opt }
     else Some no_keepalive }"

definition tcp_client_get_open ::
  "('j, 'a, 'z) net_lib_scheme \<Rightarrow> 'j \<Rightarrow> 'a tc_Open option option" where
  "tcp_client_get_open L doc = do {
     p \<leftarrow> member_uint L doc ''port'';
     let port = (ucast p :: u16);
     if \<not> is_valid_port (ucast port) then Some None else do {
     sec \<leftarrow> member_c_str L doc ''secure'';
     s \<leftarrow> member_c_str L doc ''addr'';
     case make_address L s of None \<Rightarrow> Some None | Some address \<Rightarrow> do {
     opts \<leftarrow> tcp_client_keepalive L doc;
     Some (Some \<lparr>tco_secure = (if sec = ''ssl'' then ssl else plain),
       tco_remote = Endpoint address port, tco_options = opts\<rparr>) } } }"

definition tcp_client_parser_open ::
  "('j, 'a, 'z) net_lib_scheme \<Rightarrow> 'j \<Rightarrow> 'a tc_Open option option" where
  "tcp_client_parser_open L doc = do {
     ok \<leftarrow> tcp_client_check_open L doc;
     if \<not> ok then Some None else do {
     d \<leftarrow> member_of L doc DATA_KEY;
     tcp_client_get_open L d } }"

section \<open>Close messages\<close>

definition tcp_client_check_close :: "('j, 'z) lib_scheme \<Rightarrow> 'j \<Rightarrow> bool option" where
  "tcp_client_check_close L doc = do {
     ok \<leftarrow> has_with L doc DATA_KEY (jd_is_object L);
     if \<not> ok then Some False else do {
     d \<leftarrow> member_of L doc DATA_KEY;
     check_endpoint_port_first L d } }"

definition tcp_client_get_close ::
  "('j, 'a, 'z) net_lib_scheme \<Rightarrow> 'j \<Rightarrow> 'a tc_Close option option" where
  "tcp_client_get_close L doc = do {
     ep \<leftarrow> read_endpoint L doc;
     Some (map_option (\<lambda>e. \<lparr>tcc_local = e\<rparr>) ep) }"

definition tcp_client_parser_close ::
  "('j, 'a, 'z) net_lib_scheme \<Rightarrow> 'j \<Rightarrow> 'a tc_Close option option" where
  "tcp_client_parser_close L doc = do {
     ok \<leftarrow> tcp_client_check_close L doc;
     if \<not> ok then Some None else do {
     d \<leftarrow> member_of L doc DATA_KEY;
     tcp_client_get_close L d } }"

section \<open>Outgoing messages\<close>

text \<open>\<open>eps\<close> is what \<open>clients->endpoints()\<close> returns.\<close>

definition tcp_client_make_status_message ::
  "('j, 'a, 'z) net_lib_scheme \<Rightarrow> 'a tc_Socket_Info list \<Rightarrow> 'f core \<Rightarrow> 'f message" where
  "tcp_client_make_status_message L eps c =
     create_control_doc L tcp_client status
       (jd_array L (map (\<lambda>i. jd_object L
          [(''secure'', jd_string L (if tci_secure i then ''ssl'' else ''plain'')),
           (''local'', endpoint_object L (tci_local i)),
           (''remote'', endpoint_object L (tci_remote i))]) eps)) c"

definition tcp_client_make_received_message ::
  "('j, 'a, 'z) net_lib_scheme \<Rightarrow> 'a endpoint \<Rightarrow> byte_array \<Rightarrow> 'f core \<Rightarrow> 'f message" where
  "tcp_client_make_received_message L local data c =
     create_data_value L tcp_client
       (jd_object L [(''local'', endpoint_object L local), (''data'', bytes_array L data)]) c"

section \<open>Lemmas\<close>

text \<open>The members under \<open>data\<close> once a guard has accepted the document.\<close>

lemma tcp_client_check_open_True:
  "tcp_client_check_open L doc = Some True \<longleftrightarrow> jd_is_object L doc \<and>
     (\<exists>d. jd_find L doc DATA_KEY = Some d \<and> jd_is_object L d \<and>
       (\<exists>p. jd_find L d ''port'' = Some p \<and> jd_is_uint L p) \<and>
       (\<exists>s. jd_find L d ''secure'' = Some s \<and> jd_is_string L s) \<and>
       (\<exists>a. jd_find L d ''addr'' = Some a \<and> jd_is_string L a))"
  unfolding tcp_client_check_open_def guarded_True member_bind_Some
  by auto

lemma tcp_client_check_close_True:
  "tcp_client_check_close L doc = Some True \<longleftrightarrow> jd_is_object L doc \<and>
     (\<exists>d. jd_find L doc DATA_KEY = Some d \<and> check_endpoint_port_first L d = Some True)"
  unfolding tcp_client_check_close_def guarded_True member_bind_Some
  by (auto simp: check_endpoint_True)

lemma tcp_client_check_data_True:
  "tcp_client_check_data L doc = Some True \<longleftrightarrow> jd_is_object L doc \<and>
     (\<exists>d l. jd_find L doc DATA_KEY = Some d \<and>
       has_with L d ''data'' (\<lambda>v. jd_is_object L v \<or> jd_is_string L v) = Some True \<and>
       jd_find L d ''local'' = Some l \<and> check_endpoint L l = Some True)"
  unfolding tcp_client_check_data_def guarded_True member_bind_Some
  by (auto simp: check_endpoint_True)

lemma tcp_client_check_total:
  assumes "jd_is_object L doc"
  shows "\<exists>b. tcp_client_check_open L doc = Some b" "\<exists>b. tcp_client_check_close L doc = Some b"
    "\<exists>b. tcp_client_check_data L doc = Some b"
proof -
  show "\<exists>b. tcp_client_check_open L doc = Some b"
    unfolding tcp_client_check_open_def
    by (intro under_object_total assms opt_and_total has_with_total)
  show "\<exists>b. tcp_client_check_close L doc = Some b"
    unfolding tcp_client_check_close_def
    by (intro under_object_total assms check_endpoint_total)
  show "\<exists>b. tcp_client_check_data L doc = Some b"
    unfolding tcp_client_check_data_def
    by (intro under_object_total guarded_total assms check_endpoint_total has_with_total)
qed

lemma tcp_client_keepalive_total:
  assumes "jd_is_object L d"
  shows "\<exists>ka. tcp_client_keepalive L d = Some ka"
proof -
  have "\<exists>b. tcp_client_check_keepalive L d = Some b"
    unfolding tcp_client_check_keepalive_def
    by (intro under_object_total assms opt_and_total has_with_total)
  then obtain b where b: "tcp_client_check_keepalive L d = Some b" by blast
  show ?thesis
  proof (cases b)
    case True
    then have "tcp_client_check_keepalive L d = Some True" using b by simp
    then have "\<exists>opt. jd_find L d ''options'' = Some opt \<and>
        (\<exists>ka. tcp_client_get_keepalive L opt = Some ka)"
      unfolding tcp_client_check_keepalive_def guard_simps
      by (auto simp: tcp_client_get_keepalive_def accessor_defs member_bool_def member_uint_def)
    then show ?thesis
      using b True assms by (auto simp: tcp_client_keepalive_def member_of_def)
  next
    case False
    then show ?thesis using b by (simp add: tcp_client_keepalive_def)
  qed
qed

lemma tcp_client_get_open_total:
  assumes "tcp_client_check_open L doc = Some True" "jd_find L doc DATA_KEY = Some d"
  shows "\<exists>r. tcp_client_get_open L d = Some r"
proof -
  obtain p s a where d: "jd_is_object L d" "jd_find L d ''port'' = Some p" "jd_is_uint L p"
    "jd_find L d ''secure'' = Some s" "jd_is_string L s"
    "jd_find L d ''addr'' = Some a" "jd_is_string L a"
    using assms by (auto simp: tcp_client_check_open_True)
  obtain ka where "tcp_client_keepalive L d = Some ka"
    using tcp_client_keepalive_total [OF d(1)] by blast
  then show ?thesis
    using d by (auto simp: tcp_client_get_open_def member_uint_def accessor_defs Let_def
        split: option.splits)
qed

lemma tcp_client_parser_open_total:
  assumes "jd_is_object L doc"
  shows "\<exists>r. tcp_client_parser_open L doc = Some r"
  unfolding tcp_client_parser_open_def
proof (intro guarded_total)
  show "\<exists>b. tcp_client_check_open L doc = Some b"
    by (rule tcp_client_check_total(1) [OF assms])
next
  assume ok: "tcp_client_check_open L doc = Some True"
  then show "\<exists>r. member_of L doc DATA_KEY \<bind> tcp_client_get_open L = Some r"
    using tcp_client_get_open_total [OF ok] by (auto simp: tcp_client_check_open_True member_of_def)
qed

lemma tcp_client_parser_close_total:
  assumes "jd_is_object L doc"
  shows "\<exists>r. tcp_client_parser_close L doc = Some r"
  unfolding tcp_client_parser_close_def
proof (intro guarded_total)
  show "\<exists>b. tcp_client_check_close L doc = Some b"
    by (rule tcp_client_check_total(2) [OF assms])
next
  assume "tcp_client_check_close L doc = Some True"
  then obtain d where d: "jd_is_object L doc" "jd_find L doc DATA_KEY = Some d"
    "check_endpoint_port_first L d = Some True"
    by (auto simp: tcp_client_check_close_True)
  moreover obtain r where "read_endpoint L d = Some r" using read_endpoint_total(2) [OF d(3)] by blast
  ultimately show "\<exists>r. member_of L doc DATA_KEY \<bind> tcp_client_get_close L = Some r"
    by (simp add: member_of_def tcp_client_get_close_def)
qed

lemma tcp_client_parser_data_total:
  assumes "jd_is_object L doc"
    and "\<And>d v. \<lbrakk>jd_find L doc DATA_KEY = Some d; jd_find L d ''data'' = Some v; jd_is_object L v\<rbrakk>
      \<Longrightarrow> payload_uints L v"
  shows "\<exists>r. tcp_client_parser_data L doc = Some r"
  unfolding tcp_client_parser_data_def
proof (intro guarded_total)
  show "\<exists>b. tcp_client_check_data L doc = Some b"
    by (rule tcp_client_check_total(3) [OF assms(1)])
next
  assume "tcp_client_check_data L doc = Some True"
  then obtain d l where d: "jd_is_object L doc" "jd_find L doc DATA_KEY = Some d"
    and data: "has_with L d ''data'' (\<lambda>v. jd_is_object L v \<or> jd_is_string L v) = Some True"
    and l: "jd_find L d ''local'' = Some l" "check_endpoint L l = Some True"
    unfolding tcp_client_check_data_True by blast
  have "jd_is_object L d" using data by simp
  moreover obtain ep where "read_endpoint L l = Some ep"
    using read_endpoint_total(1) [OF l(2)] by blast
  moreover obtain bytes where "read_payload L d ''data'' = Some bytes"
    using read_payload_total [OF data] assms(2) [OF d(2)] by blast
  ultimately show "\<exists>r. member_of L doc DATA_KEY \<bind> tcp_client_get_data L = Some r"
    using d l(1) by (cases ep) (simp_all add: member_of_def tcp_client_get_data_def)
qed

text \<open>The ports of accepted messages.\<close>

lemma tcp_client_parser_ports:
  "tcp_client_parser_open L doc = Some (Some m) \<Longrightarrow> 1024 < uint (ep_port (tco_remote m))"
  "tcp_client_parser_close L doc = Some (Some k) \<Longrightarrow> 1024 < uint (ep_port (tcc_local k))"
  "tcp_client_parser_data L doc = Some (Some b) \<Longrightarrow> 1024 < uint (ep_port (tcd_local b))"
proof -
  show "tcp_client_parser_open L doc = Some (Some m) \<Longrightarrow> 1024 < uint (ep_port (tco_remote m))"
    using valid_port_16
    by (auto simp: tcp_client_parser_open_def tcp_client_get_open_def bind_Some_iff Let_def
        split: if_splits option.splits)
  show "tcp_client_parser_close L doc = Some (Some k) \<Longrightarrow> 1024 < uint (ep_port (tcc_local k))"
    using read_endpoint_port
    by (auto simp: tcp_client_parser_close_def tcp_client_get_close_def bind_Some_iff
        split: if_splits)
  show "tcp_client_parser_data L doc = Some (Some b) \<Longrightarrow> 1024 < uint (ep_port (tcd_local b))"
    using read_endpoint_port
    by (auto simp: tcp_client_parser_data_def tcp_client_get_data_def bind_Some_iff
        split: if_splits option.splits)
qed


section \<open>Properties\<close>

text \<open>
  The port of an open request of the TCP client is cut to 16 bits before it is
  checked: a request that is well formed and has a valid address is accepted exactly when
  the port modulo \<open>2 ^ 16\<close> is above 1024, and it opens a connection to that port, so that
  numbers that are not ports are taken for another one.
\<close>

theorem tcp_client_port_truncated:
  assumes "tcp_client_check_open L doc = Some True" "jd_find L doc DATA_KEY = Some d"
    "jd_find L d ''port'' = Some p" "jd_find L d ''addr'' = Some a"
    "net_address L (c_str (jd_get_string L a)) = Some x"
  shows "if uint (jd_get_uint L p) mod 65536 > 1024
    then \<exists>m. tcp_client_parser_open L doc = Some (Some m) \<and>
      tco_remote m = Endpoint x (word_of_int (uint (jd_get_uint L p) mod 65536))
    else tcp_client_parser_open L doc = Some None"
proof -
  let ?q = "ucast (jd_get_uint L p) :: u16"
  have d: "jd_is_object L doc" "jd_is_object L d" "jd_is_uint L p" "jd_is_string L a"
    and s: "\<exists>s. jd_find L d ''secure'' = Some s \<and> jd_is_string L s"
    using assms by (auto simp: tcp_client_check_open_True)
  obtain s where s: "jd_find L d ''secure'' = Some s" "jd_is_string L s" using s by blast
  obtain ka where ka: "tcp_client_keepalive L d = Some ka"
    using tcp_client_keepalive_total [OF d(2)] by blast
  have e: "?q = word_of_int (uint (jd_get_uint L p) mod 65536)" by (rule narrow_eq)
  have "uint (ucast ?q :: u32) = uint (jd_get_uint L p) mod 65536"
    by (simp add: unsigned_ucast_eq take_bit_eq_mod uint_mod)
  then have "is_valid_port (ucast ?q) \<longleftrightarrow> uint (jd_get_uint L p) mod 65536 > 1024"
    by (simp add: is_valid_port_def word_less_def)
  then show ?thesis
    using assms d s ka e
    by (auto simp: tcp_client_parser_open_def tcp_client_get_open_def member_uint_def accessor_defs
        make_address_def Let_def)
qed

theorem tcp_client_port_truncated_witness:
  "\<exists>m. tcp_client_parser_open jv_net (JObj [(''data'', JObj [(''port'', JNum 68536),
      (''secure'', JStr ''plain''), (''addr'', JStr ''10.0.0.7'')])]) = Some (Some m) \<and>
    tco_remote m = Endpoint 7 3000"
proof -
  let ?d = "JObj [(''port'', JNum 68536), (''secure'', JStr ''plain''), (''addr'', JStr ''10.0.0.7'')]"
  have "tcp_client_check_open jv_net (JObj [(''data'', ?d)]) = Some True"
    by (simp add: tcp_client_check_open_True DATA_KEY_def)
  from tcp_client_port_truncated [OF this, of ?d "JNum 68536" "JStr ''10.0.0.7''" 7]
  show ?thesis by (simp add: DATA_KEY_def c_str_def)
qed

end
