(* ===== verification/Tcp_Client_App.thy ===== *)
theory Tcp_Client_App
  imports Tcp_Client_Socket Tcp_Client_Json Ordered_Map
begin

text \<open>
  The TCP client application: the container of clients
  (\<open>tcp_client/impl/container_impl.hpp\<close> of the library), the class that connects a
  client socket to the application (\<open>src/src/apps/tcp_client/tcp_client_type.hpp\<close>)
  and the handlers of requests (\<open>tcp_client.cpp\<close>).  Clients are shared between the
  container and the pending operations, so they live in a store and the container
  maps local endpoints to store addresses.
\<close>

section \<open>State\<close>

text \<open>
  \<open>ca_local\<close> and \<open>ca_remote\<close> are what the system answers for the endpoints of the
  socket (\<open>None\<close>: the query throws), \<open>ca_saved\<close> is the member \<open>local\<close>, \<open>ca_callbacks\<close>
  tells whether \<open>close_cb\<close> and \<open>send_status\<close> have been assigned, and
  \<open>ca_keepalive\<close> is what \<open>keep_alive\<close> was last called with.
\<close>

record 'a tc_client =
  ca_socket :: tcp_client_socket
  ca_local :: "'a endpoint option"
  ca_remote :: "'a endpoint option"
  ca_saved :: "'a endpoint option"
  ca_callbacks :: bool
  ca_keepalive :: "keepalive_options option"

record 'a tc_world =
  tw_next :: nat
  tw_store :: "nat \<Rightarrow> 'a tc_client option"
  tw_clients :: "('a endpoint, nat) omap"

definition tc_world_init :: "'a tc_world" where
  "tc_world_init = \<lparr>tw_next = 0, tw_store = (\<lambda>_. None), tw_clients = []\<rparr>"

definition tw_update ::
  "nat \<Rightarrow> ('a tc_client \<Rightarrow> 'a tc_client) \<Rightarrow> 'a tc_world \<Rightarrow> 'a tc_world" where
  "tw_update n f w = w\<lparr>tw_store := (tw_store w)(n := map_option f (tw_store w n))\<rparr>"

definition tc_local_endpoint :: "'a tc_client \<Rightarrow> 'a endpoint option" where
  "tc_local_endpoint k = (if cs_open (ca_socket k) then ca_local k else None)"

definition tc_remote_endpoint :: "'a tc_client \<Rightarrow> 'a endpoint option" where
  "tc_remote_endpoint k = (if cs_open (ca_socket k) then ca_remote k else None)"

section \<open>The container\<close>

text \<open>
  \<open>open\<close> makes a client and starts its connect.  \<open>support\<close> is the template argument
  for the requested kind (\<open>SupportSSL\<close> or \<open>SupportPlain\<close>).
\<close>

definition tcp_clients_open ::
  "bool \<Rightarrow> bool \<Rightarrow> 'a tc_world \<Rightarrow> error_code option \<times> 'a tc_world" where
  "tcp_clients_open support use_ssl w =
     (if \<not> support then (Some (Sys_Code ''wrong_protocol_type''), w)
      else
        (let k = \<lparr>ca_socket = tcp_client_open_cb (tcp_client_new use_ssl), ca_local = None,
                  ca_remote = None, ca_saved = None, ca_callbacks = False,
                  ca_keepalive = None\<rparr> in
         (None, w\<lparr>tw_next := tw_next w + 1, tw_store := (tw_store w)(tw_next w \<mapsto> k)\<rparr>)))"

definition tcp_clients_close ::
  "('a :: linorder) endpoint \<Rightarrow> 'a tc_world \<Rightarrow> error_code option \<times> 'a tc_world" where
  "tcp_clients_close local_ep w =
     (case om_find (tw_clients w) local_ep of
        None \<Rightarrow> (Some not_connected, w)
      | Some n \<Rightarrow>
          (let w = tw_update n (\<lambda>k. k\<lparr>ca_socket := tcp_client_close (ca_socket k)\<rparr>) w in
           (None, w\<lparr>tw_clients := om_erase local_ep (tw_clients w)\<rparr>)))"

definition tcp_clients_write ::
  "('a :: linorder) endpoint \<Rightarrow> byte_array \<Rightarrow> 'a tc_world \<Rightarrow> error_code option \<times> 'a tc_world"
where
  "tcp_clients_write ep data w =
     (case om_find (tw_clients w) ep of
        None \<Rightarrow> (Some not_connected, w)
      | Some n \<Rightarrow>
          (None, tw_update n (\<lambda>k. k\<lparr>ca_socket := tcp_client_write data (ca_socket k)\<rparr>) w))"

text \<open>The endpoint queries of each client throw when its socket is not connected.\<close>

definition tcp_clients_endpoints ::
  "'a tc_world \<Rightarrow> 'a tc_Socket_Info list option" where
  "tcp_clients_endpoints w = map_opt (\<lambda>(key, n). do {
     k \<leftarrow> tw_store w n;
     l \<leftarrow> tc_local_endpoint k;
     r \<leftarrow> tc_remote_endpoint k;
     Some \<lparr>tci_secure = cs_ssl (ca_socket k), tci_local = l, tci_remote = r\<rparr> }) (tw_clients w)"

definition tcp_clients_size :: "'a tc_world \<Rightarrow> nat" where
  "tcp_clients_size w = length (tw_clients w)"

section \<open>What a client calls\<close>

definition tcp_client_message_status ::
  "('j, 'a, 'z) net_lib_scheme \<Rightarrow> 'a tc_world \<times> 'f core \<Rightarrow> ('a tc_world \<times> 'f core) option" where
  "tcp_client_message_status L = (\<lambda>(w, c). do {
     eps \<leftarrow> tcp_clients_endpoints w;
     (msg, c) \<leftarrow> tcp_client_make_status_message L eps c;
     Some (w, emit (Write_All_Same (Byte_Array_of msg)) c) })"

text \<open>
  \<open>init_client\<close>, called by the connect callback.  The callback holds \<open>data\<close> by
  reference after \<open>message_open\<close> has returned: \<open>stale\<close> is what it finds there.
\<close>

definition tcp_client_init ::
  "('j, 'a, 'z) net_lib_scheme \<Rightarrow> keepalive_options \<Rightarrow> nat \<Rightarrow> 'a tc_world \<times> 'f core
     \<Rightarrow> ('a tc_world \<times> 'f core) option" where
  "tcp_client_init L stale n = (\<lambda>(w, c).
     tcp_client_message_status L
       (tw_update n (\<lambda>k. k\<lparr>ca_callbacks := True, ca_keepalive := Some stale\<rparr>) w, c))"

text \<open>The callback of the container around the callback of \<open>message_open\<close>.\<close>

definition tcp_client_connected ::
  "('j, 'a :: linorder, 'z) net_lib_scheme \<Rightarrow> keepalive_options \<Rightarrow> nat \<Rightarrow> error_code option
     \<Rightarrow> 'a tc_world \<times> 'f core \<Rightarrow> ('a tc_world \<times> 'f core) option" where
  "tcp_client_connected L stale n r = (\<lambda>(w, c).
     (case r of Some ec \<Rightarrow> Some (w, c)
      | None \<Rightarrow> do {
          k \<leftarrow> tw_store w n;
          local \<leftarrow> tc_local_endpoint k;
          tcp_client_init L stale n (w\<lparr>tw_clients := om_set local n (tw_clients w)\<rparr>, c) }))"

definition tcp_client_read_handler ::
  "('j, 'a, 'z) net_lib_scheme \<Rightarrow> nat \<Rightarrow> byte_array \<Rightarrow> 'a tc_world \<times> 'f core
     \<Rightarrow> ('a tc_world \<times> 'f core) option" where
  "tcp_client_read_handler L n data = (\<lambda>(w, c). do {
     k \<leftarrow> tw_store w n;
     local \<leftarrow> tc_local_endpoint k;
     (msg, c) \<leftarrow> tcp_client_make_received_message L local data c;
     Some (w, emit (Write_All_Same (Byte_Array_of msg)) c) })"

definition tcp_client_on_open ::
  "nat \<Rightarrow> 'a tc_world \<times> 'f core \<Rightarrow> ('a tc_world \<times> 'f core) option" where
  "tcp_client_on_open n = (\<lambda>(w, c). do {
     k \<leftarrow> tw_store w n;
     local \<leftarrow> tc_local_endpoint k;
     Some (tw_update n (\<lambda>k. k\<lparr>ca_saved := Some local\<rparr>) w, c) })"

definition tcp_client_on_error ::
  "('j, 'z) lib_scheme \<Rightarrow> error_code \<Rightarrow> string \<Rightarrow> 'a tc_world \<times> 'f core
     \<Rightarrow> ('a tc_world \<times> 'f core) option" where
  "tcp_client_on_error L ec what = (\<lambda>(w, c). do {
     c \<leftarrow> fail_message_all L tcp_client ec what c; Some (w, c) })"

text \<open>
  \<open>on_close\<close> calls \<open>close_cb\<close> and \<open>send_status\<close>; an empty \<open>std::function\<close> throws.
  \<open>close_cb\<close> removes the client under its saved endpoint, the default endpoint
  \<open>none\<close> when none was saved.
\<close>

definition tcp_client_on_close ::
  "('j, 'a :: linorder, 'z) net_lib_scheme \<Rightarrow> 'a endpoint \<Rightarrow> nat \<Rightarrow> 'a tc_world \<times> 'f core
     \<Rightarrow> ('a tc_world \<times> 'f core) option" where
  "tcp_client_on_close L none n = (\<lambda>(w, c). do {
     k \<leftarrow> tw_store w n;
     require (ca_callbacks k);
     let w = snd (tcp_clients_close (case ca_saved k of Some l \<Rightarrow> l | None \<Rightarrow> none) w);
     tcp_client_message_status L (w, c) })"

fun tcp_client_event ::
  "('j, 'a :: linorder, 'z) net_lib_scheme \<Rightarrow> 'a endpoint \<Rightarrow> keepalive_options \<Rightarrow> nat
     \<Rightarrow> client_event \<Rightarrow> 'a tc_world \<times> 'f core \<Rightarrow> ('a tc_world \<times> 'f core) option" where
  "tcp_client_event L none stale n (Opened r) s = tcp_client_connected L stale n r s"
| "tcp_client_event L none stale n (Called On_Open) s = tcp_client_on_open n s"
| "tcp_client_event L none stale n (Called (Read_Handler b)) s = tcp_client_read_handler L n b s"
| "tcp_client_event L none stale n (Called (On_Close ec)) s = tcp_client_on_close L none n s"
| "tcp_client_event L none stale n (Called (On_Error ec what)) s = tcp_client_on_error L ec what s"

fun tcp_client_events ::
  "('j, 'a :: linorder, 'z) net_lib_scheme \<Rightarrow> 'a endpoint \<Rightarrow> keepalive_options \<Rightarrow> nat
     \<Rightarrow> client_event list \<Rightarrow> 'a tc_world \<times> 'f core \<Rightarrow> ('a tc_world \<times> 'f core) option" where
  "tcp_client_events L none stale n [] s = Some s"
| "tcp_client_events L none stale n (e # es) s = do {
     s \<leftarrow> tcp_client_event L none stale n e s;
     tcp_client_events L none stale n es s }"

text \<open>
  A completion handler of client \<open>n\<close>: the socket class runs, then the calls it made
  are carried out.  They only append tasks to sockets, so running them after the
  updates of the class itself gives the same state.
\<close>

definition tcp_client_run ::
  "('j, 'a :: linorder, 'z) net_lib_scheme \<Rightarrow> 'a endpoint \<Rightarrow> keepalive_options \<Rightarrow> nat
     \<Rightarrow> (tcp_client_socket \<Rightarrow> tcp_client_socket) \<Rightarrow> 'a tc_world \<times> 'f core
     \<Rightarrow> ('a tc_world \<times> 'f core) option" where
  "tcp_client_run L none stale n f = (\<lambda>(w, c). do {
     k \<leftarrow> tw_store w n;
     let s = f (ca_socket k);
     let es = drop (length (cs_log (ca_socket k))) (cs_log s);
     tcp_client_events L none stale n es (tw_update n (\<lambda>k. k\<lparr>ca_socket := s\<rparr>) w, c) })"

section \<open>Requests\<close>

definition tcp_client_message_data ::
  "('j, 'a :: linorder, 'z) net_lib_scheme \<Rightarrow> nat \<Rightarrow> 'j \<Rightarrow> 'a tc_world \<times> 'f core
     \<Rightarrow> ('a tc_world \<times> 'f core) option" where
  "tcp_client_message_data L ws doc = (\<lambda>(w, c). do {
     r \<leftarrow> tcp_client_parser_data L doc;
     case r of
       None \<Rightarrow> do {
         c \<leftarrow> fail_message L ws tcp_client (make_error_code ILL_FORMED) '''' c; Some (w, c) }
     | Some d \<Rightarrow>
         (case tcp_clients_write (tcd_local d) (tcd_data d) w of (ec, w) \<Rightarrow>
            (case ec of None \<Rightarrow> Some (w, c)
             | Some e \<Rightarrow> do { c \<leftarrow> fail_message L ws tcp_client e '''' c; Some (w, c) })) })"

definition tcp_client_message_close ::
  "('j, 'a :: linorder, 'z) net_lib_scheme \<Rightarrow> nat \<Rightarrow> 'j \<Rightarrow> 'a tc_world \<times> 'f core
     \<Rightarrow> ('a tc_world \<times> 'f core) option" where
  "tcp_client_message_close L ws doc = (\<lambda>(w, c). do {
     r \<leftarrow> tcp_client_parser_close L doc;
     case r of
       None \<Rightarrow> do {
         c \<leftarrow> fail_message L ws tcp_client (make_error_code ILL_FORMED) '''' c; Some (w, c) }
     | Some d \<Rightarrow>
         (case tcp_clients_close (tcc_local d) w of (ec, w) \<Rightarrow>
            (case ec of None \<Rightarrow> Some (w, c)
             | Some e \<Rightarrow> do { c \<leftarrow> fail_message L ws tcp_client e '''' c; Some (w, c) })) })"

text \<open>\<open>use_ssl\<close> is the build option; \<open>supports\<close> gives the two template arguments.\<close>

definition tcp_client_message_open ::
  "('j, 'a :: linorder, 'z) net_lib_scheme \<Rightarrow> bool \<Rightarrow> (Secure_Type \<Rightarrow> bool) \<Rightarrow> nat \<Rightarrow> 'j
     \<Rightarrow> 'a tc_world \<times> 'f core \<Rightarrow> ('a tc_world \<times> 'f core) option" where
  "tcp_client_message_open L use_ssl supports ws doc = (\<lambda>(w, c). do {
     r \<leftarrow> tcp_client_parser_open L doc;
     case r of
       None \<Rightarrow> do {
         c \<leftarrow> fail_message L ws tcp_client (make_error_code ILL_FORMED) '''' c; Some (w, c) }
     | Some d \<Rightarrow>
         (case (if tco_secure d = plain then tcp_clients_open (supports plain) False w
                else if use_ssl then tcp_clients_open (supports ssl) True w
                else (Some (Sys_Code ''wrong_protocol_type''), w)) of (ec, w) \<Rightarrow>
            (case ec of None \<Rightarrow> Some (w, c)
             | Some e \<Rightarrow> do { c \<leftarrow> fail_message L ws tcp_client e '''' c; Some (w, c) })) })"

definition tpc_client_app ::
  "('j, 'a :: linorder, 'z) net_lib_scheme \<Rightarrow> bool \<Rightarrow> (Secure_Type \<Rightarrow> bool) \<Rightarrow> nat \<Rightarrow> Main_Data
     \<Rightarrow> 'j \<Rightarrow> 'a tc_world \<times> 'f core \<Rightarrow> ('a tc_world \<times> 'f core) option" where
  "tpc_client_app L use_ssl supports ws md doc s =
     (if md_type md = control_type then do {
        con \<leftarrow> md_control md;
        case con of
          open_c \<Rightarrow> tcp_client_message_open L use_ssl supports ws doc s
        | close_c \<Rightarrow> tcp_client_message_close L ws doc s
        | status \<Rightarrow> tcp_client_message_status L s
        | _ \<Rightarrow> do { c \<leftarrow> fail_message L ws tcp_client (make_error_code ILL_FORMED) '''' (snd s);
              Some (fst s, c) } }
      else tcp_client_message_data L ws doc s)"

section \<open>Lemmas\<close>

text \<open>
  A connect that fails for any reason but a refusal ends in the call of an empty
  function: the client has no callbacks before it is connected.
\<close>

lemma tcp_client_connect_failure:
  assumes k: "tw_store w n = Some k" "\<not> ca_callbacks k"
    and ec: "ec \<notin> {operation_aborted, eof_error, connection_refused}"
    and no_ssl: "\<not> cs_ssl (ca_socket k)"
  shows "tcp_client_run L none stale n (tcp_client_opened_cb (Some ec)) (w, c) = None"
  using assms
  by (cases "factory_app c tcp_client")
    (simp_all add: tcp_client_run_def tcp_client_opened_cb_def tcp_client_fail_def
      tcp_client_call_def tcp_client_close_def tcp_client_connected_def tcp_client_on_error_def
      fail_message_all_def make_error_message_eq tcp_client_on_close_def tw_update_def Let_def)

text \<open>A refused connect is reported to every session and leaves the container alone.\<close>

lemma tcp_client_connect_refused:
  assumes k: "tw_store w n = Some k" and app: "factory_app c tcp_client = Some nm"
  shows "\<exists>s w'. tcp_client_run L none stale n (tcp_client_opened_cb (Some connection_refused)) (w, c) =
      Some (w', emit (Write_All (Byte_Array_of s) True) (after_msg c)) \<and>
    tw_clients w' = tw_clients w"
  using assms
  by (auto simp: tcp_client_run_def tcp_client_opened_cb_def tcp_client_fail_def
      tcp_client_call_def tcp_client_connected_def tcp_client_on_error_def
      fail_message_all_def make_error_message_eq tw_update_def Let_def error_names)

lemma tcp_client_status_disconnected:
  assumes "(key, n) \<in> set (tw_clients w)" "tw_store w n = Some k" "tc_remote_endpoint k = None"
  shows "tcp_client_message_status L (w, c) = None"
proof -
  have "\<not> (\<exists>eps. tcp_clients_endpoints w = Some eps)"
    using assms unfolding tcp_clients_endpoints_def map_opt_total_iff
    by (force simp: bind_Some_iff)
  then show ?thesis by (simp add: tcp_client_message_status_def)
qed

section \<open>Properties\<close>

text \<open>
  A refused connection is reported to every session with one error message, the
  container of clients does not change, and the client is not closed: its socket stays
  as it was, with nothing posted.
\<close>

theorem tcp_client_refused_reported:
  assumes "tw_store w n = Some k" "factory_app c tcp_client = Some nm"
  shows "\<exists>s w' k'. tcp_client_run L none stale n (tcp_client_opened_cb (Some connection_refused))
      (w, c) = Some (w', emit (Write_All (Byte_Array_of s) True) (after_msg c)) \<and>
    tw_clients w' = tw_clients w \<and> tw_store w' n = Some k' \<and>
    cs_posted (ca_socket k') = cs_posted (ca_socket k) \<and> cs_open (ca_socket k') = cs_open (ca_socket k)"
  using assms
  by (auto simp: tcp_client_run_def tcp_client_opened_cb_def tcp_client_fail_def
      tcp_client_call_def tcp_client_connected_def tcp_client_on_error_def
      fail_message_all_def make_error_message_eq tw_update_def Let_def error_names)

definition tw_demo :: "nat tc_world" where
  "tw_demo = snd (tcp_clients_open True False tc_world_init)"

definition tc_core :: "unit core" where
  "tc_core = (core_init (\<lambda>_. 0))\<lparr>c_apps :=
     [(tcp_client, \<lparr>app_id = tcp_client, app_name = Some ''tcp_client'', app_func = None\<rparr>)]\<rparr>"

definition tc_demo :: "nat tc_client" where
  "tc_demo = \<lparr>ca_socket = tcp_client_open_cb (tcp_client_new False), ca_local = None,
     ca_remote = None, ca_saved = None, ca_callbacks = False, ca_keepalive = None\<rparr>"

lemma tw_demo_client: "tw_store tw_demo 0 = Some tc_demo"
  by (simp add: tw_demo_def tcp_clients_open_def tc_world_init_def Let_def tc_demo_def)

theorem tcp_client_refused_reported_witness:
  "\<exists>s w' k'. tcp_client_run jv_net (Endpoint 0 0) no_keepalive 0
      (tcp_client_opened_cb (Some connection_refused)) (tw_demo, tc_core) =
      Some (w', emit (Write_All (Byte_Array_of s) True) (after_msg tc_core)) \<and>
    tw_clients w' = tw_clients tw_demo \<and> tw_store w' 0 = Some k' \<and>
    cs_posted (ca_socket k') = cs_posted (ca_socket tc_demo)"
proof -
  have "factory_app tc_core tcp_client = Some ''tcp_client''"
    by (simp add: tc_core_def factory_app_def Dispatcher_app_def)
  from tcp_client_refused_reported [OF tw_demo_client this, of jv_net "Endpoint 0 0" no_keepalive]
  show ?thesis by blast
qed

text \<open>
  A plain connection that fails for any other reason than a refusal, an abort or
  the end of the stream, while the callbacks of the client are not assigned yet, ends
  the program: the close callback is an empty function.
\<close>

theorem tcp_client_connect_error:
  assumes "tw_store w n = Some k" "\<not> ca_callbacks k" "\<not> cs_ssl (ca_socket k)"
    and "ec \<notin> {operation_aborted, eof_error, connection_refused}"
  shows "tcp_client_run L none stale n (tcp_client_opened_cb (Some ec)) (w, c) = None"
  by (rule tcp_client_connect_failure [OF assms(1,2,4,3)])

theorem tcp_client_connect_error_witness:
  "tcp_client_run jv_net (Endpoint 0 0) no_keepalive 0
     (tcp_client_opened_cb (Some (Sys_Code ''timed_out''))) (tw_demo, tc_core) = None"
  by (rule tcp_client_connect_error [OF tw_demo_client])
    (simp_all add: tc_demo_def tcp_client_defs error_names)

end
