(* ===== verification/Tcp_Session.thy ===== *)
theory Tcp_Session
  imports Write_Queue
begin

text \<open>
  A session of the TCP server,
  \<open>src/src/libs/my_async/include/my_async/tcp_server/impl/session_base_impl.hpp\<close>.
  The state is the socket as the class sees it: posted tasks, \<open>queue_\<close>, the
  outstanding asynchronous operations, whether the descriptor is open, and the
  virtual functions called so far.  Results of the operating system are arguments:
  \<open>None\<close> for success or the error code.
\<close>

section \<open>State\<close>

record tcp_session =
  ss_ssl :: bool
  ss_posted :: "byte_array task list"
  ss_queue :: "byte_array list"
  ss_writes :: "byte_array list"
  ss_reads :: nat
  ss_handshakes :: nat
  ss_open :: bool
  ss_log :: "callback list"

definition tcp_session_new :: "bool \<Rightarrow> tcp_session" where
  "tcp_session_new use_ssl = \<lparr>ss_ssl = use_ssl, ss_posted = [], ss_queue = [], ss_writes = [],
     ss_reads = 0, ss_handshakes = 0, ss_open = True, ss_log = []\<rparr>"

definition tcp_session_call :: "callback list \<Rightarrow> tcp_session \<Rightarrow> tcp_session" where
  "tcp_session_call cs s = s\<lparr>ss_log := ss_log s @ cs\<rparr>"

section \<open>Operations\<close>

definition tcp_session_do_read :: "tcp_session \<Rightarrow> tcp_session" where
  "tcp_session_do_read s = s\<lparr>ss_reads := ss_reads s + 1\<rparr>"

definition tcp_session_do_accept :: "tcp_session \<Rightarrow> tcp_session" where
  "tcp_session_do_accept s = tcp_session_do_read (tcp_session_call [On_Open] s)"

text \<open>\<open>run\<close> dispatches \<open>on_run\<close>: accept, or start the TLS handshake.\<close>

definition tcp_session_on_run :: "tcp_session \<Rightarrow> tcp_session" where
  "tcp_session_on_run s =
     (if \<not> ss_ssl s then tcp_session_do_accept s
      else s\<lparr>ss_handshakes := ss_handshakes s + 1\<rparr>)"

definition tcp_session_close :: "tcp_session \<Rightarrow> tcp_session" where
  "tcp_session_close s = s\<lparr>ss_posted := ss_posted s @ [Closing]\<rparr>"

definition tcp_session_fail :: "error_code \<Rightarrow> string \<Rightarrow> tcp_session \<Rightarrow> tcp_session" where
  "tcp_session_fail ec what s =
     (if ec = operation_aborted \<or> ec = eof_error then tcp_session_call [On_Close ec] s
      else if ss_ssl s \<and> ec = stream_truncated then tcp_session_call [On_Close ec] s
      else tcp_session_close (tcp_session_call [On_Error ec what, On_Close ec] s))"

definition tcp_session_on_handshake :: "error_code option \<Rightarrow> tcp_session \<Rightarrow> tcp_session" where
  "tcp_session_on_handshake r s =
     (let s = s\<lparr>ss_handshakes := ss_handshakes s - 1\<rparr> in
      case r of Some ec \<Rightarrow> tcp_session_fail ec ''handshake'' s
      | None \<Rightarrow> tcp_session_do_accept s)"

text \<open>
  \<open>closing\<close>: the results of \<open>shutdown\<close>, \<open>cancel\<close> and \<open>close\<close> of the socket; the
  descriptor is closed even when \<open>close\<close> reports an error.
\<close>

definition tcp_session_closing ::
  "error_code option \<Rightarrow> error_code option \<Rightarrow> tcp_session \<Rightarrow> tcp_session" where
  "tcp_session_closing shut canc s =
     (if shut \<noteq> None then s else if canc \<noteq> None then s else s\<lparr>ss_open := False\<rparr>)"

definition tcp_session_on_read ::
  "error_code option \<Rightarrow> byte_array \<Rightarrow> tcp_session \<Rightarrow> tcp_session" where
  "tcp_session_on_read r buffer s =
     (let s = s\<lparr>ss_reads := ss_reads s - 1\<rparr> in
      case r of Some ec \<Rightarrow> tcp_session_fail ec ''read'' s
      | None \<Rightarrow> tcp_session_do_read (tcp_session_call [Read_Handler buffer] s))"

definition tcp_session_write :: "byte_array \<Rightarrow> tcp_session \<Rightarrow> tcp_session" where
  "tcp_session_write data s = s\<lparr>ss_posted := ss_posted s @ [Writing data]\<rparr>"

definition tcp_session_do_write :: "tcp_session \<Rightarrow> tcp_session" where
  "tcp_session_do_write s = s\<lparr>ss_writes := ss_writes s @ take 1 (ss_queue s)\<rparr>"

definition tcp_session_writing :: "byte_array \<Rightarrow> tcp_session \<Rightarrow> tcp_session" where
  "tcp_session_writing data s =
     (let s = s\<lparr>ss_queue := ss_queue s @ [data]\<rparr> in
      if length (ss_queue s) > 1 then s else tcp_session_do_write s)"

definition tcp_session_on_write :: "error_code option \<Rightarrow> tcp_session \<Rightarrow> tcp_session" where
  "tcp_session_on_write r s =
     (let s = s\<lparr>ss_writes := tl (ss_writes s)\<rparr> in
      case r of Some ec \<Rightarrow> tcp_session_fail ec ''write'' s
      | None \<Rightarrow>
         (let s = s\<lparr>ss_queue := tl (ss_queue s)\<rparr> in
          if ss_queue s \<noteq> [] then tcp_session_do_write s else s))"

section \<open>Steps\<close>

text \<open>
  What can happen to a session: the program calls \<open>write\<close> or \<open>close\<close>, the executor
  runs the oldest posted task, or an outstanding operation completes.
\<close>

inductive tcp_session_step :: "tcp_session \<Rightarrow> tcp_session \<Rightarrow> bool" where
  call_write: "tcp_session_step s (tcp_session_write d s)"
| call_close: "tcp_session_step s (tcp_session_close s)"
| run_writing: "ss_posted s = Writing d # ts \<Longrightarrow>
     tcp_session_step s (tcp_session_writing d (s\<lparr>ss_posted := ts\<rparr>))"
| run_closing: "ss_posted s = Closing # ts \<Longrightarrow>
     tcp_session_step s (tcp_session_closing r1 r2 (s\<lparr>ss_posted := ts\<rparr>))"
| handshake: "ss_handshakes s > 0 \<Longrightarrow> tcp_session_step s (tcp_session_on_handshake r s)"
| read: "ss_reads s > 0 \<Longrightarrow> tcp_session_step s (tcp_session_on_read r b s)"
| written: "ss_writes s \<noteq> [] \<Longrightarrow> tcp_session_step s (tcp_session_on_write r s)"

inductive tcp_session_reach :: "bool \<Rightarrow> tcp_session \<Rightarrow> bool" for use_ssl :: bool where
  start: "tcp_session_reach use_ssl (tcp_session_on_run (tcp_session_new use_ssl))"
| step: "\<lbrakk>tcp_session_reach use_ssl s; tcp_session_step s s'\<rbrakk> \<Longrightarrow> tcp_session_reach use_ssl s'"

section \<open>Lemmas\<close>

lemmas tcp_session_defs =
  tcp_session_call_def tcp_session_do_read_def tcp_session_do_accept_def tcp_session_on_run_def
  tcp_session_close_def tcp_session_fail_def tcp_session_on_handshake_def
  tcp_session_closing_def tcp_session_on_read_def tcp_session_write_def tcp_session_do_write_def
  tcp_session_writing_def tcp_session_on_write_def tcp_session_new_def Let_def

interpretation tcp_session_wq: write_queue ss_queue ss_writes tcp_session_writing
  "tcp_session_on_write None"
proof
  fix d s
  show "ss_queue (tcp_session_writing d s) = ss_queue s @ [d]"
    by (simp add: tcp_session_defs)
  show "ss_writes (tcp_session_writing d s) = ss_writes s @ (if ss_queue s = [] then [d] else [])"
    by (cases "ss_queue s") (simp_all add: tcp_session_defs)
  show "ss_queue (tcp_session_on_write None s) = tl (ss_queue s)"
    by (simp add: tcp_session_defs)
  show "ss_writes (tcp_session_on_write None s) = tl (ss_writes s) @ take 1 (tl (ss_queue s))"
    by (simp add: tcp_session_defs)
qed

text \<open>
  The invariant: one read and one write at most, the write being the front of the
  queue; after a failed write none.
\<close>

definition tcp_session_inv :: "tcp_session \<Rightarrow> bool" where
  "tcp_session_inv s \<longleftrightarrow> ss_reads s + ss_handshakes s \<le> 1 \<and>
     (ss_writes s = take 1 (ss_queue s) \<or> ss_queue s \<noteq> [] \<and> ss_writes s = [])"

lemma tcp_session_fail_sel [simp]:
  "ss_queue (tcp_session_fail ec w s) = ss_queue s"
  "ss_writes (tcp_session_fail ec w s) = ss_writes s"
  "ss_reads (tcp_session_fail ec w s) = ss_reads s"
  "ss_handshakes (tcp_session_fail ec w s) = ss_handshakes s"
  "ss_open (tcp_session_fail ec w s) = ss_open s"
  by (simp_all add: tcp_session_defs)

lemma tcp_session_inv_writing:
  "tcp_session_inv s \<Longrightarrow> tcp_session_inv (tcp_session_writing d s)"
  by (cases "ss_queue s") (auto simp: tcp_session_inv_def tcp_session_defs)

lemma tcp_session_inv_on_write:
  assumes "tcp_session_inv s" "ss_writes s \<noteq> []"
  shows "tcp_session_inv (tcp_session_on_write r s)"
proof -
  obtain d q where "ss_queue s = d # q" "ss_writes s = [d]"
    using assms by (cases "ss_queue s") (auto simp: tcp_session_inv_def)
  then show ?thesis
    using assms(1) by (cases r) (auto simp: tcp_session_inv_def tcp_session_on_write_def
        tcp_session_do_write_def Let_def)
qed

lemma tcp_session_inv_step:
  assumes "tcp_session_step s s'" "tcp_session_inv s"
  shows "tcp_session_inv s'"
  using assms
proof cases
  case (run_writing d ts)
  then show ?thesis using assms(2) tcp_session_inv_writing [of "s\<lparr>ss_posted := ts\<rparr>" d]
    by (simp add: tcp_session_inv_def)
next
  case (written r)
  then show ?thesis using assms(2) tcp_session_inv_on_write by simp
next
  case (handshake r)
  then show ?thesis using assms(2)
    by (cases r) (auto simp: tcp_session_inv_def tcp_session_on_handshake_def Let_def
        tcp_session_do_accept_def tcp_session_do_read_def tcp_session_call_def)
next
  case (read r b)
  then show ?thesis using assms(2)
    by (cases r) (auto simp: tcp_session_inv_def tcp_session_on_read_def Let_def
        tcp_session_do_read_def tcp_session_call_def)
qed (auto simp: tcp_session_inv_def tcp_session_write_def tcp_session_close_def
  tcp_session_closing_def)

lemma tcp_session_reach_inv: "tcp_session_reach ssl s \<Longrightarrow> tcp_session_inv s"
proof (induction rule: tcp_session_reach.induct)
  case start
  then show ?case by (simp add: tcp_session_inv_def tcp_session_defs)
next
  case (step s s')
  then show ?case using tcp_session_inv_step by blast
qed

text \<open>The first callback is \<open>On_Open\<close>, unless the handshake failed.\<close>

definition tcp_session_log_ok :: "tcp_session \<Rightarrow> bool" where
  "tcp_session_log_ok s \<longleftrightarrow>
     (ss_log s = [] \<longrightarrow> ss_reads s = 0) \<and>
     (\<forall>b bs. ss_log s = Read_Handler b # bs \<longrightarrow> False)"

lemma tcp_session_log_step:
  assumes "tcp_session_step s s'" "tcp_session_log_ok s"
  shows "tcp_session_log_ok s'"
  using assms(1)
proof cases
  case (read r b)
  then have "ss_log s \<noteq> []" using assms(2) by (auto simp: tcp_session_log_ok_def)
  then show ?thesis using read assms(2)
    by (cases "ss_log s"; cases r) (auto simp: tcp_session_log_ok_def tcp_session_defs)
next
  case (handshake r)
  then show ?thesis using assms(2)
    by (cases "ss_log s"; cases r) (auto simp: tcp_session_log_ok_def tcp_session_defs)
next
  case (written r)
  then show ?thesis using assms(2)
    by (cases "ss_log s"; cases r) (auto simp: tcp_session_log_ok_def tcp_session_defs)
qed (use assms(2) in \<open>auto simp: tcp_session_log_ok_def tcp_session_defs\<close>)

lemma tcp_session_reach_log: "tcp_session_reach ssl s \<Longrightarrow> tcp_session_log_ok s"
proof (induction rule: tcp_session_reach.induct)
  case start
  then show ?case by (simp add: tcp_session_log_ok_def tcp_session_defs)
next
  case (step s s')
  then show ?case using tcp_session_log_step by blast
qed

section \<open>Properties\<close>


definition ts_demo :: tcp_session where
  "ts_demo = tcp_session_writing [5] ((tcp_session_write [5] (tcp_session_on_run
     (tcp_session_new False)))\<lparr>ss_posted := []\<rparr>)"

lemma ts_demo_reach: "tcp_session_reach False ts_demo"
proof -
  have "tcp_session_reach False (tcp_session_write [5] (tcp_session_on_run (tcp_session_new False)))"
    by (rule tcp_session_reach.step [OF tcp_session_reach.start tcp_session_step.call_write])
  then show ?thesis unfolding ts_demo_def
    by (rule tcp_session_reach.step, intro tcp_session_step.run_writing)
      (simp add: tcp_session_defs)
qed


text \<open>
  C12: In a session whose writes succeed, everything that is handed over is written: from
  any state with no failed write, any sequence of writes and completions followed by
  enough completions puts out the queue and then all that was handed over, in order.
\<close>

theorem tcp_session_drains:
  assumes "tcp_session_reach use_ssl s" "ss_queue s = [] \<or> ss_writes s \<noteq> []"
    "length (ss_queue s) + length (tcp_session_wq.handed es) \<le> n"
  shows "snd (tcp_session_wq.run (es @ replicate n None) s) = ss_queue s @ tcp_session_wq.handed es"
proof -
  have "tcp_session_wq.wq_inv s"
    using tcp_session_reach_inv [OF assms(1)] assms(2)
    by (auto simp: tcp_session_wq.wq_inv_def tcp_session_inv_def)
  then show ?thesis by (rule tcp_session_wq.run_drain [OF _ assms(3)])
qed

theorem tcp_session_drains_witness:
  "snd (tcp_session_wq.run ([Some [6], None, Some [7]] @ replicate 3 None) ts_demo) =
    [[5], [6], [7]]"
  using tcp_session_drains [OF ts_demo_reach, of "[Some [6], None, Some [7]]" 3]
  by (simp add: ts_demo_def tcp_session_defs)

text \<open>
  A write that fails stops the session's output for good: the message stays at the
  front of the queue with no write outstanding, and nothing that is written afterwards
  reaches the peer.  Errors other than an abort, the end of the stream and a truncated
  TLS stream are reported before the close callback, and the close of the socket is
  posted.
\<close>

theorem tcp_session_write_failure:
  assumes "tcp_session_reach use_ssl s" "ss_writes s \<noteq> []"
  shows "let s' = tcp_session_on_write (Some ec) s in
    ss_queue s' \<noteq> [] \<and> ss_writes s' = [] \<and> snd (tcp_session_wq.run es s') = [] \<and>
    (ec \<notin> {operation_aborted, eof_error, stream_truncated} \<longrightarrow>
       ss_log s' = ss_log s @ [On_Error ec ''write'', On_Close ec] \<and>
       ss_posted s' = ss_posted s @ [Closing])"
proof -
  let ?s' = "tcp_session_on_write (Some ec) s"
  have "ss_queue ?s' \<noteq> [] \<and> ss_writes ?s' = []"
    using tcp_session_reach_inv [OF assms(1)] assms(2)
    by (cases "ss_queue s") (auto simp: tcp_session_inv_def tcp_session_on_write_def)
  moreover from this have "snd (tcp_session_wq.run es ?s') = []"
    using tcp_session_wq.wq_stuck_run [of ?s' es] by (simp add: tcp_session_wq.wq_stuck_def)
  moreover have "ss_log ?s' = ss_log s @ [On_Error ec ''write'', On_Close ec] \<and>
      ss_posted ?s' = ss_posted s @ [Closing]"
    if "ec \<notin> {operation_aborted, eof_error, stream_truncated}"
    using that by (simp add: tcp_session_on_write_def tcp_session_fail_def tcp_session_call_def
        tcp_session_close_def)
  ultimately show ?thesis by (simp add: Let_def)
qed

theorem tcp_session_write_failure_witness:
  "ss_queue (tcp_session_on_write (Some not_connected) ts_demo) \<noteq> [] \<and>
    snd (tcp_session_wq.run [Some [8], None, Some [9], None]
      (tcp_session_on_write (Some not_connected) ts_demo)) = []"
  using tcp_session_write_failure [OF ts_demo_reach, of not_connected "[Some [8], None, Some [9], None]"]
  by (simp add: ts_demo_def tcp_session_defs Let_def)

end
