(* ===== verification/Tcp_Server_Json.thy ===== *)
theory Tcp_Server_Json
  imports Tcp_Client_Json
begin

text \<open>
  The messages of the TCP server application: \<open>src/src/apps/tcp_server/json\<close>
  (\<open>parser.cpp\<close> and \<open>make.cpp\<close>) with the structures of \<open>types.hpp\<close>.  The guard of
  the data messages is modelled with the parentheses the code has: the negation
  covers only the test of \<open>from\<close>.
\<close>

section \<open>Structures\<close>

record ts_Open =
  tso_secure :: Secure_Type
  tso_port :: u16
  tso_addr :: string
  tso_options :: keepalive_options

record 'a ts_Close =
  tsc_endpoint :: "'a endpoint"

record 'a ts_Close_Client =
  tscc_endpoint :: "'a endpoint"
  tscc_clients :: "'a endpoint list"

record 'a ts_Data =
  tsd_from :: "'a endpoint"
  tsd_to :: "'a endpoint list"
  tsd_data :: byte_array

section \<open>Data messages\<close>

definition tcp_server_check_data :: "('j, 'z) lib_scheme \<Rightarrow> 'j \<Rightarrow> bool option" where
  "tcp_server_check_data L doc = do {
     ok \<leftarrow> has_with L doc DATA_KEY (jd_is_object L);
     if \<not> ok then Some False else do {
     d \<leftarrow> member_of L doc DATA_KEY;
     check_from_to L d } }"

definition tcp_server_get_data ::
  "('j, 'a, 'z) net_lib_scheme \<Rightarrow> 'j \<Rightarrow> 'a ts_Data option option" where
  "tcp_server_get_data L doc = do {
     ft \<leftarrow> read_from_to L doc;
     case ft of None \<Rightarrow> Some None | Some (from, to) \<Rightarrow> do {
     bytes \<leftarrow> read_payload L doc ''data'';
     Some (Some \<lparr>tsd_from = from, tsd_to = to, tsd_data = bytes\<rparr>) } }"

definition tcp_server_parser_data ::
  "('j, 'a, 'z) net_lib_scheme \<Rightarrow> 'j \<Rightarrow> 'a ts_Data option option" where
  "tcp_server_parser_data L doc = do {
     ok \<leftarrow> tcp_server_check_data L doc;
     if \<not> ok then Some None else do {
     d \<leftarrow> member_of L doc DATA_KEY;
     tcp_server_get_data L d } }"

section \<open>Open messages\<close>

definition tcp_server_check_open :: "('j, 'z) lib_scheme \<Rightarrow> 'j \<Rightarrow> bool option" where
  "tcp_server_check_open L doc = do {
     ok \<leftarrow> has_with L doc DATA_KEY (jd_is_object L);
     if \<not> ok then Some False else do {
     d \<leftarrow> member_of L doc DATA_KEY;
     opt_and (has_with L d ''port'' (jd_is_uint L))
     (opt_and (has_with L d ''secure'' (jd_is_string L))
              (has_with L d ''addr'' (jd_is_string L))) } }"

definition tcp_server_check_keepalive :: "('j, 'z) lib_scheme \<Rightarrow> 'j \<Rightarrow> bool option" where
  "tcp_server_check_keepalive L obj = do {
     ok \<leftarrow> has_with L obj ''options'' (jd_is_object L);
     if \<not> ok then Some False else do {
     opt \<leftarrow> member_of L obj ''options'';
     opt_and (has_with L opt ''keepalive'' (jd_is_bool L))
     (opt_and (has_with L opt ''idle'' (jd_is_int L))
     (opt_and (has_with L opt ''interval'' (jd_is_int L))
              (has_with L opt ''count'' (jd_is_int L)))) } }"

definition tcp_server_get_keepalive ::
  "('j, 'z) lib_scheme \<Rightarrow> 'j \<Rightarrow> keepalive_options option" where
  "tcp_server_get_keepalive L opt = do {
     k \<leftarrow> member_bool L opt ''keepalive'';
     i \<leftarrow> member_int L opt ''idle'';
     n \<leftarrow> member_int L opt ''interval'';
     c \<leftarrow> member_int L opt ''count'';
     Some \<lparr>keep_alive = k, idle = i, interval = n, count = c\<rparr> }"

definition tcp_server_keepalive ::
  "('j, 'z) lib_scheme \<Rightarrow> 'j \<Rightarrow> keepalive_options option" where
  "tcp_server_keepalive L doc = do {
     ka \<leftarrow> tcp_server_check_keepalive L doc;
     if ka then do { opt \<leftarrow> member_of L doc ''options''; tcp_server_get_keepalive L opt }
     else Some no_keepalive }"

definition tcp_server_get_open ::
  "('j, 'z) lib_scheme \<Rightarrow> 'j \<Rightarrow> ts_Open option option" where
  "tcp_server_get_open L doc = do {
     p \<leftarrow> member_uint L doc ''port'';
     let port = (ucast p :: u16);
     if \<not> is_valid_port (ucast port) then Some None else do {
     sec \<leftarrow> member_c_str L doc ''secure'';
     addr \<leftarrow> member_c_str L doc ''addr'';
     opts \<leftarrow> tcp_server_keepalive L doc;
     Some (Some \<lparr>tso_secure = (if sec = ''ssl'' then ssl else plain), tso_port = port,
       tso_addr = addr, tso_options = opts\<rparr>) } }"

definition tcp_server_parser_open ::
  "('j, 'z) lib_scheme \<Rightarrow> 'j \<Rightarrow> ts_Open option option" where
  "tcp_server_parser_open L doc = do {
     ok \<leftarrow> tcp_server_check_open L doc;
     if \<not> ok then Some None else do {
     d \<leftarrow> member_of L doc DATA_KEY;
     tcp_server_get_open L d } }"

section \<open>Close messages\<close>

definition tcp_server_check_close :: "('j, 'z) lib_scheme \<Rightarrow> 'j \<Rightarrow> bool option" where
  "tcp_server_check_close L doc = do {
     ok \<leftarrow> has_with L doc DATA_KEY (jd_is_object L);
     if \<not> ok then Some False else do {
     d \<leftarrow> member_of L doc DATA_KEY;
     check_endpoint_port_first L d } }"

definition tcp_server_get_close ::
  "('j, 'a, 'z) net_lib_scheme \<Rightarrow> 'j \<Rightarrow> 'a ts_Close option option" where
  "tcp_server_get_close L doc = do {
     ep \<leftarrow> read_endpoint L doc;
     Some (map_option (\<lambda>e. \<lparr>tsc_endpoint = e\<rparr>) ep) }"

definition tcp_server_parser_close ::
  "('j, 'a, 'z) net_lib_scheme \<Rightarrow> 'j \<Rightarrow> 'a ts_Close option option" where
  "tcp_server_parser_close L doc = do {
     ok \<leftarrow> tcp_server_check_close L doc;
     if \<not> ok then Some None else do {
     d \<leftarrow> member_of L doc DATA_KEY;
     tcp_server_get_close L d } }"

definition tcp_server_check_addr :: "('j, 'z) lib_scheme \<Rightarrow> 'j \<Rightarrow> bool option" where
  "tcp_server_check_addr L d =
     opt_and (has_with L d ''addr'' (jd_is_string L)) (has_with L d ''port'' (jd_is_uint L))"

definition tcp_server_check_close_clients :: "('j, 'z) lib_scheme \<Rightarrow> 'j \<Rightarrow> bool option" where
  "tcp_server_check_close_clients L doc = do {
     ok \<leftarrow> has_with L doc DATA_KEY (jd_is_object L);
     if \<not> ok then Some False else do {
     d \<leftarrow> member_of L doc DATA_KEY;
     opt_and (opt_and (has_with L d ''server'' (jd_is_object L))
                (do { s \<leftarrow> member_of L d ''server''; tcp_server_check_addr L s }))
             (opt_and (has_with L d ''client'' (jd_is_object L))
                (do { c \<leftarrow> member_of L d ''client''; tcp_server_check_addr L c })) } }"

text \<open>The port of the client is cut to 16 bits before it is tested, the server's is not.\<close>

definition tcp_server_get_close_clients ::
  "('j, 'a, 'z) net_lib_scheme \<Rightarrow> 'j \<Rightarrow> 'a ts_Close_Client option option" where
  "tcp_server_get_close_clients L doc = do {
     server \<leftarrow> member_of L doc ''server'';
     ep \<leftarrow> read_endpoint L server;
     case ep of None \<Rightarrow> Some None | Some e \<Rightarrow> do {
     client \<leftarrow> member_of L doc ''client'';
     cl \<leftarrow> read_endpoint_16 L client;
     Some (map_option (\<lambda>k. \<lparr>tscc_endpoint = e, tscc_clients = [k]\<rparr>) cl) } }"

definition tcp_server_parser_close_clients ::
  "('j, 'a, 'z) net_lib_scheme \<Rightarrow> 'j \<Rightarrow> 'a ts_Close_Client option option" where
  "tcp_server_parser_close_clients L doc = do {
     ok \<leftarrow> tcp_server_check_close_clients L doc;
     if \<not> ok then Some None else do {
     d \<leftarrow> member_of L doc DATA_KEY;
     tcp_server_get_close_clients L d } }"

section \<open>Outgoing messages\<close>

text \<open>
  \<open>eps\<close> is \<open>servers->endpoints()\<close>, \<open>clients\<close> the function \<open>servers->clients\<close> and
  \<open>count\<close> is \<open>servers->count()\<close>.
\<close>

definition tcp_server_make_status_message ::
  "('j, 'a, 'z) net_lib_scheme \<Rightarrow> u64 \<Rightarrow> (bool \<times> 'a endpoint) list
     \<Rightarrow> ('a endpoint \<Rightarrow> 'a endpoint list) \<Rightarrow> 'f core \<Rightarrow> 'f message" where
  "tcp_server_make_status_message L cnt eps clients c =
     create_control_doc L tcp_server status
       (jd_object L
         [(''count'', jd_uint64 L cnt),
          (''list'', jd_array L (map (\<lambda>(sec, ep). jd_object L
             ((''secure'', jd_string L (if sec then ''ssl'' else ''plain''))
              # endpoint_members L ep
              @ [(''clients'', jd_array L (map (endpoint_object L) (clients ep)))])) eps))]) c"

definition tcp_server_make_received_message ::
  "('j, 'a, 'z) net_lib_scheme \<Rightarrow> 'a endpoint \<Rightarrow> 'a endpoint \<Rightarrow> byte_array \<Rightarrow> 'f core
     \<Rightarrow> 'f message" where
  "tcp_server_make_received_message L from to data c =
     create_data_value L tcp_server
       (jd_object L [(''from'', endpoint_object L from), (''to'', endpoint_object L to),
         (''data'', bytes_array L data)]) c"

section \<open>Lemmas\<close>

text \<open>What the guards leave behind.\<close>

lemma tcp_server_check_open_True:
  "tcp_server_check_open L doc = Some True \<longleftrightarrow> jd_is_object L doc \<and>
     (\<exists>d. jd_find L doc DATA_KEY = Some d \<and> jd_is_object L d \<and>
       (\<exists>p. jd_find L d ''port'' = Some p \<and> jd_is_uint L p) \<and>
       (\<exists>s. jd_find L d ''secure'' = Some s \<and> jd_is_string L s) \<and>
       (\<exists>a. jd_find L d ''addr'' = Some a \<and> jd_is_string L a))"
  unfolding tcp_server_check_open_def guard_simps
  by auto

lemma tcp_server_check_close_True:
  "tcp_server_check_close L doc = Some True \<longleftrightarrow> jd_is_object L doc \<and>
     (\<exists>d. jd_find L doc DATA_KEY = Some d \<and> check_endpoint_port_first L d = Some True)"
  unfolding tcp_server_check_close_def guard_simps
  by (auto simp: check_endpoint_True)

lemma tcp_server_check_addr_eq: "tcp_server_check_addr = check_endpoint"
  by (simp add: fun_eq_iff tcp_server_check_addr_def check_endpoint_def)

lemma tcp_server_check_close_clients_True:
  "tcp_server_check_close_clients L doc = Some True \<longleftrightarrow> jd_is_object L doc \<and>
     (\<exists>d s c. jd_find L doc DATA_KEY = Some d \<and> jd_is_object L d \<and>
       jd_find L d ''server'' = Some s \<and> check_endpoint L s = Some True \<and>
       jd_find L d ''client'' = Some c \<and> check_endpoint L c = Some True)"
  unfolding tcp_server_check_close_clients_def guard_simps opt_and_True
    tcp_server_check_addr_eq
  by (auto simp: check_endpoint_True)

lemma tcp_server_check_total:
  assumes "jd_is_object L doc"
  shows "\<exists>b. tcp_server_check_open L doc = Some b" "\<exists>b. tcp_server_check_close L doc = Some b"
    "\<exists>b. tcp_server_check_close_clients L doc = Some b"
proof -
  show "\<exists>b. tcp_server_check_open L doc = Some b"
    unfolding tcp_server_check_open_def
    by (intro under_object_total assms opt_and_total has_with_total)
  show "\<exists>b. tcp_server_check_close L doc = Some b"
    unfolding tcp_server_check_close_def
    by (intro under_object_total assms check_endpoint_total)
  show "\<exists>b. tcp_server_check_close_clients L doc = Some b"
    unfolding tcp_server_check_close_clients_def tcp_server_check_addr_eq
    by (intro under_object_total assms opt_and_total member_then_total check_endpoint_total)
qed

lemma tcp_server_keepalive_total:
  assumes "jd_is_object L d"
  shows "\<exists>ka. tcp_server_keepalive L d = Some ka"
proof -
  have "\<exists>b. tcp_server_check_keepalive L d = Some b"
    unfolding tcp_server_check_keepalive_def
    by (intro under_object_total assms opt_and_total has_with_total)
  then obtain b where b: "tcp_server_check_keepalive L d = Some b" by blast
  show ?thesis
  proof (cases b)
    case True
    then have "tcp_server_check_keepalive L d = Some True" using b by simp
    then have "\<exists>opt. jd_find L d ''options'' = Some opt \<and>
        (\<exists>ka. tcp_server_get_keepalive L opt = Some ka)"
      unfolding tcp_server_check_keepalive_def guard_simps
      by (auto simp: tcp_server_get_keepalive_def accessor_defs member_bool_def member_int_def)
    then show ?thesis
      using b True assms by (auto simp: tcp_server_keepalive_def member_of_def)
  next
    case False
    then show ?thesis using b by (simp add: tcp_server_keepalive_def)
  qed
qed

lemma tcp_server_get_open_total:
  assumes "tcp_server_check_open L doc = Some True" "jd_find L doc DATA_KEY = Some d"
  shows "\<exists>r. tcp_server_get_open L d = Some r"
proof -
  obtain p s a where d: "jd_is_object L d" "jd_find L d ''port'' = Some p" "jd_is_uint L p"
    "jd_find L d ''secure'' = Some s" "jd_is_string L s"
    "jd_find L d ''addr'' = Some a" "jd_is_string L a"
    using assms by (auto simp: tcp_server_check_open_True)
  obtain ka where "tcp_server_keepalive L d = Some ka"
    using tcp_server_keepalive_total [OF d(1)] by blast
  then show ?thesis
    using d by (auto simp: tcp_server_get_open_def member_uint_def accessor_defs Let_def)
qed

lemma tcp_server_parser_open_total:
  assumes "jd_is_object L doc"
  shows "\<exists>r. tcp_server_parser_open L doc = Some r"
  unfolding tcp_server_parser_open_def
proof (intro guarded_total)
  show "\<exists>b. tcp_server_check_open L doc = Some b"
    by (rule tcp_server_check_total(1) [OF assms])
next
  assume ok: "tcp_server_check_open L doc = Some True"
  then show "\<exists>r. member_of L doc DATA_KEY \<bind> tcp_server_get_open L = Some r"
    using tcp_server_get_open_total [OF ok] by (auto simp: tcp_server_check_open_True member_of_def)
qed

lemma tcp_server_parser_close_total:
  assumes "jd_is_object L doc"
  shows "\<exists>r. tcp_server_parser_close L doc = Some r"
  unfolding tcp_server_parser_close_def
proof (intro guarded_total)
  show "\<exists>b. tcp_server_check_close L doc = Some b"
    by (rule tcp_server_check_total(2) [OF assms])
next
  assume "tcp_server_check_close L doc = Some True"
  then obtain d where d: "jd_is_object L doc" "jd_find L doc DATA_KEY = Some d"
    "check_endpoint_port_first L d = Some True"
    by (auto simp: tcp_server_check_close_True)
  moreover obtain r where "read_endpoint L d = Some r" using read_endpoint_total(2) [OF d(3)] by blast
  ultimately show "\<exists>r. member_of L doc DATA_KEY \<bind> tcp_server_get_close L = Some r"
    by (simp add: member_of_def tcp_server_get_close_def)
qed

lemma tcp_server_parser_close_clients_total:
  assumes "jd_is_object L doc"
  shows "\<exists>r. tcp_server_parser_close_clients L doc = Some r"
  unfolding tcp_server_parser_close_clients_def
proof (intro guarded_total)
  show "\<exists>b. tcp_server_check_close_clients L doc = Some b"
    by (rule tcp_server_check_total(3) [OF assms])
next
  assume "tcp_server_check_close_clients L doc = Some True"
  then obtain d s c where d: "jd_is_object L doc" "jd_find L doc DATA_KEY = Some d" "jd_is_object L d"
    "jd_find L d ''server'' = Some s" "jd_find L d ''client'' = Some c"
    and s: "check_endpoint L s = Some True" and c: "check_endpoint L c = Some True"
    by (auto simp: tcp_server_check_close_clients_True)
  obtain es where "read_endpoint L s = Some es" using read_endpoint_total(1) [OF s] by blast
  moreover obtain ek where "read_endpoint_16 L c = Some ek"
    using read_endpoint_total(3) [OF c] by blast
  ultimately show "\<exists>r. member_of L doc DATA_KEY \<bind> tcp_server_get_close_clients L = Some r"
    using d by (cases es) (simp_all add: member_of_def tcp_server_get_close_clients_def)
qed

text \<open>Data messages: the guard, and what follows it.\<close>

lemma tcp_server_check_data_fault:
  assumes "jd_is_object L doc" "jd_find L doc DATA_KEY = Some d" "jd_is_object L d"
  shows "tcp_server_check_data L doc = None \<longleftrightarrow>
    \<not> (\<exists>t. jd_find L d ''to'' = Some t \<and> jd_is_array L t)"
  using assms check_from_to_fault [of L d]
  by (simp add: tcp_server_check_data_def has_with_object member_of_def)

lemma tcp_server_parser_data_total:
  assumes "jd_is_object L doc" "jd_find L doc DATA_KEY = Some d" "jd_is_object L d"
    and to: "jd_find L d ''to'' = Some t" "jd_is_array L t"
    and pay: "\<And>v. \<lbrakk>jd_find L d ''data'' = Some v; jd_is_object L v\<rbrakk> \<Longrightarrow> payload_uints L v"
  shows "\<exists>r. tcp_server_parser_data L doc = Some r"
  unfolding tcp_server_parser_data_def
proof (intro guarded_total)
  show "\<exists>b. tcp_server_check_data L doc = Some b"
    using tcp_server_check_data_fault [OF assms(1,2,3)] to by (metis not_None_eq)
next
  assume "tcp_server_check_data L doc = Some True"
  then have ok: "check_from_to L d = Some True"
    using assms(1,2,3) by (simp add: tcp_server_check_data_def has_with_object member_of_def)
  obtain ft where "read_from_to L d = Some ft" using read_from_to_total [OF ok] by auto
  moreover obtain bytes where "read_payload L d ''data'' = Some bytes"
    using read_payload_total [OF check_from_to_payload [OF ok]] pay by auto
  ultimately show "\<exists>r. member_of L doc DATA_KEY \<bind> tcp_server_get_data L = Some r"
    using assms(1,2) by (cases ft) (auto simp: member_of_def tcp_server_get_data_def)
qed

lemma tcp_server_parser_ports:
  "tcp_server_parser_open L doc = Some (Some m) \<Longrightarrow> 1024 < uint (tso_port m)"
  "tcp_server_parser_close L doc = Some (Some k) \<Longrightarrow> 1024 < uint (ep_port (tsc_endpoint k))"
  "tcp_server_parser_data L doc = Some (Some b) \<Longrightarrow> 1024 < uint (ep_port (tsd_from b)) \<and>
     (\<forall>e\<in>set (tsd_to b). 1024 < uint (ep_port e))"
proof -
  show "tcp_server_parser_open L doc = Some (Some m) \<Longrightarrow> 1024 < uint (tso_port m)"
    using valid_port_16
    by (auto simp: tcp_server_parser_open_def tcp_server_get_open_def bind_Some_iff Let_def
        split: if_splits)
  show "tcp_server_parser_close L doc = Some (Some k) \<Longrightarrow> 1024 < uint (ep_port (tsc_endpoint k))"
    using read_endpoint_port
    by (auto simp: tcp_server_parser_close_def tcp_server_get_close_def bind_Some_iff
        split: if_splits)
  show "tcp_server_parser_data L doc = Some (Some b) \<Longrightarrow> 1024 < uint (ep_port (tsd_from b)) \<and>
     (\<forall>e\<in>set (tsd_to b). 1024 < uint (ep_port e))"
    by (auto simp: tcp_server_parser_data_def tcp_server_get_data_def bind_Some_iff
        dest!: read_from_to_ports split: if_splits option.splits)
qed

end
