(* ===== verification/Listener.thy ===== *)
theory Listener
  imports Tcp_Session Tcp_Server_Json Ordered_Map Shareable
begin

text \<open>
  The listening sockets of the TCP server and their sessions:
  \<open>listener/listener_base.hpp\<close> and \<open>listener/impl/container_impl.hpp\<close> of
  \<open>src/src/libs/my_async/include/my_async\<close>, and the class of the application over the
  session (\<open>src/src/apps/tcp_server/tcp_server_type.hpp\<close>).  Sessions and listeners are
  shared objects: both live in stores, a listener's share is a registry of sessions and
  the container maps endpoints to listeners.  A query of the endpoint of a socket that
  is closed throws inside a \<open>noexcept\<close> function, which is \<open>None\<close>.
\<close>

section \<open>State\<close>

text \<open>The options of a socket that keep-alive sets.\<close>

record socket_keepalive =
  sk_enabled :: bool
  sk_idle :: u32
  sk_cnt :: u32
  sk_intvl :: u32

text \<open>\<open>Data_Share\<close>: the options of the open request; \<open>send_status\<close> is empty or set.\<close>

record Data_Share =
  dsh_options :: keepalive_options
  dsh_send_status :: bool

record 'a ts_session =
  se_sock :: tcp_session
  se_remote :: "'a endpoint option"
  se_local :: "'a endpoint option"
  se_listener :: nat
  se_keepalive :: socket_keepalive

record ts_listener =
  li_ssl :: bool
  li_open :: bool
  li_posted :: nat
  li_accepts :: nat
  li_share :: "(nat, Data_Share) share"

record 'a ts_world =
  tv_next :: nat
  tv_sessions :: "nat \<Rightarrow> 'a ts_session option"
  tv_listeners :: "nat \<Rightarrow> ts_listener option"
  tv_servers :: "('a endpoint, nat) omap"

definition ts_world_init :: "'a ts_world" where
  "ts_world_init = \<lparr>tv_next = 0, tv_sessions = (\<lambda>_. None), tv_listeners = (\<lambda>_. None),
     tv_servers = []\<rparr>"

definition tv_session :: "nat \<Rightarrow> ('a ts_session \<Rightarrow> 'a ts_session) \<Rightarrow> 'a ts_world \<Rightarrow> 'a ts_world" where
  "tv_session n f w = w\<lparr>tv_sessions := (tv_sessions w)(n := map_option f (tv_sessions w n))\<rparr>"

definition tv_listener :: "nat \<Rightarrow> (ts_listener \<Rightarrow> ts_listener) \<Rightarrow> 'a ts_world \<Rightarrow> 'a ts_world" where
  "tv_listener n f w = w\<lparr>tv_listeners := (tv_listeners w)(n := map_option f (tv_listeners w n))\<rparr>"

definition ts_endpoint :: "'a ts_session \<Rightarrow> 'a endpoint option" where
  "ts_endpoint s = (if ss_open (se_sock s) then se_remote s else None)"

definition ts_local_endpoint :: "'a ts_session \<Rightarrow> 'a endpoint option" where
  "ts_local_endpoint s = (if ss_open (se_sock s) then se_local s else None)"

section \<open>Keep-alive\<close>

definition keepalive_sockopts :: "u32 \<Rightarrow> u32 \<Rightarrow> u32 \<Rightarrow> socket_keepalive \<Rightarrow> socket_keepalive" where
  "keepalive_sockopts idl cnt intvl k = k\<lparr>sk_idle := idl, sk_cnt := cnt, sk_intvl := intvl\<rparr>"

text \<open>Setting an option of a closed socket throws.\<close>

definition ts_keep_alive_enable :: "bool \<Rightarrow> 'a ts_session \<Rightarrow> 'a ts_session option" where
  "ts_keep_alive_enable enable s = do {
     require (ss_open (se_sock s));
     Some (s\<lparr>se_keepalive := (se_keepalive s)\<lparr>sk_enabled := enable\<rparr>\<rparr>) }"

definition ts_keep_alive ::
  "u32 \<Rightarrow> u32 \<Rightarrow> u32 \<Rightarrow> bool \<Rightarrow> 'a ts_session \<Rightarrow> 'a ts_session option" where
  "ts_keep_alive idl cnt intvl enable s = do {
     s \<leftarrow> ts_keep_alive_enable enable s;
     Some (s\<lparr>se_keepalive := keepalive_sockopts idl cnt intvl (se_keepalive s)\<rparr>) }"

section \<open>The share of a listener\<close>

definition ts_alive :: "'a ts_session \<Rightarrow> bool" where
  "ts_alive s \<longleftrightarrow> ss_posted (se_sock s) \<noteq> [] \<or> ss_writes (se_sock s) \<noteq> [] \<or>
     ss_reads (se_sock s) > 0 \<or> ss_handshakes (se_sock s) > 0"

text \<open>
  \<open>exec_to_all\<close> with a function that may throw: the state of the loop is some extra
  value with the world, or \<open>None\<close> once the function has thrown.
\<close>

definition ts_lock :: "nat \<Rightarrow> ('x \<times> 'a ts_world) option \<Rightarrow> bool" where
  "ts_lock p st = (case st of Some (_, w) \<Rightarrow>
      (case tv_sessions w p of Some s \<Rightarrow> ts_alive s | None \<Rightarrow> False) | None \<Rightarrow> False)"

definition ts_visit ::
  "(nat \<Rightarrow> 'a ts_session \<Rightarrow> 'x \<times> 'a ts_world \<Rightarrow> ('x \<times> 'a ts_world) option) \<Rightarrow> nat \<Rightarrow>
   ('x \<times> 'a ts_world) option \<Rightarrow> ('x \<times> 'a ts_world) option" where
  "ts_visit func p st = do { (x, w) \<leftarrow> st; s \<leftarrow> tv_sessions w p; func p s (x, w) }"

definition ts_exec_to_all ::
  "(nat \<Rightarrow> 'a ts_session \<Rightarrow> 'x \<times> 'a ts_world \<Rightarrow> ('x \<times> 'a ts_world) option) \<Rightarrow> nat \<Rightarrow>
   'x \<times> 'a ts_world \<Rightarrow> ('x \<times> 'a ts_world) option" where
  "ts_exec_to_all func l = (\<lambda>(x, w). do {
     li \<leftarrow> tv_listeners w l;
     share_exec_to_all True ts_lock (ts_visit func) (li_share li) (Some (x, w)) })"

text \<open>
  The body both loops have: query the endpoint of the session, and post something on
  the session when the test holds.
\<close>

definition ts_post ::
  "('a endpoint \<Rightarrow> bool) \<Rightarrow> ('a ts_session \<Rightarrow> 'a ts_session) \<Rightarrow> nat \<Rightarrow> 'a ts_session \<Rightarrow>
   'x \<times> 'a ts_world \<Rightarrow> ('x \<times> 'a ts_world) option" where
  "ts_post c f p s = (\<lambda>(x, w). do {
     e \<leftarrow> ts_endpoint s; Some (x, if c e then tv_session p f w else w) })"

section \<open>A listener\<close>

definition listener_new :: "bool \<Rightarrow> ts_listener" where
  "listener_new use_ssl = \<lparr>li_ssl = use_ssl, li_open = False, li_posted = 0, li_accepts = 0,
     li_share = share_new \<lparr>dsh_options = no_keepalive, dsh_send_status = False\<rparr>\<rparr>"

definition listener_do_accept :: "ts_listener \<Rightarrow> ts_listener" where
  "listener_do_accept l = l\<lparr>li_accepts := li_accepts l + 1\<rparr>"

text \<open>\<open>init\<close>: the results of open, set_option, bind and listen.\<close>

definition listener_init ::
  "(nat \<Rightarrow> error_code option) \<Rightarrow> ts_listener \<Rightarrow> error_code option \<times> ts_listener" where
  "listener_init r l =
     (case r 0 of Some ec \<Rightarrow> (Some ec, l) | None \<Rightarrow>
      (let l = l\<lparr>li_open := True\<rparr> in
       case r 1 of Some ec \<Rightarrow> (Some ec, l) | None \<Rightarrow>
      (case r 2 of Some ec \<Rightarrow> (Some ec, l) | None \<Rightarrow>
      (case r 3 of Some ec \<Rightarrow> (Some ec, l) | None \<Rightarrow> (None, listener_do_accept l)))))"

definition make_listener ::
  "(nat \<Rightarrow> error_code option) \<Rightarrow> bool \<Rightarrow> error_code option \<times> ts_listener" where
  "make_listener r use_ssl = listener_init r (listener_new use_ssl)"

definition listener_closing ::
  "error_code option \<Rightarrow> error_code option \<Rightarrow> ts_listener \<Rightarrow> ts_listener" where
  "listener_closing canc closed l =
     (if canc \<noteq> None then l else l\<lparr>li_open := False\<rparr>)"

definition listener_close :: "ts_listener \<Rightarrow> ts_listener" where
  "listener_close l = l\<lparr>li_posted := li_posted l + 1\<rparr>"

text \<open>The endpoints of the sessions, in the order of the share.\<close>

definition listener_clients :: "nat \<Rightarrow> 'a ts_world \<Rightarrow> 'a endpoint list option" where
  "listener_clients l w = map_option fst (ts_exec_to_all
     (\<lambda>p s (v, w). do { e \<leftarrow> ts_endpoint s; Some (v @ [e], w) }) l ([], w))"

definition ts_close_session :: "nat \<Rightarrow> 'a ts_world \<Rightarrow> 'a ts_world" where
  "ts_close_session p = tv_session p (\<lambda>s. s\<lparr>se_sock := tcp_session_close (se_sock s)\<rparr>)"

definition listener_close_all :: "bool \<Rightarrow> nat \<Rightarrow> 'a ts_world \<Rightarrow> 'a ts_world option" where
  "listener_close_all close_clients l w = do {
     (_, w) \<leftarrow> (if close_clients
       then ts_exec_to_all (\<lambda>p s (u, w). Some (u, ts_close_session p w)) l ((), w)
       else Some ((), w));
     Some (tv_listener l listener_close w) }"

text \<open>The inner loop stops at the first endpoint that is the session's.\<close>

definition listener_close_clients ::
  "'a endpoint list \<Rightarrow> nat \<Rightarrow> 'a ts_world \<Rightarrow> 'a ts_world option" where
  "listener_close_clients eps l w = map_option snd (ts_exec_to_all
     (\<lambda>p s (u, w).
        if eps = [] then Some (u, w)
        else ts_post (\<lambda>e. e \<in> set eps)
          (\<lambda>s. s\<lparr>se_sock := tcp_session_close (se_sock s)\<rparr>) p s (u, w)) l ((), w))"

definition listener_write ::
  "'a endpoint \<Rightarrow> byte_array \<Rightarrow> nat \<Rightarrow> 'a ts_world \<Rightarrow> 'a ts_world option" where
  "listener_write client data l w = map_option snd (ts_exec_to_all
     (ts_post (\<lambda>e. client = e) (\<lambda>s. s\<lparr>se_sock := tcp_session_write data (se_sock s)\<rparr>))
     l ((), w))"

section \<open>The container\<close>

definition ts_is_open :: "('a :: linorder) endpoint \<Rightarrow> 'a ts_world \<Rightarrow> bool" where
  "ts_is_open ep w \<longleftrightarrow> om_find (tv_servers w) ep \<noteq> None"

text \<open>
  \<open>open\<close>: \<open>support\<close> is the template argument for the kind of session, \<open>made\<close> the result
  of the function that makes the listener.
\<close>

definition ts_open ::
  "bool \<Rightarrow> ('a :: linorder) endpoint \<Rightarrow> error_code option \<times> ts_listener \<Rightarrow> 'a ts_world
     \<Rightarrow> error_code option \<times> 'a ts_world" where
  "ts_open support ep made w =
     (if ts_is_open ep w then (Some address_in_use, w)
      else if \<not> support then (Some (Sys_Code ''wrong_protocol_type''), w)
      else (case made of (ec, l) \<Rightarrow>
        if ec \<noteq> None then (ec, w)
        else (None, w\<lparr>tv_next := tv_next w + 1,
                      tv_listeners := (tv_listeners w)(tv_next w \<mapsto> l),
                      tv_servers := om_set ep (tv_next w) (tv_servers w)\<rparr>)))"

fun ts_write_loop ::
  "'a endpoint list \<Rightarrow> byte_array \<Rightarrow> nat \<Rightarrow> 'a ts_world \<Rightarrow> 'a ts_world option" where
  "ts_write_loop [] data l w = Some w"
| "ts_write_loop (t # to) data l w = do {
     w \<leftarrow> listener_write t data l w; ts_write_loop to data l w }"

definition ts_write ::
  "('a :: linorder) endpoint \<Rightarrow> 'a endpoint list \<Rightarrow> byte_array \<Rightarrow> 'a ts_world
     \<Rightarrow> (error_code option \<times> 'a ts_world) option" where
  "ts_write from to data w =
     (case om_find (tv_servers w) from of
        None \<Rightarrow> Some (Some not_connected, w)
      | Some l \<Rightarrow> map_option (Pair None) (ts_write_loop to data l w))"

definition ts_count :: "'a ts_world \<Rightarrow> u64" where
  "ts_count w = of_nat (length (tv_servers w))"

definition ts_close ::
  "('a :: linorder) endpoint \<Rightarrow> 'a ts_world \<Rightarrow> (error_code option \<times> 'a ts_world) option" where
  "ts_close ep w =
     (case om_find (tv_servers w) ep of
        None \<Rightarrow> Some (Some not_connected, w)
      | Some l \<Rightarrow> do {
          w \<leftarrow> listener_close_all True l w;
          Some (None, w\<lparr>tv_servers := om_erase ep (tv_servers w)\<rparr>) })"

definition ts_clients ::
  "('a :: linorder) endpoint \<Rightarrow> 'a ts_world \<Rightarrow> (error_code option \<times> 'a endpoint list) option" where
  "ts_clients ep w =
     (case om_find (tv_servers w) ep of
        None \<Rightarrow> Some (Some not_connected, [])
      | Some l \<Rightarrow> map_option (Pair None) (listener_clients l w))"

definition ts_close_clients ::
  "('a :: linorder) endpoint \<Rightarrow> 'a endpoint list \<Rightarrow> 'a ts_world
     \<Rightarrow> (error_code option \<times> 'a ts_world) option" where
  "ts_close_clients ep clients w =
     (case om_find (tv_servers w) ep of
        None \<Rightarrow> Some (Some not_connected, w)
      | Some l \<Rightarrow> map_option (Pair None) (listener_close_clients clients l w))"

definition ts_endpoints :: "'a ts_world \<Rightarrow> (bool \<times> 'a endpoint) list option" where
  "ts_endpoints w = map_opt (\<lambda>(key, l). do {
     li \<leftarrow> tv_listeners w l; Some (li_ssl li, key) }) (tv_servers w)"

section \<open>Lemmas\<close>

text \<open>Closing a server and opening it again: the container only knows its own keys.\<close>

lemma ts_open_find:
  assumes "om_ok (tv_servers w)" "ts_open support ep made w = (None, w')"
  shows "om_find (tv_servers w') = (om_find (tv_servers w))(ep \<mapsto> tv_next w)"
    "om_find (tv_servers w) ep = None" "om_ok (tv_servers w')"
  using assms by (auto simp: ts_open_def ts_is_open_def om_find_set om_ok_set
      split: if_splits prod.splits)

lemma ts_open_error: "ts_open support ep made w = (Some ec, w') \<Longrightarrow> w' = w"
  by (auto simp: ts_open_def split: if_splits prod.splits)

text \<open>A loop over the share that posts something on some of the sessions.\<close>

lemma tv_session_sel [simp]:
  "tv_servers (tv_session n f w) = tv_servers w"
  "tv_listeners (tv_session n f w) = tv_listeners w"
  "tv_sessions (tv_session n f w) m =
     (if m = n then map_option f (tv_sessions w n) else tv_sessions w m)"
  by (auto simp: tv_session_def)

text \<open>What the function keeps, the loop keeps.\<close>

lemma share_exec_invariant:
  assumes "share_exec True ts_lock (ts_visit func) v (Some (x, w)) = Some (x', w')" "P w"
    and f: "\<And>p s x w x' w'. \<lbrakk>func p s (x, w) = Some (x', w'); P w\<rbrakk> \<Longrightarrow> P w'"
  shows "P w'"
  using assms(1,2)
proof (induction v arbitrary: x w)
  case (Cons p v)
  have none: "share_exec True ts_lock (ts_visit func) v None = None" for v
    by (induction v) (simp_all add: ts_visit_def)
  show ?case
  proof (cases "ts_lock p (Some (x, w))")
    case True
    then obtain y where y: "ts_visit func p (Some (x, w)) = Some y"
      using Cons.prems(1) none by (cases "ts_visit func p (Some (x, w))") simp_all
    then have "P (snd y)"
      using Cons.prems(2) f by (cases y) (auto simp: ts_visit_def bind_Some_iff)
    then show ?thesis using Cons y True by (cases y) simp
  next
    case False
    then show ?thesis using Cons by simp
  qed
qed simp

lemma ts_exec_invariant:
  assumes "ts_exec_to_all func l (x, w) = Some (x', w')" "P w"
    and f: "\<And>p s x w x' w'. \<lbrakk>func p s (x, w) = Some (x', w'); P w\<rbrakk> \<Longrightarrow> P w'"
  shows "P w'"
  using assms(1) share_exec_invariant [where P = P, OF _ assms(2) f]
  by (auto simp: ts_exec_to_all_def share_exec_to_all_def bind_Some_iff)

text \<open>
  What \<open>listener_write\<close> does: with distinct sessions in the share, all alive and
  connected, exactly the sessions of the client get the data.
\<close>

definition share_ready :: "nat list \<Rightarrow> 'a ts_world \<Rightarrow> bool" where
  "share_ready v w \<longleftrightarrow> distinct v \<and>
     (\<forall>p\<in>set v. \<exists>s. tv_sessions w p = Some s \<and> ts_alive s \<and> ts_endpoint s \<noteq> None)"

lemma share_ready_Cons:
  "share_ready (p # v) w \<longleftrightarrow> p \<notin> set v \<and> share_ready v w \<and>
     (\<exists>s. tv_sessions w p = Some s \<and> ts_alive s \<and> ts_endpoint s \<noteq> None)"
  by (auto simp: share_ready_def)

lemma share_ready_tv_session:
  "p \<notin> set v \<Longrightarrow> share_ready v (tv_session p f w) = share_ready v w"
  by (auto simp: share_ready_def)

definition posted_on ::
  "nat list \<Rightarrow> ('a endpoint \<Rightarrow> bool) \<Rightarrow> ('a ts_session \<Rightarrow> 'a ts_session) \<Rightarrow> 'a ts_world \<Rightarrow>
   'a ts_world \<Rightarrow> bool" where
  "posted_on v c f w w' \<longleftrightarrow>
     (\<forall>q. tv_sessions w' q = map_option
        (\<lambda>s. if q \<in> set v \<and> c (the (ts_endpoint s)) then f s else s) (tv_sessions w q)) \<and>
     tv_servers w' = tv_servers w \<and> tv_listeners w' = tv_listeners w"

lemma share_exec_post:
  assumes "share_ready v w"
  shows "\<exists>w'. share_exec True ts_lock (ts_visit (ts_post c f)) v (Some (x, w)) = Some (x, w') \<and>
    posted_on v c f w w'"
  using assms
proof (induction v arbitrary: w)
  case Nil
  then show ?case by (auto simp: posted_on_def option.map_ident)
next
  case (Cons p v)
  obtain s e where s: "tv_sessions w p = Some s" "ts_alive s" "ts_endpoint s = Some e"
    "p \<notin> set v" "share_ready v w" using Cons.prems by (auto simp: share_ready_Cons)
  define w1 where "w1 = (if c e then tv_session p f w else w)"
  have "share_ready v w1" using s(4,5) by (simp add: w1_def share_ready_tv_session)
  then obtain w' where w': "share_exec True ts_lock (ts_visit (ts_post c f)) v (Some (x, w1)) =
      Some (x, w')" "posted_on v c f w1 w'"
    using Cons.IH by blast
  have "share_exec True ts_lock (ts_visit (ts_post c f)) (p # v) (Some (x, w)) = Some (x, w')"
    using s w'(1) by (simp add: ts_lock_def ts_visit_def ts_post_def w1_def)
  moreover have "posted_on (p # v) c f w w'"
    using w'(2) s by (auto simp: posted_on_def w1_def option.map_comp intro!: map_option_cong)
  ultimately show ?case by blast
qed

lemma listener_write_sessions:
  assumes l: "tv_listeners w l = Some li" and r: "share_ready (sh_set (li_share li)) w"
  shows "\<exists>w'. listener_write client data l w = Some w' \<and>
    posted_on (sh_set (li_share li)) (\<lambda>e. client = e)
      (\<lambda>s. s\<lparr>se_sock := tcp_session_write data (se_sock s)\<rparr>) w w'"
  using share_exec_post [OF r, of "\<lambda>e. client = e"
      "\<lambda>s. s\<lparr>se_sock := tcp_session_write data (se_sock s)\<rparr>" "()"] l
  by (auto simp: listener_write_def ts_exec_to_all_def share_exec_to_all_def)

text \<open>A listener that accepted a session: the order of the last two arguments.\<close>

lemma ts_keep_alive_eq:
  assumes "ss_open (se_sock s)"
  shows "ts_keep_alive i n v True s = Some (s\<lparr>se_keepalive :=
    \<lparr>sk_enabled = True, sk_idle = i, sk_cnt = n, sk_intvl = v\<rparr>\<rparr>)"
  using assms by (simp add: ts_keep_alive_def ts_keep_alive_enable_def keepalive_sockopts_def
      require_def)

text \<open>The loop over the receivers.\<close>

definition delivered ::
  "nat list \<Rightarrow> 'a endpoint list \<Rightarrow> byte_array \<Rightarrow> 'a ts_world \<Rightarrow> 'a ts_world \<Rightarrow> bool" where
  "delivered v to data w w' \<longleftrightarrow>
     (\<forall>q. tv_sessions w' q = map_option (\<lambda>s. if q \<in> set v then
         s\<lparr>se_sock := (se_sock s)\<lparr>ss_posted := ss_posted (se_sock s) @
           replicate (count_list to (the (ts_endpoint s))) (Writing data)\<rparr>\<rparr> else s)
       (tv_sessions w q)) \<and>
     tv_servers w' = tv_servers w \<and> tv_listeners w' = tv_listeners w"

lemma ts_endpoint_write [simp]:
  "ts_endpoint (s\<lparr>se_sock := tcp_session_write data (se_sock s)\<rparr>) = ts_endpoint s"
  by (simp add: ts_endpoint_def tcp_session_write_def)

lemma share_ready_posted:
  assumes "share_ready v w"
    "posted_on v c (\<lambda>s. s\<lparr>se_sock := tcp_session_write data (se_sock s)\<rparr>) w w'"
  shows "share_ready v w'"
  unfolding share_ready_def
proof (intro conjI ballI)
  show "distinct v" using assms(1) by (simp add: share_ready_def)
  fix p assume "p \<in> set v"
  then obtain s where s: "tv_sessions w p = Some s" "ts_alive s" "ts_endpoint s \<noteq> None"
    using assms(1) by (auto simp: share_ready_def)
  then show "\<exists>s. tv_sessions w' p = Some s \<and> ts_alive s \<and> ts_endpoint s \<noteq> None"
    using assms(2) by (auto simp: posted_on_def ts_alive_def tcp_session_write_def ts_endpoint_def)
qed

lemma ts_write_loop_delivered:
  assumes "tv_listeners w l = Some li" "share_ready (sh_set (li_share li)) w"
  shows "\<exists>w'. ts_write_loop to data l w = Some w' \<and> delivered (sh_set (li_share li)) to data w w'"
  using assms
proof (induction to arbitrary: w)
  case Nil
  have "tv_sessions w q = map_option (\<lambda>s. if q \<in> set (sh_set (li_share li)) then
      s\<lparr>se_sock := (se_sock s)\<lparr>ss_posted := ss_posted (se_sock s) @
        replicate (count_list [] (the (ts_endpoint s))) (Writing data)\<rparr>\<rparr> else s)
      (tv_sessions w q)" for q
    by (cases "tv_sessions w q") auto
  then show ?case unfolding delivered_def by simp
next
  case (Cons t to)
  let ?v = "sh_set (li_share li)"
  obtain w1 where w1: "listener_write t data l w = Some w1"
    "posted_on ?v (\<lambda>e. t = e) (\<lambda>s. s\<lparr>se_sock := tcp_session_write data (se_sock s)\<rparr>) w w1"
    using listener_write_sessions [OF Cons.prems] by blast
  have "tv_listeners w1 l = Some li" using w1(2) Cons.prems(1) by (simp add: posted_on_def)
  then obtain w' where w': "ts_write_loop to data l w1 = Some w'" "delivered ?v to data w1 w'"
    using Cons.IH share_ready_posted [OF Cons.prems(2) w1(2)] by blast
  have "tv_sessions w' q = map_option (\<lambda>s. if q \<in> set ?v then
         s\<lparr>se_sock := (se_sock s)\<lparr>ss_posted := ss_posted (se_sock s) @
           replicate (count_list (t # to) (the (ts_endpoint s))) (Writing data)\<rparr>\<rparr> else s)
       (tv_sessions w q)" for q
    using w'(2) w1(2)
    by (cases "tv_sessions w q") (auto simp: delivered_def posted_on_def tcp_session_write_def
        ts_endpoint_def)
  then have "delivered ?v (t # to) data w w'"
    using w'(2) w1(2) by (simp add: delivered_def posted_on_def)
  then show ?case using w1(1) w'(1) by simp
qed

section \<open>Properties\<close>

text \<open>
  C17: Data for the clients of a TCP server reaches those clients and nobody else: when
  the sessions of the server are alive and connected, a write succeeds; every session of
  the server gets the data posted once for each time its remote endpoint is named among
  the receivers; the sessions of other servers, the listeners and the container stay as
  they are.  A write from an endpoint that is not a server is refused and changes
  nothing.
\<close>

theorem tcp_server_write_delivery:
  assumes "tv_listeners w l = Some li" "share_ready (sh_set (li_share li)) w"
    "om_find (tv_servers w) from = Some l" "om_find (tv_servers w) other = None"
  shows "(\<exists>w'. ts_write from to data w = Some (None, w') \<and>
      tv_servers w' = tv_servers w \<and> tv_listeners w' = tv_listeners w \<and>
      (\<forall>q s. tv_sessions w q = Some s \<longrightarrow>
        (\<exists>s'. tv_sessions w' q = Some s' \<and> ss_posted (se_sock s') = ss_posted (se_sock s) @
          (if q \<in> set (sh_set (li_share li))
           then replicate (count_list to (the (ts_endpoint s))) (Writing data) else []) \<and>
          s' = s\<lparr>se_sock := (se_sock s)\<lparr>ss_posted := ss_posted (se_sock s')\<rparr>\<rparr>))) \<and>
    ts_write other to data w = Some (Some not_connected, w)"
proof -
  obtain w' where w': "ts_write_loop to data l w = Some w'"
    "delivered (sh_set (li_share li)) to data w w'"
    using ts_write_loop_delivered [OF assms(1,2)] by blast
  moreover have "\<exists>s'. tv_sessions w' q = Some s' \<and> ss_posted (se_sock s') = ss_posted (se_sock s) @
        (if q \<in> set (sh_set (li_share li))
         then replicate (count_list to (the (ts_endpoint s))) (Writing data) else []) \<and>
        s' = s\<lparr>se_sock := (se_sock s)\<lparr>ss_posted := ss_posted (se_sock s')\<rparr>\<rparr>"
    if "tv_sessions w q = Some s" for q s
    using w'(2) that by (simp add: delivered_def)
  ultimately show ?thesis using assms(3,4) by (simp add: ts_write_def delivered_def)
qed

definition se_demo :: "u16 \<Rightarrow> nat ts_session" where
  "se_demo p = \<lparr>se_sock = tcp_session_on_run (tcp_session_new False),
     se_remote = Some (Endpoint 9 p), se_local = Some (Endpoint 1 2000), se_listener = 0,
     se_keepalive = \<lparr>sk_enabled = False, sk_idle = 0, sk_cnt = 0, sk_intvl = 0\<rparr>\<rparr>"

definition li_demo :: ts_listener where
  "li_demo = (snd (make_listener (\<lambda>_. None) False))\<lparr>li_share := share_join 1 (share_join 2
     (share_new \<lparr>dsh_options = no_keepalive, dsh_send_status = True\<rparr>))\<rparr>"

definition tv_demo :: "nat ts_world" where
  "tv_demo = \<lparr>tv_next = 3, tv_sessions = [1 \<mapsto> se_demo 4000, 2 \<mapsto> se_demo 4001],
     tv_listeners = [0 \<mapsto> li_demo], tv_servers = [(Endpoint 1 2000, 0)]\<rparr>"

theorem tcp_server_write_delivery_witness:
  "\<exists>w'. ts_write (Endpoint 1 2000) [Endpoint 9 4001] [42] tv_demo = Some (None, w') \<and>
    map_option (\<lambda>s. ss_posted (se_sock s)) (tv_sessions w' 2) = Some [Writing [42]] \<and>
    map_option (\<lambda>s. ss_posted (se_sock s)) (tv_sessions w' 1) = Some []"
proof -
  have s: "tv_sessions tv_demo 1 = Some (se_demo 4000)" "tv_sessions tv_demo 2 = Some (se_demo 4001)"
    "ts_endpoint (se_demo p) = Some (Endpoint 9 p)" "ts_alive (se_demo p)"
    "ss_posted (se_sock (se_demo p)) = []" for p
    by (simp_all add: tv_demo_def se_demo_def ts_endpoint_def ts_alive_def tcp_session_defs)
  have l: "tv_listeners tv_demo 0 = Some li_demo" by (simp add: tv_demo_def)
  have v: "sh_set (li_share li_demo) = [1, 2]"
    by (simp add: li_demo_def share_join_def share_new_def List.insert_def)
  have r: "share_ready (sh_set (li_share li_demo)) tv_demo"
    unfolding v using s by (simp add: share_ready_def)
  have f: "om_find (tv_servers tv_demo) (Endpoint 1 2000) = Some 0"
    "om_find (tv_servers tv_demo) (Endpoint 1 2001) = None"
    by (simp_all add: tv_demo_def)
  from tcp_server_write_delivery [OF l r f, of "[Endpoint 9 4001]" "[42]"]
  obtain w' where w': "ts_write (Endpoint 1 2000) [Endpoint 9 4001] [42] tv_demo = Some (None, w')"
    and d: "\<forall>q s. tv_sessions tv_demo q = Some s \<longrightarrow>
        (\<exists>s'. tv_sessions w' q = Some s' \<and> ss_posted (se_sock s') = ss_posted (se_sock s) @
          (if q \<in> set (sh_set (li_share li_demo)) then
             replicate (count_list [Endpoint 9 4001] (the (ts_endpoint s))) (Writing [42]) else []))"
    by blast
  show ?thesis
    using w' d [rule_format, OF s(1)] d [rule_format, OF s(2)] v s
    by (intro exI [of _ w']) (auto simp: s)
qed

end
