(* ===== verification/Tcp_Server_App.thy ===== *)
theory Tcp_Server_App
  imports Listener
begin

text \<open>
  The TCP server application, \<open>src/src/apps/tcp_server\<close>: what a session calls
  (\<open>tcp_server_type.hpp\<close>, \<open>share_data.cpp\<close>), accepting a connection
  (\<open>listener_base.hpp\<close>) and the handlers of requests (\<open>tcp_server.cpp\<close>).
\<close>

section \<open>Status\<close>

definition tcp_server_message_status ::
  "('j, 'a :: linorder, 'z) net_lib_scheme \<Rightarrow> 'a ts_world \<times> 'f core \<Rightarrow> ('a ts_world \<times> 'f core) option"
where
  "tcp_server_message_status L = (\<lambda>(w, c). do {
     eps \<leftarrow> ts_endpoints w;
     cl \<leftarrow> map_opt (\<lambda>(sec, ep). do { (ec, v) \<leftarrow> ts_clients ep w; Some (ep, v) }) eps;
     (msg, c) \<leftarrow> tcp_server_make_status_message L (ts_count w) eps
       (\<lambda>ep. case map_of cl ep of Some v \<Rightarrow> v | None \<Rightarrow> []) c;
     Some (w, emit (Write_All (Byte_Array_of msg) True) c) })"

section \<open>What a session calls\<close>

definition ts_share_data :: "nat \<Rightarrow> 'a ts_world \<Rightarrow> Data_Share option" where
  "ts_share_data n w = do {
     s \<leftarrow> tv_sessions w n;
     li \<leftarrow> tv_listeners w (se_listener s);
     Some (sh_data (li_share li)) }"

text \<open>An empty \<open>send_status\<close> throws.\<close>

definition ts_send_status ::
  "('j, 'a :: linorder, 'z) net_lib_scheme \<Rightarrow> nat \<Rightarrow> 'a ts_world \<times> 'f core
     \<Rightarrow> ('a ts_world \<times> 'f core) option" where
  "ts_send_status L n = (\<lambda>(w, c). do {
     d \<leftarrow> ts_share_data n w;
     require (dsh_send_status d);
     tcp_server_message_status L (w, c) })"

text \<open>\<open>keep_alive\<close> takes idle, count, interval; the call passes idle, interval, count.\<close>

definition ts_on_open ::
  "('j, 'a :: linorder, 'z) net_lib_scheme \<Rightarrow> nat \<Rightarrow> 'a ts_world \<times> 'f core
     \<Rightarrow> ('a ts_world \<times> 'f core) option" where
  "ts_on_open L n = (\<lambda>(w, c). do {
     s \<leftarrow> tv_sessions w n;
     d \<leftarrow> ts_share_data n w;
     let w = tv_listener (se_listener s) (\<lambda>li. li\<lparr>li_share := share_join n (li_share li)\<rparr>) w;
     s \<leftarrow> (if keep_alive (dsh_options d)
       then ts_keep_alive (idle (dsh_options d)) (interval (dsh_options d)) (count (dsh_options d)) True s
       else Some s);
     ts_send_status L n (tv_session n (\<lambda>_. s) w, c) })"

definition ts_read_handler ::
  "('j, 'a, 'z) net_lib_scheme \<Rightarrow> nat \<Rightarrow> byte_array \<Rightarrow> 'a ts_world \<times> 'f core
     \<Rightarrow> ('a ts_world \<times> 'f core) option" where
  "ts_read_handler L n data = (\<lambda>(w, c). do {
     s \<leftarrow> tv_sessions w n;
     ep \<leftarrow> ts_endpoint s;
     local_ep \<leftarrow> ts_local_endpoint s;
     (msg, c) \<leftarrow> tcp_server_make_received_message L ep local_ep data c;
     Some (w, emit (Write_All_Same (Byte_Array_of msg)) c) })"

definition ts_on_error ::
  "('j, 'z) lib_scheme \<Rightarrow> error_code \<Rightarrow> string \<Rightarrow> 'a ts_world \<times> 'f core
     \<Rightarrow> ('a ts_world \<times> 'f core) option" where
  "ts_on_error L ec what = (\<lambda>(w, c). do {
     c \<leftarrow> fail_message_all L tcp_server ec what c; Some (w, c) })"

definition ts_on_close ::
  "('j, 'a :: linorder, 'z) net_lib_scheme \<Rightarrow> nat \<Rightarrow> 'a ts_world \<times> 'f core
     \<Rightarrow> ('a ts_world \<times> 'f core) option" where
  "ts_on_close L n = (\<lambda>(w, c). do {
     s \<leftarrow> tv_sessions w n;
     ts_send_status L n
       (tv_listener (se_listener s) (\<lambda>li. li\<lparr>li_share := share_leave n (li_share li)\<rparr>) w, c) })"

fun ts_events ::
  "('j, 'a :: linorder, 'z) net_lib_scheme \<Rightarrow> nat \<Rightarrow> callback list \<Rightarrow> 'a ts_world \<times> 'f core
     \<Rightarrow> ('a ts_world \<times> 'f core) option" where
  "ts_events L n [] s = Some s"
| "ts_events L n (On_Open # es) s = do { s \<leftarrow> ts_on_open L n s; ts_events L n es s }"
| "ts_events L n (Read_Handler b # es) s = do { s \<leftarrow> ts_read_handler L n b s; ts_events L n es s }"
| "ts_events L n (On_Close ec # es) s = do { s \<leftarrow> ts_on_close L n s; ts_events L n es s }"
| "ts_events L n (On_Error ec what # es) s = do {
     s \<leftarrow> ts_on_error L ec what s; ts_events L n es s }"

text \<open>A handler of the session class runs, and then the calls it made.\<close>

definition ts_run ::
  "('j, 'a :: linorder, 'z) net_lib_scheme \<Rightarrow> nat \<Rightarrow> (tcp_session \<Rightarrow> tcp_session) \<Rightarrow>
   'a ts_world \<times> 'f core \<Rightarrow> ('a ts_world \<times> 'f core) option" where
  "ts_run L n f = (\<lambda>(w, c). do {
     s \<leftarrow> tv_sessions w n;
     let k = f (se_sock s);
     ts_events L n (drop (length (ss_log (se_sock s))) (ss_log k))
       (tv_session n (\<lambda>s. s\<lparr>se_sock := k\<rparr>) w, c) })"

section \<open>Accepting\<close>

text \<open>
  \<open>on_accept\<close>: on success the new session runs and the next accept is started; on an
  error nothing more is accepted.
\<close>

definition listener_on_accept ::
  "('j, 'a :: linorder, 'z) net_lib_scheme \<Rightarrow> nat \<Rightarrow>
   error_code + ('a endpoint option \<times> 'a endpoint option) \<Rightarrow>
   'a ts_world \<times> 'f core \<Rightarrow> ('a ts_world \<times> 'f core) option" where
  "listener_on_accept L l r = (\<lambda>(w, c). do {
     li \<leftarrow> tv_listeners w l;
     let w = tv_listener l (\<lambda>li. li\<lparr>li_accepts := li_accepts li - 1\<rparr>) w;
     case r of
       Inl ec \<Rightarrow> Some (w, c)
     | Inr (remote, local) \<Rightarrow> do {
         let s = \<lparr>se_sock = tcp_session_new (li_ssl li), se_remote = remote, se_local = local,
                  se_listener = l, se_keepalive = \<lparr>sk_enabled = False, sk_idle = 0, sk_cnt = 0,
                  sk_intvl = 0\<rparr>\<rparr>;
         (w, c) \<leftarrow> ts_run L (tv_next w) tcp_session_on_run
           (w\<lparr>tv_next := tv_next w + 1, tv_sessions := (tv_sessions w)(tv_next w \<mapsto> s)\<rparr>, c);
         Some (tv_listener l listener_do_accept w, c) } })"

section \<open>Requests\<close>

definition set_share_data :: "keepalive_options \<Rightarrow> ts_listener \<Rightarrow> ts_listener" where
  "set_share_data opts li = li\<lparr>li_share := (li_share li)\<lparr>sh_data :=
     \<lparr>dsh_options = opts, dsh_send_status = True\<rparr>\<rparr>\<rparr>"

definition tcp_server_message_data ::
  "('j, 'a :: linorder, 'z) net_lib_scheme \<Rightarrow> nat \<Rightarrow> 'j \<Rightarrow> 'a ts_world \<times> 'f core
     \<Rightarrow> ('a ts_world \<times> 'f core) option" where
  "tcp_server_message_data L ws doc = (\<lambda>(w, c). do {
     r \<leftarrow> tcp_server_parser_data L doc;
     case r of
       None \<Rightarrow> do {
         c \<leftarrow> fail_message L ws tcp_server (make_error_code ILL_FORMED) '''' c; Some (w, c) }
     | Some d \<Rightarrow> do {
         (ec, w) \<leftarrow> ts_write (tsd_from d) (tsd_to d) (tsd_data d) w;
         case ec of None \<Rightarrow> Some (w, c)
         | Some e \<Rightarrow> do { c \<leftarrow> fail_message L ws tcp_server e '''' c; Some (w, c) } } })"

definition tcp_server_message_close ::
  "('j, 'a :: linorder, 'z) net_lib_scheme \<Rightarrow> nat \<Rightarrow> 'j \<Rightarrow> 'a ts_world \<times> 'f core
     \<Rightarrow> ('a ts_world \<times> 'f core) option" where
  "tcp_server_message_close L ws doc = (\<lambda>(w, c). do {
     r \<leftarrow> tcp_server_parser_close L doc;
     case r of
       None \<Rightarrow> do {
         c \<leftarrow> fail_message L ws tcp_server (make_error_code ILL_FORMED) '''' c; Some (w, c) }
     | Some d \<Rightarrow>
         if \<not> ts_is_open (tsc_endpoint d) w then do {
           c \<leftarrow> fail_message L ws tcp_server (make_error_code RESOURCE_NOT_FOUND) '''' c;
           Some (w, c) }
         else do {
           (ec, w) \<leftarrow> ts_close (tsc_endpoint d) w;
           case ec of None \<Rightarrow> tcp_server_message_status L (w, c)
           | Some e \<Rightarrow> do {
               c \<leftarrow> fail_message L ws tcp_server (make_error_code SERVER_INTERNAL_ERROR) '''' c;
               Some (w, c) } } })"

text \<open>
  \<open>message_open\<close>: the address of the request is only converted here, by the
  \<open>make_address\<close> that throws.  \<open>r\<close> are the results of the listener's \<open>init\<close>.
\<close>

definition tcp_server_message_open ::
  "('j, 'a :: linorder, 'z) net_lib_scheme \<Rightarrow> bool \<Rightarrow> (Secure_Type \<Rightarrow> bool) \<Rightarrow>
   (nat \<Rightarrow> error_code option) \<Rightarrow> nat \<Rightarrow> 'j \<Rightarrow> 'a ts_world \<times> 'f core
     \<Rightarrow> ('a ts_world \<times> 'f core) option" where
  "tcp_server_message_open L use_ssl supports r ws doc = (\<lambda>(w, c). do {
     p \<leftarrow> tcp_server_parser_open L doc;
     case p of
       None \<Rightarrow> do {
         c \<leftarrow> fail_message L ws tcp_server (make_error_code ILL_FORMED) '''' c; Some (w, c) }
     | Some d \<Rightarrow> do {
         addr \<leftarrow> make_address L (tso_addr d);
         let endpoint = Endpoint addr (tso_port d);
         if ts_is_open endpoint w then do {
           c \<leftarrow> fail_message L ws tcp_server (make_error_code RESOURCE_IN_USE) '''' c;
           Some (w, c) }
         else
           (case (if tso_secure d = plain \<or> use_ssl
                  then ts_open (supports (tso_secure d)) endpoint
                    (case make_listener r (tso_secure d = ssl) of (ec, li) \<Rightarrow>
                       (ec, set_share_data (tso_options d) li)) w
                  else (Some (Sys_Code ''wrong_protocol_type''), w)) of (ec, w) \<Rightarrow>
              (case ec of None \<Rightarrow> tcp_server_message_status L (w, c)
               | Some e \<Rightarrow> do { c \<leftarrow> fail_message L ws tcp_server e '''' c; Some (w, c) })) } })"

definition tcp_server_message_close_clients ::
  "('j, 'a :: linorder, 'z) net_lib_scheme \<Rightarrow> nat \<Rightarrow> 'j \<Rightarrow> 'a ts_world \<times> 'f core
     \<Rightarrow> ('a ts_world \<times> 'f core) option" where
  "tcp_server_message_close_clients L ws doc = (\<lambda>(w, c). do {
     r \<leftarrow> tcp_server_parser_close_clients L doc;
     case r of
       None \<Rightarrow> do {
         c \<leftarrow> fail_message L ws tcp_server (make_error_code ILL_FORMED) '''' c; Some (w, c) }
     | Some d \<Rightarrow> do {
         (ec, w) \<leftarrow> ts_close_clients (tscc_endpoint d) (tscc_clients d) w;
         case ec of None \<Rightarrow> Some (w, c)
         | Some e \<Rightarrow> do { c \<leftarrow> fail_message L ws tcp_server e '''' c; Some (w, c) } } })"

definition tpc_server_app ::
  "('j, 'a :: linorder, 'z) net_lib_scheme \<Rightarrow> bool \<Rightarrow> (Secure_Type \<Rightarrow> bool) \<Rightarrow>
   (nat \<Rightarrow> error_code option) \<Rightarrow> nat \<Rightarrow> Main_Data \<Rightarrow> 'j \<Rightarrow> 'a ts_world \<times> 'f core
     \<Rightarrow> ('a ts_world \<times> 'f core) option" where
  "tpc_server_app L use_ssl supports r ws md doc s =
     (if md_type md = control_type then do {
        con \<leftarrow> md_control md;
        case con of
          open_c \<Rightarrow> tcp_server_message_open L use_ssl supports r ws doc s
        | close_c \<Rightarrow> tcp_server_message_close L ws doc s
        | status \<Rightarrow> tcp_server_message_status L s
        | custom \<Rightarrow> tcp_server_message_close_clients L ws doc s
        | _ \<Rightarrow> do {
            c \<leftarrow> fail_message L ws tcp_server (make_error_code ILL_FORMED) '''' (snd s);
            Some (fst s, c) } }
      else tcp_server_message_data L ws doc s)"

section \<open>Lemmas\<close>

lemma tv_listener_sel [simp]:
  "tv_sessions (tv_listener n f w) = tv_sessions w"
  "tv_servers (tv_listener n f w) = tv_servers w"
  "tv_next (tv_listener n f w) = tv_next w"
  "tv_listeners (tv_listener n f w) m =
     (if m = n then map_option f (tv_listeners w n) else tv_listeners w m)"
  by (auto simp: tv_listener_def)

lemma tcp_server_message_status_world:
  "tcp_server_message_status L (w, c) = Some (w', c') \<Longrightarrow> w' = w"
  by (auto simp: tcp_server_message_status_def bind_Some_iff)

text \<open>An address that does not convert ends the program, whatever else is in the request.\<close>

lemma tcp_server_open_bad_address:
  assumes "tcp_server_parser_open L doc = Some (Some d)" "make_address L (tso_addr d) = None"
  shows "tcp_server_message_open L use_ssl supports r ws doc (w, c) = None"
  using assms by (simp add: tcp_server_message_open_def)

text \<open>The options a session gets when it opens: count and interval change places.\<close>

lemma ts_on_open_keepalive:
  assumes s: "tv_sessions w n = Some s" and d: "ts_share_data n w = Some d"
    and ka: "keep_alive (dsh_options d)"
    and run: "ts_on_open L n (w, c) = Some (w', c')"
  shows "\<exists>s'. tv_sessions w' n = Some s' \<and> se_keepalive s' =
    \<lparr>sk_enabled = True, sk_idle = idle (dsh_options d), sk_cnt = interval (dsh_options d),
     sk_intvl = count (dsh_options d)\<rparr>"
proof -
  have open_s: "ss_open (se_sock s)"
    using s d ka run
    by (auto simp: ts_on_open_def ts_keep_alive_def ts_keep_alive_enable_def bind_Some_iff
        Let_def)
  show ?thesis
    using s d ka run ts_keep_alive_eq [OF open_s]
    by (auto simp: ts_on_open_def bind_Some_iff Let_def ts_send_status_def
        dest!: tcp_server_message_status_world)
qed

text \<open>A failed accept is the last one.\<close>

lemma listener_accept_error:
  assumes "tv_listeners w l = Some li"
  shows "\<exists>w'. listener_on_accept L l (Inl ec) (w, c) = Some (w', c) \<and>
    tv_listeners w' l = Some (li\<lparr>li_accepts := li_accepts li - 1\<rparr>)"
  using assms by (simp add: listener_on_accept_def Let_def)

section \<open>Properties\<close>

text \<open>
  Keep-alive of the sessions of a TCP server: a session that opens with the option
  set joins the share of its listener and gets the idle time of the open request, but
  the interval as the number of probes and the number of probes as the interval.
\<close>

theorem tcp_server_keepalive_swapped:
  assumes "tv_sessions w n = Some s" "ts_share_data n w = Some d" "keep_alive (dsh_options d)"
    and "ts_on_open L n (w, c) = Some (w', c')"
  shows "(\<exists>s'. tv_sessions w' n = Some s' \<and> se_keepalive s' =
      \<lparr>sk_enabled = True, sk_idle = idle (dsh_options d), sk_cnt = interval (dsh_options d),
       sk_intvl = count (dsh_options d)\<rparr>) \<and>
    (\<exists>li. tv_listeners w' (se_listener s) = Some li \<and> n \<in> set (sh_set (li_share li)))"
proof -
  have "\<exists>li. tv_listeners w' (se_listener s) = Some li \<and> n \<in> set (sh_set (li_share li))"
    using assms by (auto simp: ts_on_open_def bind_Some_iff Let_def ts_send_status_def
        ts_share_data_def share_join_def dest!: tcp_server_message_status_world)
  then show ?thesis using ts_on_open_keepalive [OF assms] by blast
qed

definition li_ka :: ts_listener where
  "li_ka = set_share_data \<lparr>keep_alive = True, idle = 30, interval = 10, count = 3\<rparr>
     (snd (make_listener (\<lambda>_. None) False))"

definition tv_ka :: "nat ts_world" where
  "tv_ka = \<lparr>tv_next = 2, tv_sessions = [1 \<mapsto> se_demo 4000], tv_listeners = [0 \<mapsto> li_ka],
     tv_servers = [(Endpoint 1 2000, 0)]\<rparr>"

definition tv_core :: "unit core" where
  "tv_core = (core_init (\<lambda>_. 0))\<lparr>c_apps :=
     [(tcp_server, \<lparr>app_id = tcp_server, app_name = Some ''tcp_server'', app_func = None\<rparr>)]\<rparr>"

lemma tcp_server_message_status_total:
  assumes "ts_endpoints w = Some eps" "factory_app c tcp_server = Some nm"
    and "\<And>sec ep. (sec, ep) \<in> set eps \<Longrightarrow> \<exists>ec v. ts_clients ep w = Some (ec, v)"
  shows "\<exists>c'. tcp_server_message_status L (w, c) = Some (w, c')"
proof -
  have "\<exists>cl. map_opt (\<lambda>(sec, ep). do { (ec, v) \<leftarrow> ts_clients ep w; Some (ep, v) }) eps = Some cl"
    unfolding map_opt_total_iff using assms(3) by fastforce
  then show ?thesis
    using assms(1,2)
    by (auto simp: tcp_server_message_status_def tcp_server_make_status_message_def
        create_control_doc_eq)
qed

theorem tcp_server_keepalive_swapped_witness:
  "\<exists>w' c' s'. ts_on_open jv_net 1 (tv_ka, tv_core) = Some (w', c') \<and> tv_sessions w' 1 = Some s' \<and>
     se_keepalive s' = \<lparr>sk_enabled = True, sk_idle = 30, sk_cnt = 10, sk_intvl = 3\<rparr>"
proof -
  let ?d = "\<lparr>dsh_options = \<lparr>keep_alive = True, idle = 30, interval = 10, count = 3\<rparr>,
    dsh_send_status = True\<rparr>"
  let ?s = "se_demo 4000"
  have s: "tv_sessions tv_ka 1 = Some ?s" by (simp add: tv_ka_def)
  have l: "se_listener ?s = 0" "tv_listeners tv_ka 0 = Some li_ka"
    by (simp_all add: tv_ka_def se_demo_def)
  have d: "ts_share_data 1 tv_ka = Some ?d"
    using s l by (simp add: ts_share_data_def li_ka_def set_share_data_def)
  have o: "ss_open (se_sock ?s)" by (simp add: se_demo_def tcp_session_defs)
  define w1 where "w1 = tv_session 1 (\<lambda>_. ?s\<lparr>se_keepalive :=
      \<lparr>sk_enabled = True, sk_idle = 30, sk_cnt = 10, sk_intvl = 3\<rparr>\<rparr>)
    (tv_listener 0 (\<lambda>li. li\<lparr>li_share := share_join 1 (li_share li)\<rparr>) tv_ka)"
  have "\<exists>c'. tcp_server_message_status jv_net (w1, tv_core) = Some (w1, c')"
  proof (rule tcp_server_message_status_total)
    show "ts_endpoints w1 = Some [(False, Endpoint 1 2000)]"
      by (simp add: w1_def ts_endpoints_def tv_ka_def li_ka_def set_share_data_def
          make_listener_def listener_init_def listener_new_def listener_do_accept_def Let_def
          tv_session_def tv_listener_def)
    show "factory_app tv_core tcp_server = Some ''tcp_server''"
      by (simp add: tv_core_def factory_app_def Dispatcher_app_def)
    show "\<exists>ec v. ts_clients ep w1 = Some (ec, v)" for ep
      by (simp add: w1_def ts_clients_def tv_ka_def li_ka_def listener_clients_def
          ts_exec_to_all_def share_exec_to_all_def set_share_data_def make_listener_def
          listener_init_def listener_new_def listener_do_accept_def Let_def share_join_def
          share_new_def List.insert_def ts_lock_def ts_visit_def ts_alive_def ts_endpoint_def
          se_demo_def tcp_session_defs)
  qed
  moreover have d1: "ts_share_data 1 w1 = Some ?d"
    using s l by (simp add: w1_def ts_share_data_def li_ka_def set_share_data_def share_join_def)
  ultimately have "\<exists>c'. ts_on_open jv_net 1 (tv_ka, tv_core) = Some (w1, c')"
    using s l d d1 ts_keep_alive_eq [OF o]
    by (simp add: ts_on_open_def ts_send_status_def w1_def [symmetric] Let_def del: One_nat_def)
  then obtain c' where run: "ts_on_open jv_net 1 (tv_ka, tv_core) = Some (w1, c')" by blast
  from tcp_server_keepalive_swapped [OF s d _ run] run show ?thesis by simp
qed

definition bad_open :: jval where
  "bad_open = JObj [(''data'', JObj [(''port'', JNum 3000), (''secure'', JStr ''plain''),
     (''addr'', JStr ''nowhere'')])]"

lemma bad_open_parsed: "tcp_server_parser_open jv_net bad_open = Some (Some \<lparr>tso_secure = plain,
    tso_port = 3000, tso_addr = ''nowhere'', tso_options = no_keepalive\<rparr>)"
  by (simp add: tcp_server_parser_open_def tcp_server_check_open_def bad_open_def has_with_object
      member_of_def opt_and_def DATA_KEY_def tcp_server_get_open_def member_uint_def
      get_uint_def is_valid_port_def member_c_str_eq c_str_def tcp_server_keepalive_def
      tcp_server_check_keepalive_def)

text \<open>
  Opening a TCP server on an address text that does not denote an address is not
  reported as a malformed message: the request passes the parser and the conversion
  throws in the handler, which ends the program.
\<close>

theorem tcp_server_open_bad_text:
  assumes "tcp_server_parser_open L doc = Some (Some d)" "make_address L (tso_addr d) = None"
    and "md_type md = control_type" "md_control md = Some open_c"
  shows "tpc_server_app L use_ssl supports r ws md doc (w, c) = None"
  using assms by (simp add: tpc_server_app_def tcp_server_open_bad_address)

theorem tcp_server_open_bad_text_witness:
  "tpc_server_app jv_net False (\<lambda>_. True) (\<lambda>_. None) 0
     \<lparr>md_app = tcp_server, md_time = 0, md_type = control_type, md_control = Some open_c\<rparr> bad_open
     (tv_ka, tv_core) = None"
  by (rule tcp_server_open_bad_text [OF bad_open_parsed]) (simp_all add: make_address_def c_str_def)

end
