(* ===== verification/Init_Apps.thy ===== *)
theory Init_Apps
  imports Websocket_Core Echo_App Monitor_App Serial_App Udp_Apps Tcp_Client_App Tcp_Server_App
begin

text \<open>
  The table of applications as the program fills it, \<open>src/src/apps/init_apps.cpp\<close>, and
  the applications behind its functors as one state.  The build options decide which
  applications are registered; the answers of the operating system to one request are
  the record \<open>os_answers\<close>.
\<close>

section \<open>Registration\<close>

datatype app_fun =
    Echo_Fun | Serial_Fun | Monitor_Fun | Tcp_Server_Fun | Tcp_Client_Fun | Udp_Client_Fun
  | Udp_Server_Fun

text \<open>The macros \<open>USE_APP_...\<close>; for the TCP applications 1 is plain, 2 SSL and 3 both.\<close>

record build_options =
  use_app_echo :: nat
  use_app_serial :: nat
  use_app_monitor :: nat
  use_app_tcp_server :: nat
  use_app_tcp_client :: nat
  use_app_udp_client :: nat
  use_app_udp_server :: nat
  use_ssl_build :: bool

definition reg ::
  "bool \<Rightarrow> Message_App \<Rightarrow> string \<Rightarrow> app_fun \<Rightarrow> app_fun app_table \<Rightarrow> app_fun app_table" where
  "reg enabled a nm f apps =
     (if enabled then register_app apps \<lparr>app_id = a, app_name = Some nm, app_func = Some f\<rparr>
      else apps)"

definition tcp_enabled :: "nat \<Rightarrow> bool" where
  "tcp_enabled n \<longleftrightarrow> 0 < n \<and> n \<le> 3"

definition init_apps :: "build_options \<Rightarrow> app_fun app_table \<Rightarrow> app_fun app_table" where
  "init_apps b apps =
     (let apps = register_app apps \<lparr>app_id = main, app_name = Some ''main'', app_func = None\<rparr>;
          apps = reg (use_app_echo b = 1) echo ''echo'' Echo_Fun apps;
          apps = reg (use_app_serial b = 1) serial ''serial'' Serial_Fun apps;
          apps = reg (use_app_monitor b = 1) monitor ''monitor'' Monitor_Fun apps;
          apps = reg (tcp_enabled (use_app_tcp_server b)) tcp_server ''tcp_server'' Tcp_Server_Fun apps;
          apps = reg (tcp_enabled (use_app_tcp_client b)) tcp_client ''tcp_client'' Tcp_Client_Fun apps;
          apps = reg (use_app_udp_client b = 1) udp_client ''udp_client'' Udp_Client_Fun apps in
      reg (use_app_udp_server b = 1) udp_server ''udp_server'' Udp_Server_Fun apps)"

section \<open>The applications together\<close>

text \<open>The containers are created with the functors and live as long as the table.\<close>

record 'a apps_state =
  as_monitor :: Executor
  as_serials :: serials
  as_tcp_servers :: "'a ts_world"
  as_tcp_clients :: "'a tc_world"
  as_udp_clients :: "'a udp_clients"
  as_udp_servers :: "'a udp_servers"

definition apps_init :: "'a apps_state" where
  "apps_init = \<lparr>as_monitor = Executor_new, as_serials = [], as_tcp_servers = ts_world_init,
     as_tcp_clients = tc_world_init, as_udp_clients = [], as_udp_servers = []\<rparr>"

text \<open>What the operating system and the libraries answer while one request is handled.\<close>

record 'a os_answers =
  os_char_ok :: "u32 \<Rightarrow> bool"
  os_serial :: serial_os
  os_info :: bool
  os_uptime :: bool
  os_listen :: "nat \<Rightarrow> error_code option"
  os_udp_bound :: "'a endpoint option"
  os_udp_close :: "error_code option"
  os_udp_opened :: bool
  os_udp_bind :: "error_code option"

text \<open>The template arguments of the TCP containers.\<close>

fun tcp_supports :: "nat \<Rightarrow> Secure_Type \<Rightarrow> bool" where
  "tcp_supports n plain = (n = 1 \<or> n = 3)"
| "tcp_supports n ssl = (n = 2 \<or> n = 3)"

text \<open>\<open>lift_app\<close> runs a handler on its own part of the state.\<close>

definition lift_app ::
  "('s \<Rightarrow> 'p) \<Rightarrow> ('p \<Rightarrow> 's \<Rightarrow> 's) \<Rightarrow> ('p \<times> 'f core \<Rightarrow> ('p \<times> 'f core) option) \<Rightarrow> 's \<times> 'f core
     \<Rightarrow> ('s \<times> 'f core) option" where
  "lift_app part put h = (\<lambda>(st, c). do {
     (p, c) \<leftarrow> h (part st, c); Some (put p st, c) })"

fun call_app ::
  "('j, 'a :: linorder, 'z) net_lib_scheme \<Rightarrow> build_options \<Rightarrow> 'a os_answers \<Rightarrow> app_fun \<Rightarrow> nat
     \<Rightarrow> Main_Data \<Rightarrow> 'j \<Rightarrow> 'a apps_state \<times> app_fun core
     \<Rightarrow> ('a apps_state \<times> app_fun core) option" where
  "call_app L b os Echo_Fun ws md doc = (\<lambda>(st, c). do {
     c \<leftarrow> echo_app L ws md doc c; Some (st, c) })"
| "call_app L b os Serial_Fun ws md doc =
     lift_app as_serials (\<lambda>p st. st\<lparr>as_serials := p\<rparr>)
       (serial_app L (os_char_ok os) (os_serial os) ws md doc)"
| "call_app L b os Monitor_Fun ws md doc =
     lift_app as_monitor (\<lambda>p st. st\<lparr>as_monitor := p\<rparr>)
       (monitor_app L (os_info os) (os_uptime os) ws md doc)"
| "call_app L b os Tcp_Server_Fun ws md doc =
     lift_app as_tcp_servers (\<lambda>p st. st\<lparr>as_tcp_servers := p\<rparr>)
       (tpc_server_app L (use_ssl_build b) (tcp_supports (use_app_tcp_server b)) (os_listen os)
         ws md doc)"
| "call_app L b os Tcp_Client_Fun ws md doc =
     lift_app as_tcp_clients (\<lambda>p st. st\<lparr>as_tcp_clients := p\<rparr>)
       (tpc_client_app L (use_ssl_build b) (tcp_supports (use_app_tcp_client b)) ws md doc)"
| "call_app L b os Udp_Client_Fun ws md doc =
     lift_app as_udp_clients (\<lambda>p st. st\<lparr>as_udp_clients := p\<rparr>)
       (udp_client_app L (os_udp_bound os) (os_udp_close os) ws md doc)"
| "call_app L b os Udp_Server_Fun ws md doc =
     lift_app as_udp_servers (\<lambda>p st. st\<lparr>as_udp_servers := p\<rparr>)
       (udp_server_app L (os_udp_opened os) (os_udp_bind os) (os_udp_close os) ws md doc)"

text \<open>A message that arrives on a session, with the table and the applications as they are.\<close>

definition program_on_message ::
  "('j, 'a :: linorder, 'z) net_lib_scheme \<Rightarrow> build_options \<Rightarrow> 'a os_answers \<Rightarrow> nat \<Rightarrow> byte_array
     \<Rightarrow> 'a apps_state \<times> app_fun core \<Rightarrow> ('a apps_state \<times> app_fun core) option" where
  "program_on_message L b os ws body = core_on_message L (call_app L b os) ws body"

section \<open>Lemmas on the table\<close>

definition app_entry :: "build_options \<Rightarrow> Message_App \<Rightarrow> app_fun app_rec option" where
  "app_entry b a =
     (let e = (\<lambda>en nm f. if en then Some \<lparr>app_id = a, app_name = Some nm, app_func = f\<rparr> else None) in
      case a of
        main \<Rightarrow> e True ''main'' None
      | echo \<Rightarrow> e (use_app_echo b = 1) ''echo'' (Some Echo_Fun)
      | serial \<Rightarrow> e (use_app_serial b = 1) ''serial'' (Some Serial_Fun)
      | monitor \<Rightarrow> e (use_app_monitor b = 1) ''monitor'' (Some Monitor_Fun)
      | tcp_server \<Rightarrow> e (tcp_enabled (use_app_tcp_server b)) ''tcp_server'' (Some Tcp_Server_Fun)
      | tcp_client \<Rightarrow> e (tcp_enabled (use_app_tcp_client b)) ''tcp_client'' (Some Tcp_Client_Fun)
      | udp_client \<Rightarrow> e (use_app_udp_client b = 1) ''udp_client'' (Some Udp_Client_Fun)
      | udp_server \<Rightarrow> e (use_app_udp_server b = 1) ''udp_server'' (Some Udp_Server_Fun))"

lemma reg_lookup:
  "map_of (reg en a nm f apps) m = (case map_of apps m of Some x \<Rightarrow> Some x | None \<Rightarrow>
     if en \<and> m = a then Some \<lparr>app_id = a, app_name = Some nm, app_func = Some f\<rparr> else None)"
  by (auto simp: reg_def register_app_lookup split: option.splits)

lemma table_ok_reg: "table_ok apps \<Longrightarrow> table_ok (reg en a nm f apps)"
  by (simp add: reg_def table_ok_register)

lemma init_apps_ok: "table_ok (init_apps b [])"
  unfolding init_apps_def Let_def by (intro table_ok_reg table_ok_register table_ok_empty) simp

lemma init_apps_lookup: "map_of (init_apps b []) a = app_entry b a"
  by (cases a) (simp_all add: init_apps_def Let_def reg_lookup register_app_lookup app_entry_def)

fun name_of :: "Message_App \<Rightarrow> string" where
  "name_of main = ''main''" | "name_of echo = ''echo''" | "name_of serial = ''serial''"
| "name_of monitor = ''monitor''" | "name_of tcp_server = ''tcp_server''"
| "name_of tcp_client = ''tcp_client''" | "name_of udp_client = ''udp_client''"
| "name_of udp_server = ''udp_server''"

lemma name_of_inj: "name_of a = name_of b \<Longrightarrow> a = b"
  by (cases a; cases b) simp_all

lemma app_entry_name: "app_entry b a = Some r \<Longrightarrow> app_name r = Some (name_of a) \<and> app_id r = a"
  by (cases a) (auto simp: app_entry_def Let_def split: if_splits)

lemma name_of_c_str: "c_str (name_of a) = name_of a"
  by (cases a) (simp_all add: c_str_def)

lemma init_apps_inj:
  "inj_on (\<lambda>(k, r). c_str (the (app_name r))) (set (init_apps b []))"
proof (rule inj_onI)
  fix p q assume pq: "p \<in> set (init_apps b [])" "q \<in> set (init_apps b [])"
    and eq: "(case p of (k, r) \<Rightarrow> c_str (the (app_name r))) =
      (case q of (k, r) \<Rightarrow> c_str (the (app_name r)))"
  obtain k r k' r' where p: "p = (k, r)" "q = (k', r')" by force
  have d: "distinct (map fst (init_apps b []))" using init_apps_ok by (simp add: table_ok_def)
  have e: "app_entry b k = Some r" "app_entry b k' = Some r'"
    using pq p d by (simp_all add: init_apps_lookup [symmetric])
  then have "name_of k = name_of k'"
    using eq p app_entry_name [OF e(1)] app_entry_name [OF e(2)] by (simp add: name_of_c_str)
  then show "p = q" using name_of_inj e p by fastforce
qed

lemma init_apps_factory:
  "factory_app c a = map_option name_of (if app_entry b a = None then None else Some a)"
  if "c_apps c = init_apps b []"
  using that app_entry_name [of b a]
  by (cases "app_entry b a") (auto simp: factory_app_def Dispatcher_app_def init_apps_lookup)

lemma init_apps_main: "c_apps c = init_apps b [] \<Longrightarrow> factory_app c main = Some ''main''"
  using init_apps_factory [of c b main] by (simp add: app_entry_def Let_def)

lemma init_apps_name: "Dispatcher_name (init_apps b []) (name_of a) = Some (app_entry b a)"
proof -
  obtain r where r: "Dispatcher_name (init_apps b []) (name_of a) = Some r"
    using Dispatcher_name_total [OF init_apps_ok] by blast
  have sound: "app_entry b a = Some x" if "r = Some x" for x
  proof -
    obtain k m where k: "(k, x) \<in> set (init_apps b [])" "app_name x = Some m" "c_str m = name_of a"
      using Dispatcher_name_sound r \<open>r = Some x\<close> by blast
    then have e: "app_entry b k = Some x"
      using init_apps_ok [of b] by (simp add: init_apps_lookup [symmetric] table_ok_def)
    then have "name_of k = name_of a" using k app_entry_name [OF e] name_of_c_str [of k] by auto
    then show ?thesis using e name_of_inj by blast
  qed
  show ?thesis
  proof (cases "app_entry b a")
    case None
    then show ?thesis using r sound by (cases r) auto
  next
    case (Some x)
    then have "(a, x) \<in> set (init_apps b [])" by (simp add: init_apps_lookup [symmetric] map_of_SomeD)
    then show ?thesis
      using Dispatcher_name_hit [OF init_apps_ok _ _ init_apps_inj, of a x b "name_of a"]
        app_entry_name [OF Some] Some by (simp add: name_of_c_str)
  qed
qed

lemma init_apps_no_name:
  assumes "Dispatcher_name (init_apps b []) n = Some (Some x)"
  shows "n \<in> range name_of"
proof -
  obtain k m where k: "(k, x) \<in> set (init_apps b [])" "app_name x = Some m" "c_str m = n"
    using Dispatcher_name_sound [OF assms] by blast
  then have "app_entry b k = Some x"
    using init_apps_ok [of b] by (simp add: init_apps_lookup [symmetric] table_ok_def)
  then show ?thesis using k app_entry_name [of b k x] by (auto simp: name_of_c_str)
qed

section \<open>Properties\<close>

text \<open>
  C6: The table the program starts with.  Whatever the build options, it is well formed;
  each application is present exactly when its option enables it, with its identifier, its
  name and its functor (\<open>app_entry\<close>); looking up the name of an application finds it
  exactly when it is enabled, and a text that is not one of the eight names is not found.
\<close>

theorem init_apps_table:
  "table_ok (init_apps b []) \<and> Dispatcher_app (init_apps b []) a = app_entry b a \<and>
   Dispatcher_name (init_apps b []) (name_of a) = Some (app_entry b a) \<and>
   (Dispatcher_name (init_apps b []) n = Some None \<or> n \<in> range name_of)"
proof -
  obtain r where "Dispatcher_name (init_apps b []) n = Some r"
    using Dispatcher_name_total [OF init_apps_ok] by blast
  then have "Dispatcher_name (init_apps b []) n = Some None \<or> n \<in> range name_of"
    using init_apps_no_name by (cases r) auto
  then show ?thesis
    using init_apps_ok init_apps_name by (simp add: Dispatcher_app_def init_apps_lookup)
qed

end
