(* ===== verification/Growth.thy ===== *)
theory Growth
  imports Init_Apps
begin

text \<open>
  What every handler of every application keeps of the core: it does not touch the table
  of applications or the clock, and it only appends to the writes that are waiting to be
  carried out.  \<open>grows\<close> states this of two cores, and there is one lemma per handler, in
  the order the theories define them; each follows from those of the functions it calls.
\<close>

section \<open>Growth\<close>

definition grows :: "'f core \<Rightarrow> 'f core \<Rightarrow> bool" where
  "grows c c' = (c_apps c' = c_apps c \<and> c_clock c' = c_clock c \<and> (\<exists>as. c_out c' = c_out c @ as))"

lemma grows_refl [simp, intro]: "grows c c"
  by (simp add: grows_def)

lemma grows_trans: "\<lbrakk>grows c c1; grows c1 c2\<rbrakk> \<Longrightarrow> grows c c2"
  by (auto simp: grows_def)

lemma grows_emit [intro]: "grows c c1 \<Longrightarrow> grows c (emit a c1)"
  by (auto simp: grows_def emit_def)

lemma grows_after [intro]: "grows c c1 \<Longrightarrow> grows c (after_msg c1)"
  by (auto simp: grows_def)

named_theorems growth \<open>a function that returned has only grown the core\<close>

lemma map_option_after:
  "map_option (\<lambda>n. (f n, after_msg c)) m = Some (s, c') \<Longrightarrow> c' = after_msg c"
  by auto

lemma bind_SomeE:
  assumes "Option.bind m f = Some y"
  obtains x where "m = Some x" "f x = Some y"
  using assms by (auto simp: bind_Some_iff)

lemma create_growth [growth]:
  "make_data_obj L ap c = Some (ms, c') \<Longrightarrow> grows c c'"
  "make_control_obj L ap con c = Some (ms, c') \<Longrightarrow> grows c c'"
  "create_data_value L ap doc c = Some (s, c') \<Longrightarrow> grows c c'"
  "create_data_bytes L ap b c = Some (s, c') \<Longrightarrow> grows c c'"
  "create_data_strings L ap vs c = Some (s, c') \<Longrightarrow> grows c c'"
  "create_control_doc L ap con doc c = Some (s, c') \<Longrightarrow> grows c c'"
  "create_control_strings L ap con vs c = Some (s, c') \<Longrightarrow> grows c c'"
  "create_control_unsigned L ap con n c = Some (s, c') \<Longrightarrow> grows c c'"
  "make_error_message L ap ec what c = Some (s, c') \<Longrightarrow> grows c c'"
  by (auto simp: make_data_obj_eq make_control_obj_eq create_data_value_eq create_data_bytes_eq
      create_control_doc_eq make_error_message_eq create_defs bind_Some_iff)

lemma fail_growth [growth]:
  "fail_message L ws ap ec what c = Some c' \<Longrightarrow> grows c c'"
  "fail_message_all L ap ec what c = Some c' \<Longrightarrow> grows c c'"
  by (auto simp: fail_message_def fail_message_all_def bind_Some_iff dest!: growth)

section \<open>Echo and monitor\<close>

lemma echo_growth [growth]:
  "send_echo L doc c = Some c' \<Longrightarrow> grows c c'"
  by (auto simp: send_echo_def bind_Some_iff dest!: growth)

lemma echo_app_growth [growth]:
  "echo_app L ws md doc c = Some c' \<Longrightarrow> grows c c'"
  by (auto simp: echo_app_def bind_Some_iff Let_def split: if_splits option.splits dest!: growth)

lemma exec_calculate_growth [growth]:
  "exec_calculate L info uptime e c = Some (e', c') \<Longrightarrow> grows c c'"
  by (auto simp: exec_calculate_def bind_Some_iff split: if_splits dest!: growth)

lemma exec_init_growth [growth]:
  "exec_init L info uptime e c = Some (r, e', c') \<Longrightarrow> grows c c'"
  by (auto simp: exec_init_def bind_Some_iff split: if_splits dest!: growth)

lemma exec_do_wait_growth [growth]:
  "exec_do_wait L ab end_info doc shares info uptime e c = Some (e', c') \<Longrightarrow> grows c c'"
  by (auto simp: exec_do_wait_def Let_def split: if_splits elim!: bind_SomeE dest!: growth)
    (blast intro: grows_trans)+

lemma send_monitor_growth [growth]:
  "send_monitor_data L info uptime ws doc (e, c) = Some (e', c') \<Longrightarrow> grows c c'"
  by (auto simp: send_monitor_data_def bind_Some_iff Let_def split: if_splits option.splits dest!: growth)

lemma monitor_growth [growth]:
  "monitor_app L info uptime ws md doc (e, c) = Some (e', c') \<Longrightarrow> grows c c'"
  by (auto simp: monitor_app_def bind_Some_iff split: if_splits dest!: growth)

section \<open>Messages of the other applications\<close>

lemma make_growth [growth]:
  "serial_make_data L nm b c = Some (m, c') \<Longrightarrow> grows c c'"
  "tcp_client_make_status_message N cs c = Some (s, c') \<Longrightarrow> grows c c'"
  "tcp_client_make_received_message N e b c = Some (s, c') \<Longrightarrow> grows c c'"
  "tcp_server_make_status_message N n es cl c = Some (s, c') \<Longrightarrow> grows c c'"
  "tcp_server_make_received_message N e e' b c = Some (s, c') \<Longrightarrow> grows c c'"
  "udp_client_make_status_message N ps c = Some (s, c') \<Longrightarrow> grows c c'"
  "udp_client_make_received_message N e b c = Some (s, c') \<Longrightarrow> grows c c'"
  "udp_server_make_status_message N vs c = Some (s, c') \<Longrightarrow> grows c c'"
  "udp_server_make_received_message N e e' b c = Some (s, c') \<Longrightarrow> grows c c'"
  by (auto simp: serial_make_data_def tcp_client_make_status_message_def
      tcp_client_make_received_message_def tcp_server_make_status_message_def
      tcp_server_make_received_message_def udp_client_make_status_message_def
      udp_client_make_received_message_def udp_server_make_status_message_def
      udp_server_make_received_message_def bind_Some_iff dest!: growth)

section \<open>Serial devices\<close>

lemma serial_ports_growth:
  assumes "serial_ports_loop L os vanish ps s = Some (js, s')"
    and "\<And>p m c m' c'. vanish p (m, c) = Some (m', c') \<Longrightarrow> grows c c'"
  shows "grows (snd s) (snd s')"
  using assms(1)
proof (induction ps arbitrary: s js)
  case (Cons p ps)
  obtain m c where s: "s = (m, c)" by force
  from Cons.prems s obtain cfg m1 c1 js' where
    one: "(if \<not> serials_is_open m p then Some (None, m, c)
        else (case serials_get_config (so_options os p) p m of
            (Inr v, m) \<Rightarrow> Some (Some v, m, c)
          | (Inl ec, m) \<Rightarrow>
              if vanished ec
              then do { (m, c) \<leftarrow> vanish p (m, c); Some (None, m, c) }
              else Some (None, m, c))) = Some (cfg, m1, c1)"
    and rest: "serial_ports_loop L os vanish ps (m1, c1) = Some (js', s')"
    by (auto simp: bind_Some_iff Let_def)
  have "grows c c1"
    using one assms(2) by (auto simp: bind_Some_iff split: if_splits prod.splits sum.splits)
  moreover have "grows c1 (snd s')" using Cons.IH [OF rest] by simp
  ultimately show ?case using s by (simp add: grows_trans [of c c1])
qed simp

lemma serial_vanish_growth:
  assumes "serial_vanish os send name (m, c) = Some (m', c')"
    and "\<And>m c m' c'. send (m, c) = Some (m', c') \<Longrightarrow> grows c c'"
  shows "grows c c'"
  using assms by (auto simp: serial_vanish_def bind_Some_iff split: prod.splits)

lemma serial_status_growth [growth]:
  "serial_status n L os (m, c) = Some (m', c') \<Longrightarrow> grows c c'"
proof (induction n arbitrary: m c m' c')
  case (Suc n)
  from Suc.prems obtain ports m1 c1 msg c2 where
    loop: "serial_ports_loop L os (serial_vanish os (serial_status n L os))
       (scan_ports (so_entries os)) (m, c) = Some (ports, m1, c1)"
    and msg: "create_control_doc L serial status (jd_object L [(''ports'', jd_array L ports)]) c1 =
      Some (msg, c2)"
    and c': "c' = emit (Write_All_Same (Byte_Array_of msg)) c2"
    by (auto simp: bind_Some_iff)
  have "grows c c1"
    using serial_ports_growth [OF loop] serial_vanish_growth Suc.IH by (metis snd_conv)
  then show ?case using growth(6) [OF msg] c' by (blast intro: grows_trans)
qed simp

lemma serial_send_growth [growth]:
  "serial_send_status L os (m, c) = Some (m', c') \<Longrightarrow> grows c c'"
  by (simp add: serial_send_status_def del: serial_status.simps, erule growth)

lemma serial_close_growth [growth]:
  "serial_close_callback L os name (m, c) = Some (m', c') \<Longrightarrow> grows c c'"
  unfolding serial_close_callback_def by (erule serial_vanish_growth) (rule growth)

lemma serial_read_growth [growth]:
  "serial_read_handler L name data (m, c) = Some (m', c') \<Longrightarrow> grows c c'"
  by (auto simp: serial_read_handler_def bind_Some_iff dest!: growth)

lemma serial_events_growth [growth]:
  "serial_events L os name es (m, c) = Some (m', c') \<Longrightarrow> grows c c'"
proof (induction es arbitrary: m c)
  case (Cons e es)
  then show ?case
    by (cases e) (auto simp: bind_Some_iff dest!: growth intro: grows_trans)
qed simp

lemma serial_run_growth [growth]:
  "serial_run L os name f (m, c) = Some (m', c') \<Longrightarrow> grows c c'"
  by (auto simp: serial_run_def Let_def bind_Some_iff dest!: growth)

lemma serial_message_growth [growth]:
  "serial_message L ws doc (m, c) = Some (m', c') \<Longrightarrow> grows c c'"
  by (auto simp: serial_message_def case_prod_beta elim!: bind_SomeE split: option.splits dest!: growth)

lemma serial_config_growth [growth]:
  "serial_config L os ws cfg (m, c) = Some (m', c') \<Longrightarrow> grows c c'"
  by (auto simp: serial_config_def case_prod_beta elim!: bind_SomeE split: option.splits if_splits
      dest!: growth intro: grows_trans)

lemma serial_open_growth [growth]:
  "serial_open_request L ok os ws doc (m, c) = Some (m', c') \<Longrightarrow> grows c c'"
  by (auto simp: serial_open_request_def case_prod_beta elim!: bind_SomeE split: option.splits if_splits dest!: growth) (blast intro: grows_trans)+

lemma serial_close_request_growth [growth]:
  "serial_close_request L os ws doc (m, c) = Some (m', c') \<Longrightarrow> grows c c'"
  by (auto simp: serial_close_request_def case_prod_beta elim!: bind_SomeE split: option.splits
      dest!: growth)

lemma serial_app_growth [growth]:
  "serial_app L ok os ws md doc (m, c) = Some (m', c') \<Longrightarrow> grows c c'"
  by (cases "md_control md"; cases "the (md_control md)")
    (auto simp: serial_app_def split: if_splits elim!: bind_SomeE dest!: growth intro: grows_trans)

section \<open>TCP clients\<close>

lemma tcp_client_status_growth [growth]:
  "tcp_client_message_status L (w, c) = Some (w', c') \<Longrightarrow> grows c c'"
  by (auto simp: tcp_client_message_status_def elim!: bind_SomeE dest!: growth)

lemma tcp_client_init_growth [growth]:
  "tcp_client_init L stale n (w, c) = Some (w', c') \<Longrightarrow> grows c c'"
  by (auto simp: tcp_client_init_def dest!: growth)

lemma tcp_client_callback_growth [growth]:
  "tcp_client_connected L stale n r (w, c) = Some (w', c') \<Longrightarrow> grows c c'"
  "tcp_client_read_handler L n b (w, c) = Some (w', c') \<Longrightarrow> grows c c'"
  "tcp_client_on_open n (w, c) = Some (w', c') \<Longrightarrow> grows c c'"
  "tcp_client_on_error K ec what (w, c) = Some (w', c') \<Longrightarrow> grows c c'"
  "tcp_client_on_close L none n (w, c) = Some (w', c') \<Longrightarrow> grows c c'"
  by (auto simp: tcp_client_connected_def tcp_client_read_handler_def tcp_client_on_open_def
      tcp_client_on_error_def tcp_client_on_close_def Let_def elim!: bind_SomeE
      split: option.splits dest!: growth)

lemma tcp_client_events_growth [growth]:
  "tcp_client_events L none stale n es (w, c) = Some (w', c') \<Longrightarrow> grows c c'"
proof (induction es arbitrary: w c)
  case (Cons e es)
  obtain w1 c1 where e: "tcp_client_event L none stale n e (w, c) = Some (w1, c1)"
    and es: "tcp_client_events L none stale n es (w1, c1) = Some (w', c')"
    using Cons.prems by (auto elim!: bind_SomeE)
  have "grows c c1"
    using e by (cases "(L, none, stale, n, e, (w, c))" rule: tcp_client_event.cases)
      (auto dest!: growth)
  then show ?case using Cons.IH [OF es] by (rule grows_trans)
qed simp

lemma tcp_client_run_growth [growth]:
  "tcp_client_run L none stale n f (w, c) = Some (w', c') \<Longrightarrow> grows c c'"
  by (auto simp: tcp_client_run_def Let_def elim!: bind_SomeE dest!: growth)

lemma tcp_client_request_growth [growth]:
  "tcp_client_message_data L ws doc (w, c) = Some (w', c') \<Longrightarrow> grows c c'"
  "tcp_client_message_close L ws doc (w, c) = Some (w', c') \<Longrightarrow> grows c c'"
  "tcp_client_message_open L use_ssl supp ws doc (w, c) = Some (w', c') \<Longrightarrow> grows c c'"
  by (auto simp: tcp_client_message_data_def tcp_client_message_close_def
      tcp_client_message_open_def case_prod_beta elim!: bind_SomeE split: option.splits
      dest!: growth)

lemma tpc_client_app_growth [growth]:
  "tpc_client_app L use_ssl supp ws md doc (w, c) = Some (w', c') \<Longrightarrow> grows c c'"
  by (cases "md_control md"; cases "the (md_control md)")
    (auto simp: tpc_client_app_def split: if_splits elim!: bind_SomeE dest!: growth)

section \<open>TCP servers\<close>

lemma tcp_server_status_growth [growth]:
  "tcp_server_message_status L (w, c) = Some (w', c') \<Longrightarrow> grows c c'"
  by (auto simp: tcp_server_message_status_def elim!: bind_SomeE dest!: growth)

lemma ts_send_status_growth [growth]:
  "ts_send_status L n (w, c) = Some (w', c') \<Longrightarrow> grows c c'"
  by (auto simp: ts_send_status_def elim!: bind_SomeE dest!: growth)

lemma ts_callback_growth [growth]:
  "ts_on_open L n (w, c) = Some (w', c') \<Longrightarrow> grows c c'"
  "ts_read_handler L n b (w, c) = Some (w', c') \<Longrightarrow> grows c c'"
  "ts_on_error K ec what (w, c) = Some (w', c') \<Longrightarrow> grows c c'"
  "ts_on_close L n (w, c) = Some (w', c') \<Longrightarrow> grows c c'"
  by (auto simp: ts_on_open_def ts_read_handler_def ts_on_error_def ts_on_close_def Let_def
      elim!: bind_SomeE dest!: growth)

lemma ts_events_growth [growth]:
  "ts_events L n es (w, c) = Some (w', c') \<Longrightarrow> grows c c'"
proof (induction es arbitrary: w c)
  case (Cons e es)
  then show ?case
    by (cases e) (auto elim!: bind_SomeE dest!: growth elim: grows_trans)
qed simp

lemma ts_run_growth [growth]: "ts_run L n f (w, c) = Some (w', c') \<Longrightarrow> grows c c'"
  by (auto simp: ts_run_def Let_def elim!: bind_SomeE dest!: growth)

lemma listener_on_accept_growth [growth]:
  "listener_on_accept L l r (w, c) = Some (w', c') \<Longrightarrow> grows c c'"
  by (auto simp: listener_on_accept_def Let_def elim!: bind_SomeE split: sum.splits dest!: growth)

lemma tcp_server_request_growth [growth]:
  "tcp_server_message_data L ws doc (w, c) = Some (w', c') \<Longrightarrow> grows c c'"
  "tcp_server_message_close L ws doc (w, c) = Some (w', c') \<Longrightarrow> grows c c'"
  "tcp_server_message_open L use_ssl supp lr ws doc (w, c) = Some (w', c') \<Longrightarrow> grows c c'"
  "tcp_server_message_close_clients L ws doc (w, c) = Some (w', c') \<Longrightarrow> grows c c'"
  by (auto simp: tcp_server_message_data_def tcp_server_message_close_def
      tcp_server_message_open_def tcp_server_message_close_clients_def case_prod_beta Let_def
      elim!: bind_SomeE split: option.splits if_splits dest!: growth)

lemma tpc_server_app_growth [growth]:
  "tpc_server_app L use_ssl supp lr ws md doc (w, c) = Some (w', c') \<Longrightarrow> grows c c'"
  by (cases "md_control md"; cases "the (md_control md)")
    (auto simp: tpc_server_app_def split: if_splits elim!: bind_SomeE dest!: growth)

section \<open>UDP\<close>

lemma udp_callback_growth [growth]:
  "udp_client_read_handler L uc b c = Some c' \<Longrightarrow> grows c c'"
  "udp_client_on_error K ec what c = Some c' \<Longrightarrow> grows c c'"
  "udp_server_read_handler L us b c = Some c' \<Longrightarrow> grows c c'"
  "udp_server_on_error K ec what c = Some c' \<Longrightarrow> grows c c'"
  by (auto simp: udp_client_read_handler_def udp_client_on_error_def udp_server_read_handler_def
      udp_server_on_error_def elim!: bind_SomeE dest!: growth)

lemma udp_status_growth [growth]:
  "udp_client_message_status L (m, c) = Some (m', c') \<Longrightarrow> grows c c'"
  "udp_server_message_status L (n, c) = Some (n', c') \<Longrightarrow> grows c c'"
  by (auto simp: udp_client_message_status_def udp_server_message_status_def elim!: bind_SomeE
      dest!: growth)

lemma udp_client_request_growth [growth]:
  "udp_client_message_data L ws doc (m, c) = Some (m', c') \<Longrightarrow> grows c c'"
  "udp_client_message_close L close_r ws doc (m, c) = Some (m', c') \<Longrightarrow> grows c c'"
  "udp_client_message_open L bound ws doc (m, c) = Some (m', c') \<Longrightarrow> grows c c'"
  by (auto simp: udp_client_message_data_def udp_client_message_close_def
      udp_client_message_open_def case_prod_beta elim!: bind_SomeE split: option.splits
      dest!: growth)

lemma udp_server_request_growth [growth]:
  "udp_server_message_data L ws doc (m, c) = Some (m', c') \<Longrightarrow> grows c c'"
  "udp_server_message_close L close_r ws doc (m, c) = Some (m', c') \<Longrightarrow> grows c c'"
  "udp_server_message_open L opened bind_r ws doc (m, c) = Some (m', c') \<Longrightarrow> grows c c'"
  by (auto simp: udp_server_message_data_def udp_server_message_close_def
      udp_server_message_open_def case_prod_beta elim!: bind_SomeE split: option.splits
      dest!: growth)

lemma udp_app_growth [growth]:
  "udp_client_app L bound close_r ws md doc (m, c) = Some (m', c') \<Longrightarrow> grows c c'"
  "udp_server_app L opened bind_r close_r ws md doc (n, c) = Some (n', c') \<Longrightarrow> grows c c'"
  by (cases "md_control md"; cases "the (md_control md)";
      auto simp: udp_client_app_def udp_server_app_def split: if_splits elim!: bind_SomeE
        dest!: growth)+

section \<open>Any application\<close>

lemma call_app_growth [growth]:
  "call_app L b os f ws md doc (st, c) = Some (st', c') \<Longrightarrow> grows c c'"
  by (cases f) (auto simp: lift_app_def elim!: bind_SomeE dest!: growth)

section \<open>The callbacks of the core\<close>

lemma send_growth [growth]:
  "send_status K u c = Some c' \<Longrightarrow> grows c c'"
  "send_uid K ws c = Some c' \<Longrightarrow> grows c c'"
  "send_app_list K ws c = Some c' \<Longrightarrow> grows c c'"
proof -
  have uid: "grows c (snd (user_id c))" for c :: "'f core" by (simp add: user_id_def grows_def)
  show "send_status K u c = Some c' \<Longrightarrow> grows c c'"
    by (auto simp: send_status_def make_status_def elim!: bind_SomeE dest!: growth)
  show "send_uid K ws c = Some c' \<Longrightarrow> grows c c'"
    using uid [of c]
    by (auto simp: send_uid_def make_uid_def case_prod_beta elim!: bind_SomeE dest!: growth
        elim: grows_trans)
  show "send_app_list K ws c = Some c' \<Longrightarrow> grows c c'"
    by (auto simp: send_app_list_def make_app_list_def elim!: bind_SomeE dest!: growth)
qed

lemma core_open_growth: "core_on_open K shares ws c = Some c' \<Longrightarrow> grows c c'"
proof -
  assume "core_on_open K shares ws c = Some c'"
  then obtain c1 c2 where "send_uid K ws (emit (Set_Text ws True) c) = Some c1"
    "send_app_list K ws c1 = Some c2" "send_status K (of_nat shares) c2 = Some c'"
    by (auto simp: core_on_open_def Let_def elim!: bind_SomeE)
  then show ?thesis
    using grows_trans [OF grows_emit [OF grows_refl]] by (blast dest: growth intro: grows_trans)
qed

lemma core_close_growth: "core_on_close K shares c = Some c' \<Longrightarrow> grows c c'"
  by (auto simp: core_on_close_def dest!: growth)

lemma add_mid_growth [growth]: "add_mid K upd doc c = Some (s, d, c') \<Longrightarrow> grows c c'"
  by (auto simp: add_mid_def get_mid_def msg_time_def Let_def grows_def split: if_splits
      elim!: bind_SomeE)

lemma Dispatcher_exec_growth:
  assumes "Dispatcher_exec run apps a (st, c) = Some (found, st', c')"
    and "\<And>f. run f (st, c) = Some (st', c') \<Longrightarrow> grows c c'"
  shows "grows c c'"
  using assms
  by (auto simp: Dispatcher_exec_def App_exec_def split: option.splits elim!: bind_SomeE)

lemma core_message_growth:
  assumes "core_on_message K call ws body (st, c) = Some (st', c')"
    and call: "\<And>f ws m d st c st' c'. call f ws m d (st, c) = Some (st', c') \<Longrightarrow> grows c c'"
  shows "grows c c'"
proof (cases "\<exists>d. jd_parse K (c_str (to_string body)) = Some d \<and> jd_is_object K d")
  case False
  then show ?thesis
    using assms(1)
    by (auto simp: core_on_message_def split: option.splits if_splits elim!: bind_SomeE dest!: growth)
next
  case True
  then obtain d where d: "jd_parse K (c_str (to_string body)) = Some d" "jd_is_object K d" by blast
  obtain s d' c1 md where m: "add_mid K True d c = Some (s, d', c1)"
    and p: "parser_main K (c_apps c1) d' = Some md"
    using assms(1) d by (auto simp: core_on_message_def Let_def elim!: bind_SomeE)
  let ?c2 = "emit (Write_All (Byte_Array_of s) True) c1"
  have c2: "grows c ?c2" using m by (auto dest!: growth)
  have "grows ?c2 c'"
  proof (cases md)
    case None
    then show ?thesis
      using assms(1) d m p by (auto simp: core_on_message_def Let_def elim!: bind_SomeE dest!: growth)
  next
    case (Some mm)
    then obtain found st2 c3 where x: "Dispatcher_exec (\<lambda>f. call f ws mm d') (c_apps c1) (md_app mm)
        (st, ?c2) = Some (found, st2, c3)"
      and r: "(if found then Some (st2, c3) else do {
          c \<leftarrow> fail_message K ws main (make_error_code APP_NOT_FOUND) '''' c3;
          Some (st2, c) }) = Some (st', c')"
      using assms(1) d m p by (auto simp: core_on_message_def Let_def elim!: bind_SomeE)
    have "grows ?c2 c3" by (rule Dispatcher_exec_growth [OF x]) (rule call)
    then show ?thesis
      using r by (auto split: if_splits elim!: bind_SomeE dest!: growth elim: grows_trans)
  qed
  with c2 show ?thesis by (rule grows_trans)
qed

end
