(* ===== verification/Server.thy ===== *)
theory Server
  imports Growth
begin

text \<open>
  The running program: the listener of \<open>src/src/main.cpp\<close>
  (\<open>my_async/listener/listener_base.hpp\<close>), the websocket sessions, the core and the
  applications as one state, and everything that can happen to it as a step: a
  connection is accepted, an operation of a session completes and its callback runs, a
  socket, device or timer of an application has an event, a session nothing refers to is
  destroyed.  One handler runs at a time.  A handler that leaves the contract of a library
  has no step: the program has ended.
\<close>

section \<open>State\<close>

record 'a server =
  sv_accepts :: nat
  sv_world :: ws_world
  sv_apps :: "'a apps_state"
  sv_core :: "app_fun core"

text \<open>
  \<open>main\<close>: the callbacks are installed, the listener accepts, the applications are
  registered; then the handlers run.
\<close>

definition no_callbacks :: "core_callback ws_callbacks" where
  "no_callbacks = \<lparr>cb_open = None, cb_close = None, cb_message = None, cb_error = None\<rparr>"

definition server_init :: "build_options \<Rightarrow> (nat \<Rightarrow> u64) \<Rightarrow> 'a server" where
  "server_init b clock = \<lparr>sv_accepts = 1,
     sv_world = \<lparr>ww_sessions = (\<lambda>_. None), ww_share = [], ww_running = None\<rparr>,
     sv_apps = apps_init, sv_core = (core_init clock)\<lparr>c_apps := init_apps b []\<rparr>\<rparr>"

section \<open>Listener\<close>

text \<open>
  \<open>on_accept\<close>: after an error the listener does not accept again.  \<open>n\<close> is the new
  session, which is started and kept by its first operation.
\<close>

definition server_on_accept :: "bool \<Rightarrow> bool \<Rightarrow> error_code option \<Rightarrow> nat \<Rightarrow> 'a server \<Rightarrow> 'a server" where
  "server_on_accept use_ssl dt r n sv =
     (let sv = sv\<lparr>sv_accepts := sv_accepts sv - 1\<rparr> in
      case r of Some ec \<Rightarrow> sv
      | None \<Rightarrow>
          let w = sv_world sv;
              sv = sv\<lparr>sv_world := w\<lparr>ww_sessions :=
                (ww_sessions w)(n \<mapsto> ws_on_run (ws_new use_ssl dt))\<rparr>\<rparr> in
          sv\<lparr>sv_accepts := sv_accepts sv + 1\<rparr>)"

section \<open>Sessions\<close>

text \<open>What the executor and the stream can do to a session; the calls are the program's.\<close>

inductive ws_event :: "ws_session \<Rightarrow> ws_session \<Rightarrow> bool" where
  e_writing: "wk_posted s = d # ts \<Longrightarrow> ws_event s (ws_writing d (s\<lparr>wk_posted := ts\<rparr>))"
| e_handshake: "wk_handshakes s > 0 \<Longrightarrow> ws_event s (ws_on_handshake r s)"
| e_accept: "wk_accepts s > 0 \<Longrightarrow> ws_event s (ws_on_accept r s)"
| e_read: "\<lbrakk>wk_reads s > 0; length d \<le> ReadBufferSize\<rbrakk> \<Longrightarrow> ws_event s (ws_on_read r d s)"
| e_written: "wk_writes s \<noteq> [] \<Longrightarrow> ws_event s (ws_on_write r s)"

fun ws_run_events ::
  "('j, 'z) lib_scheme \<Rightarrow>
   ('f \<Rightarrow> nat \<Rightarrow> Main_Data \<Rightarrow> 'j \<Rightarrow> 's \<times> 'f core \<Rightarrow> ('s \<times> 'f core) option) \<Rightarrow>
   core_callback ws_callbacks \<Rightarrow> nat \<Rightarrow> callback list \<Rightarrow> ws_world \<times> 's \<times> 'f core \<Rightarrow>
   (ws_world \<times> 's \<times> 'f core) option" where
  "ws_run_events L call cbs n [] x = Some x"
| "ws_run_events L call cbs n (e # es) x = do {
     x \<leftarrow> ws_run_callback L call cbs n e x; ws_run_events L call cbs n es x }"

text \<open>Session \<open>n\<close> becomes \<open>s'\<close>; the callbacks it logged run while its handler does.\<close>

definition server_deliver ::
  "('j, 'a :: linorder, 'z) net_lib_scheme \<Rightarrow> build_options \<Rightarrow> 'a os_answers \<Rightarrow> nat \<Rightarrow> ws_session
     \<Rightarrow> 'a server \<Rightarrow> 'a server option" where
  "server_deliver L b os n s' sv = do {
     s \<leftarrow> ww_sessions (sv_world sv) n;
     let w = (sv_world sv)\<lparr>ww_sessions := (ww_sessions (sv_world sv))(n \<mapsto> s'), ww_running := Some n\<rparr>;
     (w, st, c) \<leftarrow> ws_run_events L (call_app L b os) (init_websocket_cb no_callbacks) n
       (drop (length (wk_log s)) (wk_log s')) (w, sv_apps sv, sv_core sv);
     Some (sv\<lparr>sv_world := w\<lparr>ww_running := None\<rparr>, sv_apps := st, sv_core := c\<rparr>) }"

section \<open>Events of the applications\<close>

text \<open>What a UDP socket logged runs the overrides of its final class.\<close>

fun udp_client_events ::
  "('j, 'a, 'z) net_lib_scheme \<Rightarrow> 'a udp_client_socket \<Rightarrow> callback list \<Rightarrow> 'f core \<Rightarrow> 'f core option"
where
  "udp_client_events L s [] c = Some c"
| "udp_client_events L s (Read_Handler d # es) c = do {
     c \<leftarrow> udp_client_read_handler L s d c; udp_client_events L s es c }"
| "udp_client_events L s (On_Error ec what # es) c = do {
     c \<leftarrow> udp_client_on_error L ec what c; udp_client_events L s es c }"
| "udp_client_events L s (e # es) c = udp_client_events L s es c"

fun udp_server_events ::
  "('j, 'a, 'z) net_lib_scheme \<Rightarrow> 'a udp_server_socket \<Rightarrow> callback list \<Rightarrow> 'f core \<Rightarrow> 'f core option"
where
  "udp_server_events L s [] c = Some c"
| "udp_server_events L s (Read_Handler d # es) c = do {
     c \<leftarrow> udp_server_read_handler L s d c; udp_server_events L s es c }"
| "udp_server_events L s (On_Error ec what # es) c = do {
     c \<leftarrow> udp_server_on_error L ec what c; udp_server_events L s es c }"
| "udp_server_events L s (e # es) c = udp_server_events L s es c"

inductive app_event ::
  "('j, 'a :: linorder, 'z) net_lib_scheme \<Rightarrow> 'a apps_state \<times> app_fun core
     \<Rightarrow> 'a apps_state \<times> app_fun core \<Rightarrow> bool"
  for L :: "('j, 'a :: linorder, 'z) net_lib_scheme" where
  a_expire: "\<lbrakk>i < length (ex_waits (as_monitor st)); ex_waits (as_monitor st) ! i = Armed\<rbrakk> \<Longrightarrow>
    app_event L (st, c)
      (st\<lparr>as_monitor := (as_monitor st)\<lparr>ex_waits := (ex_waits (as_monitor st))[i := Queued False]\<rparr>\<rparr>, c)"
| a_monitor: "\<lbrakk>ex_waits (as_monitor st) = ws @ Queued ab # ws';
    exec_do_wait L ab end_info doc shares info uptime
      ((as_monitor st)\<lparr>ex_waits := ws @ ws'\<rparr>) c = Some (e, c')\<rbrakk> \<Longrightarrow>
    app_event L (st, c) (st\<lparr>as_monitor := e\<rparr>, c')"
| a_serial_read: "\<lbrakk>om_find (as_serials st) nm = Some p; sr_reads p > 0;
    serial_run L os nm (serial_on_read r d) (as_serials st, c) = Some (m, c')\<rbrakk> \<Longrightarrow>
    app_event L (st, c) (st\<lparr>as_serials := m\<rparr>, c')"
| a_serial_write: "\<lbrakk>om_find (as_serials st) nm = Some p; sr_writes p \<noteq> [];
    serial_run L os nm (serial_on_write r k) (as_serials st, c) = Some (m, c')\<rbrakk> \<Longrightarrow>
    app_event L (st, c) (st\<lparr>as_serials := m\<rparr>, c')"
| a_serial_posted: "\<lbrakk>om_find (as_serials st) nm = Some p; sr_posted p = d # ts;
    serial_run L os nm (\<lambda>s. serial_on_writing d (s\<lparr>sr_posted := ts\<rparr>)) (as_serials st, c) = Some (m, c')\<rbrakk> \<Longrightarrow>
    app_event L (st, c) (st\<lparr>as_serials := m\<rparr>, c')"
| a_tcp_client: "\<lbrakk>tw_store (as_tcp_clients st) n = Some k; tcp_client_step (ca_socket k) (f (ca_socket k));
    tcp_client_run L none stale n f (as_tcp_clients st, c) = Some (w, c')\<rbrakk> \<Longrightarrow>
    app_event L (st, c) (st\<lparr>as_tcp_clients := w\<rparr>, c')"
| a_tcp_session: "\<lbrakk>tv_sessions (as_tcp_servers st) n = Some t; tcp_session_step (se_sock t) (f (se_sock t));
    ts_run L n f (as_tcp_servers st, c) = Some (w, c')\<rbrakk> \<Longrightarrow>
    app_event L (st, c) (st\<lparr>as_tcp_servers := w\<rparr>, c')"
| a_tcp_accept: "\<lbrakk>tv_listeners (as_tcp_servers st) l = Some li; li_accepts li > 0;
    listener_on_accept L l ar (as_tcp_servers st, c) = Some (w, c')\<rbrakk> \<Longrightarrow>
    app_event L (st, c) (st\<lparr>as_tcp_servers := w\<rparr>, c')"
| a_udp_client: "\<lbrakk>om_find (as_udp_clients st) ep = Some u; uc_reads u > 0;
    u' = udp_client_on_read r from d closed u;
    udp_client_events L u' (drop (length (uc_log u)) (uc_log u')) c = Some c'\<rbrakk> \<Longrightarrow>
    app_event L (st, c) (st\<lparr>as_udp_clients := om_set ep u' (as_udp_clients st)\<rparr>, c')"
| a_udp_client_write: "\<lbrakk>om_find (as_udp_clients st) ep = Some u; uc_writes u \<noteq> [];
    u' = udp_client_on_write r closed u;
    udp_client_events L u' (drop (length (uc_log u)) (uc_log u')) c = Some c'\<rbrakk> \<Longrightarrow>
    app_event L (st, c) (st\<lparr>as_udp_clients := om_set ep u' (as_udp_clients st)\<rparr>, c')"
| a_udp_server: "\<lbrakk>om_find (as_udp_servers st) ep = Some v; us_reads v > 0;
    v' = udp_server_on_read r from d closed v;
    udp_server_events L v' (drop (length (us_log v)) (us_log v')) c = Some c'\<rbrakk> \<Longrightarrow>
    app_event L (st, c) (st\<lparr>as_udp_servers := om_set ep v' (as_udp_servers st)\<rparr>, c')"
| a_udp_server_write: "\<lbrakk>om_find (as_udp_servers st) ep = Some v; us_writes v \<noteq> [];
    v' = udp_server_on_write r closed v;
    udp_server_events L v' (drop (length (us_log v)) (us_log v')) c = Some c'\<rbrakk> \<Longrightarrow>
    app_event L (st, c) (st\<lparr>as_udp_servers := om_set ep v' (as_udp_servers st)\<rparr>, c')"
| a_udp_client_posted: "\<lbrakk>om_find (as_udp_clients st) ep = Some u; uc_posted u = d # ts;
    u' = udp_client_writing d (u\<lparr>uc_posted := ts\<rparr>)\<rbrakk> \<Longrightarrow>
    app_event L (st, c) (st\<lparr>as_udp_clients := om_set ep u' (as_udp_clients st)\<rparr>, c)"
| a_udp_server_posted: "\<lbrakk>om_find (as_udp_servers st) ep = Some v; us_posted v = q # qs;
    v' = udp_server_writing q (v\<lparr>us_posted := qs\<rparr>)\<rbrakk> \<Longrightarrow>
    app_event L (st, c) (st\<lparr>as_udp_servers := om_set ep v' (as_udp_servers st)\<rparr>, c)"

section \<open>Steps\<close>

inductive server_step ::
  "('j, 'a :: linorder, 'z) net_lib_scheme \<Rightarrow> build_options \<Rightarrow> bool \<Rightarrow> 'a server \<Rightarrow> 'a server \<Rightarrow> bool"
  for L :: "('j, 'a :: linorder, 'z) net_lib_scheme" and b :: build_options and dt :: bool where
  v_accept: "\<lbrakk>sv_accepts sv > 0; ww_sessions (sv_world sv) n = None\<rbrakk> \<Longrightarrow>
    server_step L b dt sv (server_on_accept (use_ssl_build b) dt r n sv)"
| v_session: "\<lbrakk>ww_sessions (sv_world sv) n = Some s; ws_event s s';
    server_deliver L b os n s' sv = Some sv'\<rbrakk> \<Longrightarrow> server_step L b dt sv sv'"
| v_app: "\<lbrakk>app_event L (sv_apps sv, sv_core sv) (st, c); ws_flush (sv_world sv, st, c) = (w, st, c')\<rbrakk> \<Longrightarrow>
    server_step L b dt sv (sv\<lparr>sv_world := w, sv_apps := st, sv_core := c'\<rparr>)"
| v_destroy: "\<lbrakk>ww_sessions (sv_world sv) n = Some s; \<not> ws_alive s\<rbrakk> \<Longrightarrow>
    server_step L b dt sv (sv\<lparr>sv_world := ws_destroy n (sv_world sv)\<rparr>)"

inductive server_reach ::
  "('j, 'a :: linorder, 'z) net_lib_scheme \<Rightarrow> build_options \<Rightarrow> bool \<Rightarrow> (nat \<Rightarrow> u64) \<Rightarrow> 'a server \<Rightarrow> bool"
  for L :: "('j, 'a :: linorder, 'z) net_lib_scheme" and b :: build_options and dt :: bool
    and clock :: "nat \<Rightarrow> u64" where
  v_init: "server_reach L b dt clock (server_init b clock)"
| v_step: "\<lbrakk>server_reach L b dt clock sv; server_step L b dt sv sv'\<rbrakk> \<Longrightarrow> server_reach L b dt clock sv'"

section \<open>What the writes do to a session\<close>

text \<open>Between its own operations a session only gets data posted, and its frame type set.\<close>

definition gets :: "ws_session \<Rightarrow> ws_session \<Rightarrow> bool" where
  "gets s s' \<longleftrightarrow> (\<exists>t ds. s' = s\<lparr>wk_text := t, wk_posted := wk_posted s @ ds\<rparr>)"

lemma gets_refl [simp]: "gets s s"
  unfolding gets_def by (rule exI [of _ "wk_text s"], rule exI [of _ "[]"]) simp

lemma gets_trans: "\<lbrakk>gets s s1; gets s1 s2\<rbrakk> \<Longrightarrow> gets s s2"
proof -
  assume "gets s s1" "gets s1 s2"
  then obtain t ds t' es where "s1 = s\<lparr>wk_text := t, wk_posted := wk_posted s @ ds\<rparr>"
    "s2 = s1\<lparr>wk_text := t', wk_posted := wk_posted s1 @ es\<rparr>" by (auto simp: gets_def)
  then have "s2 = s\<lparr>wk_text := t', wk_posted := wk_posted s @ (ds @ es)\<rparr>" by simp
  then show ?thesis unfolding gets_def by blast
qed

lemma gets_write: "gets s (ws_write d s)" "gets s (ws_write_text d t s)" "gets s (ws_set_text t s)"
proof -
  have "ws_write d s = s\<lparr>wk_text := wk_text s, wk_posted := wk_posted s @ [d]\<rparr>"
    by (simp add: ws_write_def)
  then show "gets s (ws_write d s)" unfolding gets_def by blast
  have "ws_write_text d t s = s\<lparr>wk_text := t, wk_posted := wk_posted s @ [d]\<rparr>"
    by (simp add: ws_write_text_def ws_write_def ws_set_text_def)
  then show "gets s (ws_write_text d t s)" unfolding gets_def by blast
  have "ws_set_text t s = s\<lparr>wk_text := t, wk_posted := wk_posted s @ []\<rparr>"
    by (simp add: ws_set_text_def)
  then show "gets s (ws_set_text t s)" unfolding gets_def by blast
qed

lemma gets_log: "gets s s' \<Longrightarrow> wk_log s' = wk_log s"
  by (auto simp: gets_def)

lemma gets_posted: "gets s s' \<Longrightarrow> \<exists>ds. wk_posted s' = wk_posted s @ ds"
  by (auto simp: gets_def)

lemma ws_reach_post:
  assumes "ws_reach use_ssl dt s"
  shows "ws_reach use_ssl dt (s\<lparr>wk_posted := wk_posted s @ ds\<rparr>)"
proof (induction ds rule: rev_induct)
  case Nil
  then show ?case using assms by simp
next
  case (snoc d ds)
  have "ws_step (s\<lparr>wk_posted := wk_posted s @ ds\<rparr>) (ws_write d (s\<lparr>wk_posted := wk_posted s @ ds\<rparr>))"
    by (rule ws_step.k_write)
  from ws_reach.k_step [OF snoc.IH this] show ?case by (simp add: ws_write_def)
qed

lemma gets_reach:
  assumes "ws_reach use_ssl dt s" "gets s s'"
  shows "ws_reach use_ssl dt s'"
proof -
  obtain t ds where s': "s' = s\<lparr>wk_text := t, wk_posted := wk_posted s @ ds\<rparr>"
    using assms(2) by (auto simp: gets_def)
  have "ws_reach use_ssl dt (ws_set_text t s)"
    by (rule ws_reach.k_step [OF assms(1) ws_step.k_text])
  from ws_reach_post [OF this, of ds] show ?thesis by (simp add: s' ws_set_text_def)
qed

text \<open>The same of every session of a world; the share and the running handler stay.\<close>

definition world_gets :: "ws_world \<Rightarrow> ws_world \<Rightarrow> bool" where
  "world_gets w w' \<longleftrightarrow> ww_running w' = ww_running w \<and>
     (\<forall>n. rel_option gets (ww_sessions w n) (ww_sessions w' n))"

lemma world_gets_refl [simp]: "world_gets w w"
  by (simp add: world_gets_def option.rel_refl)

lemma world_gets_trans: "\<lbrakk>world_gets w w1; world_gets w1 w2\<rbrakk> \<Longrightarrow> world_gets w w2"
proof -
  assume a: "world_gets w w1" "world_gets w1 w2"
  have "rel_option gets (ww_sessions w n) (ww_sessions w2 n)" for n
  proof -
    have "rel_option gets (ww_sessions w n) (ww_sessions w1 n)"
      "rel_option gets (ww_sessions w1 n) (ww_sessions w2 n)" using a by (simp_all add: world_gets_def)
    then show ?thesis
      by (cases "ww_sessions w n"; cases "ww_sessions w1 n"; cases "ww_sessions w2 n")
        (auto intro: gets_trans)
  qed
  then show ?thesis using a by (simp add: world_gets_def)
qed

lemma world_gets_update:
  assumes "\<And>s. gets s (f s)"
  shows "world_gets w (ww_update f n w)"
  using assms by (auto simp: world_gets_def option.rel_map option.rel_refl intro!: option.rel_refl)

lemma world_gets_exec:
  assumes "\<And>s. gets s (f s)"
  shows "world_gets w (share_exec True lock (ww_update f) v w)"
proof (induction v arbitrary: w)
  case (Cons p v)
  then show ?case using world_gets_update [of f w p, OF assms] by (auto intro: world_gets_trans)
qed simp

lemma world_gets_apply: "world_gets w (ws_apply a w)"
  by (cases a) (simp_all add: ws_write_all_def ws_write_all_text_def static_exec_to_all_def
      world_gets_update world_gets_exec gets_write)

lemma world_gets_fold: "world_gets w (fold ws_apply as w)"
  by (induction as arbitrary: w) (auto intro: world_gets_trans world_gets_apply)

lemma world_gets_flush: "ws_flush (w, st, c) = (w', st', c') \<Longrightarrow> world_gets w w'"
  by (auto simp: ws_flush_def world_gets_fold)

text \<open>
  A callback is a function on the core, which grows, followed by its writes; opening
  puts the session into the share first.
\<close>

definition joined :: "nat \<Rightarrow> callback \<Rightarrow> ws_world \<Rightarrow> ws_world" where
  "joined n e w = (if e = On_Open then w\<lparr>ww_share := static_join n (ww_share w)\<rparr> else w)"

lemma init_websocket_cb_sel [simp]:
  "cb_open (init_websocket_cb cbs) = Some CB_on_open"
  "cb_close (init_websocket_cb cbs) = Some CB_on_close"
  "cb_message (init_websocket_cb cbs) = Some CB_on_message"
  "cb_error (init_websocket_cb cbs) = Some CB_fail"
  by (simp_all add: init_websocket_cb_def ws_set_on_open_def ws_set_on_close_def
      ws_set_on_message_def ws_set_on_error_def)

lemma ws_run_callback_cases:
  assumes "ws_run_callback L call (init_websocket_cb cbs) n e (w, st, c) = Some x"
    and call: "\<And>f ws m d st c st' c'. call f ws m d (st, c) = Some (st', c') \<Longrightarrow> grows c c'"
  obtains st1 c1 where "x = ws_flush (joined n e w, st1, c1)" "grows c c1"
proof (cases e)
  case On_Open
  then obtain c1 where "core_on_open L (static_num_shares (ww_share (joined n e w))) n c = Some c1"
    "x = ws_flush (joined n e w, st, c1)"
    using assms(1)
    by (auto simp: ws_run_callback_def joined_def Let_def elim!: bind_SomeE)
  then show thesis using that core_open_growth by blast
next
  case (Read_Handler d)
  then obtain st1 c1 where m: "core_on_message L call n d (st, c) = Some (st1, c1)"
    and x: "x = ws_flush (joined n e w, st1, c1)"
    using assms(1)
    by (auto simp: ws_run_callback_def joined_def Let_def elim!: bind_SomeE)
  have "grows c c1" by (rule core_message_growth [OF m]) (rule call)
  with x show thesis by (rule that)
next
  case (On_Close ec)
  then obtain c1 where "core_on_close L (static_num_shares (ww_share w)) c = Some c1"
    "x = ws_flush (joined n e w, st, c1)"
    using assms(1)
    by (auto simp: ws_run_callback_def joined_def Let_def elim!: bind_SomeE)
  then show thesis using that core_close_growth by blast
next
  case (On_Error ec what)
  then have "x = ws_flush (joined n e w, st, c)"
    using assms(1)
    by (auto simp: ws_run_callback_def joined_def core_fail_def Let_def)
  then show thesis by (rule that) simp
qed

lemma joined_gets: "world_gets w (joined n e w)"
  by (simp add: joined_def world_gets_def option.rel_refl)

text \<open>What a callback keeps, in the form its sequence keeps it.\<close>

definition core_kept :: "app_fun core \<Rightarrow> app_fun core \<Rightarrow> bool" where
  "core_kept c c' \<longleftrightarrow> c_apps c' = c_apps c \<and> c_clock c' = c_clock c \<and> (c_out c = [] \<longrightarrow> c_out c' = [])"

lemma flush_kept: "grows c c1 \<Longrightarrow> ws_flush (w, st, c1) = (w', st', c') \<Longrightarrow> core_kept c c'"
  by (auto simp: ws_flush_def core_kept_def grows_def)

lemma ws_run_events_kept:
  assumes call: "\<And>f ws m d st c st' c'. call f ws m d (st, c) = Some (st', c') \<Longrightarrow> grows c c'"
  shows "ws_run_events L call (init_websocket_cb cbs) n es (w, st, c) = Some (w', st', c') \<Longrightarrow>
    world_gets w w' \<and> core_kept c c' \<and>
    ww_share w' = (if On_Open \<in> set es then static_join n (ww_share w) else ww_share w)"
proof (induction es arbitrary: w st c)
  case (Cons e es)
  obtain w1 st1 c1 where x: "ws_run_callback L call (init_websocket_cb cbs) n e (w, st, c) = Some (w1, st1, c1)"
    and rest: "ws_run_events L call (init_websocket_cb cbs) n es (w1, st1, c1) = Some (w', st', c')"
    using Cons.prems by (auto elim!: bind_SomeE)
  obtain st2 c2 where f: "(w1, st1, c1) = ws_flush (joined n e w, st2, c2)" "grows c c2"
    by (rule ws_run_callback_cases [OF x call])
  have w1: "world_gets w w1"
    using world_gets_trans [OF joined_gets world_gets_flush [OF f(1) [symmetric]]] .
  have c1: "core_kept c c1" by (rule flush_kept [OF f(2) f(1) [symmetric]])
  have s1: "ww_share w1 = (if e = On_Open then static_join n (ww_share w) else ww_share w)"
    by (rule ws_run_callback_share [OF x])
  have "world_gets w1 w'" "core_kept c1 c'"
    "ww_share w' = (if On_Open \<in> set es then static_join n (ww_share w1) else ww_share w1)"
    using Cons.IH [OF rest] by blast+
  then show ?case
    using w1 c1 s1 world_gets_trans [of w w1 w']
    by (auto simp: core_kept_def static_join_def)
qed (simp add: core_kept_def)

section \<open>Invariant\<close>

lemma ws_event_step: "ws_event s s' \<Longrightarrow> ws_step s s'"
  by (induction rule: ws_event.induct) (auto intro: ws_step.intros)

lemma ws_fail_appends: "\<exists>es. wk_log (ws_fail ec what s) = wk_log s @ es"
  by (simp add: ws_fail_def ws_call_def)

lemma ws_event_log: "ws_event s s' \<Longrightarrow> \<exists>es. wk_log s' = wk_log s @ es"
  by (induction rule: ws_event.induct)
    (auto simp: ws_writing_def ws_do_write_def ws_on_handshake_def ws_on_accept_def ws_do_read_def
      ws_on_read_def ws_on_write_def ws_fail_def ws_call_def Let_def split: option.splits)

text \<open>
  Every session is one its class can reach; the share holds exactly the sessions whose
  open callback has run; between two handlers nothing waits to be written out.
\<close>

definition server_inv :: "build_options \<Rightarrow> bool \<Rightarrow> (nat \<Rightarrow> u64) \<Rightarrow> 'a server \<Rightarrow> bool" where
  "server_inv b dt clock sv \<longleftrightarrow>
     (\<forall>n s. ww_sessions (sv_world sv) n = Some s \<longrightarrow> ws_reach (use_ssl_build b) dt s \<and>
        (n \<in> set (ww_share (sv_world sv)) \<longleftrightarrow> On_Open \<in> set (wk_log s))) \<and>
     (\<forall>n\<in>set (ww_share (sv_world sv)). ww_sessions (sv_world sv) n \<noteq> None) \<and>
     distinct (ww_share (sv_world sv)) \<and> ww_running (sv_world sv) = None \<and>
     c_apps (sv_core sv) = init_apps b [] \<and> c_clock (sv_core sv) = clock \<and> c_out (sv_core sv) = [] \<and>
     sv_accepts sv \<le> 1"

text \<open>Writes and callbacks keep it: sessions only get data, the share what opened.\<close>

lemma world_gets_session:
  assumes "world_gets w w'" "ww_sessions w' n = Some s'"
  obtains s where "ww_sessions w n = Some s" "gets s s'"
  using assms by (auto simp: world_gets_def dest!: spec [of _ n] elim: option.rel_cases)

lemma world_gets_None: "world_gets w w' \<Longrightarrow> ww_sessions w' n = None \<longleftrightarrow> ww_sessions w n = None"
  by (auto simp: world_gets_def dest!: spec [of _ n] elim: option.rel_cases)

lemma server_deliver_kept:
  assumes inv: "server_inv b dt clock sv" and s: "ww_sessions (sv_world sv) n = Some s"
    and ev: "ws_event s s'" and d: "server_deliver L b os n s' sv = Some sv'"
  shows "server_inv b dt clock sv'"
proof -
  let ?w = "sv_world sv"
  let ?w1 = "?w\<lparr>ww_sessions := (ww_sessions ?w)(n \<mapsto> s'), ww_running := Some n\<rparr>"
  let ?es = "drop (length (wk_log s)) (wk_log s')"
  obtain w st c where run: "ws_run_events L (call_app L b os) (init_websocket_cb no_callbacks) n ?es
      (?w1, sv_apps sv, sv_core sv) = Some (w, st, c)"
    and sv': "sv' = sv\<lparr>sv_world := w\<lparr>ww_running := None\<rparr>, sv_apps := st, sv_core := c\<rparr>"
    using d s by (auto simp: server_deliver_def Let_def elim!: bind_SomeE)
  obtain es where log: "wk_log s' = wk_log s @ es" using ws_event_log [OF ev] by blast
  have "world_gets ?w1 w \<and> core_kept (sv_core sv) c \<and>
      ww_share w = (if On_Open \<in> set ?es then static_join n (ww_share ?w1) else ww_share ?w1)"
    by (rule ws_run_events_kept [OF _ run]) (rule call_app_growth)
  then have g: "world_gets ?w1 w" "core_kept (sv_core sv) c"
    "ww_share w = (if On_Open \<in> set es then static_join n (ww_share ?w) else ww_share ?w)"
    using log by simp_all
  have r: "ws_reach (use_ssl_build b) dt s" "n \<in> set (ww_share ?w) \<longleftrightarrow> On_Open \<in> set (wk_log s)"
    using inv s by (simp_all add: server_inv_def)
  have r': "ws_reach (use_ssl_build b) dt s'"
    by (rule ws_reach.k_step [OF r(1) ws_event_step [OF ev]])
  have one: "ws_reach (use_ssl_build b) dt t \<and> (m \<in> set (ww_share w) \<longleftrightarrow> On_Open \<in> set (wk_log t))"
    if t: "ww_sessions w m = Some t" for m t
  proof -
    obtain t0 where t0: "ww_sessions ?w1 m = Some t0" "gets t0 t"
      using world_gets_session [OF g(1) t] by blast
    have "ws_reach (use_ssl_build b) dt t0 \<and> (m \<in> set (ww_share w) \<longleftrightarrow> On_Open \<in> set (wk_log t0))"
    proof (cases "m = n")
      case True
      then show ?thesis using t0(1) r r' log g(3) by (auto simp: static_join_def)
    next
      case False
      then show ?thesis using t0(1) inv g(3) by (auto simp: static_join_def server_inv_def)
    qed
    then show ?thesis using gets_reach t0(2) gets_log by metis
  qed
  have "ww_sessions w m \<noteq> None" if "m \<in> set (ww_share w)" for m
    using that inv g(3) world_gets_None [OF g(1), of m]
    by (auto simp: server_inv_def static_join_def split: if_splits)
  moreover have "distinct (ww_share w)" using inv g(3) by (simp add: server_inv_def static_join_def)
  ultimately show ?thesis
    using one inv g(2) by (simp add: server_inv_def sv' core_kept_def)
qed

lemma udp_events_growth [growth]:
  "udp_client_events L u es c = Some c' \<Longrightarrow> grows c c'"
  "udp_server_events L v es c = Some c' \<Longrightarrow> grows c c'"
proof -
  show "udp_client_events L u es c = Some c' \<Longrightarrow> grows c c'"
  proof (induction es arbitrary: c)
    case (Cons e es)
    then show ?case by (cases e) (auto elim!: bind_SomeE dest!: growth elim: grows_trans)
  qed simp
  show "udp_server_events L v es c = Some c' \<Longrightarrow> grows c c'"
  proof (induction es arbitrary: c)
    case (Cons e es)
    then show ?case by (cases e) (auto elim!: bind_SomeE dest!: growth elim: grows_trans)
  qed simp
qed

inductive_cases app_eventE: "app_event L (st, c) (st', c')"

lemma app_event_growth: "app_event L (st, c) (st', c') \<Longrightarrow> grows c c'"
  by (erule app_eventE) (auto dest: growth)

lemma server_app_kept:
  assumes inv: "server_inv b dt clock sv" and ev: "app_event L (sv_apps sv, sv_core sv) (st, c)"
    and f: "ws_flush (sv_world sv, st, c) = (w, st, c')"
  shows "server_inv b dt clock (sv\<lparr>sv_world := w, sv_apps := st, sv_core := c'\<rparr>)"
proof -
  have g: "world_gets (sv_world sv) w" by (rule world_gets_flush [OF f])
  have c: "core_kept (sv_core sv) c'" by (rule flush_kept [OF app_event_growth [OF ev] f])
  have sh: "ww_share w = ww_share (sv_world sv)" by (rule ws_flush_share_eq [OF f])
  have "ws_reach (use_ssl_build b) dt t \<and> (m \<in> set (ww_share w) \<longleftrightarrow> On_Open \<in> set (wk_log t))"
    if t: "ww_sessions w m = Some t" for m t
  proof -
    obtain t0 where t0: "ww_sessions (sv_world sv) m = Some t0" "gets t0 t"
      using world_gets_session [OF g t] by blast
    then have "ws_reach (use_ssl_build b) dt t0"
      "m \<in> set (ww_share (sv_world sv)) \<longleftrightarrow> On_Open \<in> set (wk_log t0)"
      using inv by (simp_all add: server_inv_def)
    then show ?thesis using gets_reach [OF _ t0(2)] gets_log [OF t0(2)] sh by simp
  qed
  moreover have "ww_sessions w m \<noteq> None" if "m \<in> set (ww_share w)" for m
    using that inv sh world_gets_None [OF g, of m] by (auto simp: server_inv_def)
  moreover have "ww_running w = None" using g inv by (simp add: world_gets_def server_inv_def)
  ultimately show ?thesis using inv c sh by (simp add: server_inv_def core_kept_def)
qed

lemma server_inv_init: "server_inv b dt clock (server_init b clock)"
  by (simp add: server_inv_def server_init_def core_init_def)

lemma server_inv_accept:
  assumes "server_inv b dt clock sv" "sv_accepts sv > 0" "ww_sessions (sv_world sv) n = None"
  shows "server_inv b dt clock (server_on_accept (use_ssl_build b) dt r n sv)"
proof (cases r)
  case None
  have "ws_reach (use_ssl_build b) dt (ws_on_run (ws_new (use_ssl_build b) dt))"
    by (rule ws_reach.k_run)
  moreover have "wk_log (ws_on_run (ws_new (use_ssl_build b) dt)) = []"
    by (simp add: ws_on_run_def ws_new_def)
  ultimately show ?thesis
    using assms None by (auto simp: server_inv_def server_on_accept_def Let_def)
next
  case (Some ec)
  then show ?thesis using assms by (auto simp: server_inv_def server_on_accept_def)
qed

lemma server_inv_destroy:
  assumes "server_inv b dt clock sv"
  shows "server_inv b dt clock (sv\<lparr>sv_world := ws_destroy n (sv_world sv)\<rparr>)"
  using assms by (auto simp: server_inv_def ws_destroy_def static_leave_def distinct_removeAll)

lemma server_inv_step:
  assumes "server_step L b dt sv sv'" "server_inv b dt clock sv"
  shows "server_inv b dt clock sv'"
  using assms(1)
proof cases
  case (v_accept n r)
  then show ?thesis using server_inv_accept assms(2) by blast
next
  case (v_session n s s' os)
  then show ?thesis using server_deliver_kept assms(2) by blast
next
  case (v_app st c w c')
  then show ?thesis using server_app_kept assms(2) by blast
next
  case (v_destroy n s)
  then show ?thesis using server_inv_destroy assms(2) by blast
qed

lemma server_reach_inv: "server_reach L b dt clock sv \<Longrightarrow> server_inv b dt clock sv"
proof (induction rule: server_reach.induct)
  case v_init
  show ?case by (rule server_inv_init)
next
  case (v_step sv sv')
  then show ?case using server_inv_step by blast
qed

section \<open>A session opens\<close>

text \<open>
  A message of the server itself, with its number and time; the number of the server is an
  unsigned value in a document and a signed one in a list.
\<close>

definition server_message ::
  "('j, 'z) lib_scheme \<Rightarrow> 'j \<Rightarrow> Message_Control \<Rightarrow> 'j \<Rightarrow> 'f core \<Rightarrow> byte_array" where
  "server_message L user con doc c = Byte_Array_of (jd_write L (jd_object L
     (head_members L ''main'' user control_type c @
      [(CONTROL_TYPE_KEY, jd_string L (factory_control con)), (DATA_KEY, doc)])))"

definition app_names :: "build_options \<Rightarrow> string list" where
  "app_names b = map (\<lambda>(k, a). the (app_name a)) (init_apps b [])"

lemma Dispatcher_names_init: "Dispatcher_names (init_apps b []) = Some (app_names b)"
proof -
  have "map_opt (\<lambda>(k, a). app_name a) t = Some (map (\<lambda>(k, a). the (app_name a)) t)"
    if "list_all (\<lambda>(k, a). app_id a = k \<and> app_name a \<noteq> None) t" for t :: "app_fun app_table"
    using that by (induction t) auto
  then show ?thesis
    using init_apps_ok [of b] by (simp add: Dispatcher_names_def table_ok_def app_names_def)
qed

lemma core_on_open_eq:
  assumes apps: "c_apps c = init_apps b []" and out: "c_out c = []"
    and c1: "c1 = c\<lparr>c_userid := c_userid c + 1\<rparr>"
  shows "\<exists>c'. core_on_open L shares n c = Some c' \<and> c_out c' =
     [Set_Text n True,
      Write_Same n (server_message L (jd_uint L server_user_id) status (jd_object L [(''uid'', jd_uint L (ucast (c_userid c)))]) c1),
      Write_Same n (server_message L (jd_int L server_user_id) config (make_string_array L (app_names b)) (after_msg c1)),
      Write_All_Same (server_message L (jd_uint L server_user_id) status
        (jd_object L [(''nusers'', jd_uint L (of_nat shares))]) (after_msg (after_msg c1)))]"
proof -
  have head: "head_members L nm u ty (emit a d) = head_members L nm u ty d" for nm u ty a and d :: "app_fun core"
    by (simp add: head_members_def)
  have am: "after_msg (emit a d) = emit a (after_msg d)" for a and d :: "app_fun core"
    by (simp add: after_msg_def emit_def)
  have us: "(emit a d)\<lparr>c_userid := u\<rparr> = emit a (d\<lparr>c_userid := u\<rparr>)" for a u and d :: "app_fun core"
    by (simp add: emit_def)
  show ?thesis
    using apps out
    by (simp add: core_on_open_def send_uid_def send_app_list_def send_status_def make_uid_def
        make_app_list_def make_status_def user_id_def create_control_doc_eq create_defs
        make_control_obj_eq init_apps_main Dispatcher_names_init c1 server_message_def Let_def head am us)
qed

text \<open>
  The new session has the text frame type and three messages waiting: its identifier, the
  applications, and how many sessions there are, which everybody else gets too.
\<close>

lemma not_open_yet:
  assumes "server_inv b dt clock sv" "ww_sessions (sv_world sv) n = Some s" "wk_accepts s > 0"
  shows "n \<notin> set (ww_share (sv_world sv))"
proof -
  have "ws_reach (use_ssl_build b) dt s" using assms by (simp add: server_inv_def)
  then have "ws_inv s" by (rule ws_reach_inv)
  then have "open_calls (wk_log s) = 0" using assms(3) by (simp add: ws_inv_def)
  then have "On_Open \<notin> set (wk_log s)" by (auto simp: open_calls_def filter_empty_conv)
  then show ?thesis using assms(1,2) by (simp add: server_inv_def)
qed

lemma deliver_open:
  assumes inv: "server_inv b dt clock sv" and s: "ww_sessions (sv_world sv) n = Some s" "wk_accepts s > 0"
    and c1: "c1 = (sv_core sv)\<lparr>c_userid := c_userid (sv_core sv) + 1\<rparr>"
    and uid: "uid = server_message L (jd_uint L server_user_id) status
      (jd_object L [(''uid'', jd_uint L (ucast (c_userid (sv_core sv))))]) c1"
    and apps: "apps = server_message L (jd_int L server_user_id) config
      (make_string_array L (app_names b)) (after_msg c1)"
    and st: "st = server_message L (jd_uint L server_user_id) status
      (jd_object L [(''nusers'', jd_uint L (of_nat (Suc (length (ww_share (sv_world sv))))))])
      (after_msg (after_msg c1))"
  shows "\<exists>sv'. server_deliver L b os n (ws_on_accept None s) sv = Some sv' \<and>
    ww_share (sv_world sv') = n # ww_share (sv_world sv) \<and>
    ww_sessions (sv_world sv') n = Some ((ws_on_accept None s)
      \<lparr>wk_text := True, wk_posted := wk_posted s @ [uid, apps, st]\<rparr>) \<and>
    (\<forall>m. m \<noteq> n \<longrightarrow> ww_sessions (sv_world sv') m = map_option
      (\<lambda>s. if m \<in> set (ww_share (sv_world sv)) \<and> ws_alive s
        then s\<lparr>wk_posted := wk_posted s @ [st]\<rparr> else s) (ww_sessions (sv_world sv) m))"
proof -
  let ?w = "sv_world sv" and ?c = "sv_core sv"
  let ?s' = "ws_on_accept None s"
  let ?w1 = "?w\<lparr>ww_sessions := (ww_sessions ?w)(n \<mapsto> ?s'), ww_running := Some n\<rparr>"
  let ?w2 = "?w1\<lparr>ww_share := n # ww_share ?w\<rparr>"
  have n: "n \<notin> set (ww_share ?w)" by (rule not_open_yet [OF inv s])
  have d: "distinct (n # ww_share ?w)" using inv n by (simp add: server_inv_def)
  have log: "wk_log ?s' = wk_log s @ [On_Open]" "wk_posted ?s' = wk_posted s"
    by (simp_all add: ws_on_accept_def ws_call_def ws_do_read_def Let_def)
  obtain c' where c': "core_on_open L (Suc (length (ww_share ?w))) n ?c = Some c'"
    "c_out c' = [Set_Text n True, Write_Same n uid, Write_Same n apps, Write_All_Same st]"
    using core_on_open_eq [of ?c b c1 L "Suc (length (ww_share ?w))" n] inv c1 uid apps st
    by (auto simp: server_inv_def)
  let ?w3 = "ww_update (ws_write apps) n (ww_update (ws_write uid) n (ww_update (ws_set_text True) n ?w2))"
  have run: "server_deliver L b os n ?s' sv = Some (sv\<lparr>sv_world := (ws_write_all st ?w3)\<lparr>ww_running := None\<rparr>,
      sv_core := c'\<lparr>c_out := []\<rparr>\<rparr>)"
    using s n c' log
    by (simp add: server_deliver_def Let_def ws_run_callback_def static_join_def
        static_num_shares_def ws_flush_def List.insert_def)
  have sh: "ww_share ?w3 = n # ww_share ?w" "ww_share (ws_write_all st ?w3) = n # ww_share ?w"
    using ws_apply_share [of "Write_All_Same st" ?w3] by simp_all
  have all: "ww_sessions (ws_write_all st ?w3) m = (if m \<in> set (n # ww_share ?w) \<and> ww_lock m ?w3
      then map_option (ws_write st) (ww_sessions ?w3 m) else ww_sessions ?w3 m)" for m
    using ws_write_all_sessions(2) [of ?w3 st m] d sh by simp
  have "ww_lock n ?w3" by (simp add: ww_lock_def)
  then have "ww_sessions (ws_write_all st ?w3) n = Some (?s'
      \<lparr>wk_text := True, wk_posted := wk_posted s @ [uid, apps, st]\<rparr>)"
    using all [of n] log by (simp add: ws_write_def ws_set_text_def)
  moreover have "ww_sessions (ws_write_all st ?w3) m = map_option
      (\<lambda>s. if m \<in> set (ww_share ?w) \<and> ws_alive s
        then s\<lparr>wk_posted := wk_posted s @ [st]\<rparr> else s) (ww_sessions ?w m)" if "m \<noteq> n" for m
    using all [of m] that by (cases "ww_sessions ?w m") (auto simp: ww_lock_def ws_write_def)
  ultimately show ?thesis using run sh by simp
qed

section \<open>A message arrives\<close>

lemma grows_out: "grows c c' \<Longrightarrow> \<exists>as. c_out c' = c_out c @ as"
  by (simp add: grows_def)

lemma deliver_echo:
  assumes inv: "server_inv b dt clock sv" and s: "ww_sessions (sv_world sv) n = Some s"
    and L: "dom_laws L" and d: "jd_parse L (c_str (to_string body)) = Some d" "jd_is_object L d"
    and t: "jd_find L d MESSAGE_TIME_KEY = Some t"
    and dl: "server_deliver L b os n (ws_on_read None body s) sv = Some sv'"
    and m: "ww_sessions (sv_world sv) m = Some u" "m \<in> set (ww_share (sv_world sv))" "m = n \<or> ws_alive u"
  shows "\<exists>u' rest. ww_sessions (sv_world sv') m = Some u' \<and>
    wk_posted u' = wk_posted u @ Byte_Array_of (jd_write L (marked L d (sv_core sv))) # rest"
proof -
  let ?w = "sv_world sv" and ?c = "sv_core sv"
  let ?s' = "ws_on_read None body s"
  let ?w1 = "?w\<lparr>ww_sessions := (ww_sessions ?w)(n \<mapsto> ?s'), ww_running := Some n\<rparr>"
  let ?echo = "Byte_Array_of (jd_write L (marked L d ?c))"
  let ?c1 = "emit (Write_All ?echo True) (after_msg ?c)"
  have log: "wk_log ?s' = wk_log s @ [Read_Handler body]" "wk_posted ?s' = wk_posted s"
    by (simp_all add: ws_on_read_def ws_call_def ws_do_read_def Let_def)
  have ok: "table_ok (c_apps ?c)" using inv init_apps_ok by (simp add: server_inv_def)
  obtain st c' where msg: "core_on_message L (call_app L b os) n body (sv_apps sv, ?c) = Some (st, c')"
    and sv': "sv_world sv' = (fold ws_apply (c_out c') ?w1)\<lparr>ww_running := None\<rparr>"
    using dl s log
    by (auto simp: server_deliver_def Let_def ws_run_callback_def ws_flush_def elim!: bind_SomeE)
  have "grows ?c1 c'"
    using msg call_app_growth
    unfolding core_on_message_eq [OF L ok d t refl]
    by (auto split: option.splits dest!: growth)
  then obtain as where as: "c_out c' = Write_All ?echo True # as"
    using grows_out inv by (fastforce simp: server_inv_def)
  have dist: "distinct (ww_share ?w1)" using inv by (simp add: server_inv_def)
  have lock: "ww_lock m ?w1" using m by (auto simp: ww_lock_def)
  obtain v where v: "ww_sessions ?w1 m = Some v" "wk_posted v = wk_posted u"
    using m s log by (cases "m = n") auto
  have one: "ww_sessions (ws_apply (Write_All ?echo True) ?w1) m =
      Some (ws_write_text ?echo True v)"
    using ws_write_all_sessions(1) [OF dist, of ?echo True m] m lock v by simp
  have g: "world_gets (ws_apply (Write_All ?echo True) ?w1) (fold ws_apply (c_out c') ?w1)"
    using world_gets_fold by (simp add: as del: ws_apply.simps)
  obtain u' where u': "ww_sessions (fold ws_apply (c_out c') ?w1) m = Some u'"
    using world_gets_None [OF g, of m] one by fastforce
  have "gets (ws_write_text ?echo True v) u'"
    using world_gets_session [OF g u'] one by auto
  then obtain rest where "wk_posted u' = wk_posted (ws_write_text ?echo True v) @ rest"
    using gets_posted by blast
  then show ?thesis
    using u' sv' v by (simp add: ws_write_text_def ws_write_def ws_set_text_def)
qed

section \<open>A listener that failed\<close>

lemma deliver_sessions:
  assumes "ww_sessions (sv_world sv) n = Some s" "server_deliver L b os n s' sv = Some sv'"
  shows "sv_accepts sv' = sv_accepts sv \<and>
    (ww_sessions (sv_world sv') m = None \<longleftrightarrow> ww_sessions (sv_world sv) m = None)"
proof -
  let ?w1 = "(sv_world sv)\<lparr>ww_sessions := (ww_sessions (sv_world sv))(n \<mapsto> s'), ww_running := Some n\<rparr>"
  obtain w st c where run: "ws_run_events L (call_app L b os) (init_websocket_cb no_callbacks) n
      (drop (length (wk_log s)) (wk_log s')) (?w1, sv_apps sv, sv_core sv) = Some (w, st, c)"
    and sv': "sv' = sv\<lparr>sv_world := w\<lparr>ww_running := None\<rparr>, sv_apps := st, sv_core := c\<rparr>"
    using assms by (auto simp: server_deliver_def Let_def elim!: bind_SomeE)
  have "world_gets ?w1 w"
    by (rule ws_run_events_kept [OF _ run, THEN conjunct1]) (rule call_app_growth)
  from world_gets_None [OF this, of m] show ?thesis using sv' assms(1) by auto
qed

text \<open>Without an accept outstanding no step makes a session, or accepts again.\<close>

lemma dead_step:
  assumes "server_step L b dt sv sv'" "sv_accepts sv = 0"
  shows "sv_accepts sv' = 0 \<and>
    (ww_sessions (sv_world sv) m = None \<longrightarrow> ww_sessions (sv_world sv') m = None)"
  using assms(1)
proof cases
  case (v_session n s s' os)
  then show ?thesis using deliver_sessions [of sv n s L b os s' sv' m] assms(2) by simp
next
  case (v_app st c w c')
  then show ?thesis
    using world_gets_None [OF world_gets_flush [OF v_app(3)], of m] assms(2) by simp
qed (use assms(2) in \<open>auto simp: ws_destroy_def\<close>)

lemma dead_steps:
  assumes "(server_step L b dt)\<^sup>*\<^sup>* sv sv'" "sv_accepts sv = 0" "ww_sessions (sv_world sv) m = None"
  shows "sv_accepts sv' = 0 \<and> ww_sessions (sv_world sv') m = None"
  using assms
proof (induction rule: rtranclp_induct)
  case (step sv1 sv2)
  then show ?case using dead_step [OF step.hyps(2), of m] by blast
qed simp

section \<open>What can end the program\<close>

lemma core_close_total:
  assumes "c_apps c = init_apps b []"
  shows "\<exists>c'. core_on_close L shares c = Some c'"
  using init_apps_main [OF assms]
  by (simp add: core_on_close_def send_status_def make_status_def create_control_doc_eq)

lemma callback_total:
  assumes apps: "c_apps c = init_apps b []" and out: "c_out c = []" and e: "\<forall>d. e \<noteq> Read_Handler d"
  shows "\<exists>x. ws_run_callback L call (init_websocket_cb cbs) n e (w, st, c) = Some x"
proof (cases e)
  case On_Open
  then show ?thesis
    using core_on_open_eq [OF apps out refl, of L "static_num_shares (static_join n (ww_share w))" n]
    by (auto simp: ws_run_callback_def ws_flush_def Let_def)
next
  case (On_Close ec)
  then show ?thesis
    using core_close_total [OF apps, of L "static_num_shares (ww_share w)"]
    by (auto simp: ws_run_callback_def ws_flush_def Let_def)
qed (use e in \<open>auto simp: ws_run_callback_def ws_flush_def Let_def\<close>)

lemma ws_event_one:
  "ws_event s s' \<Longrightarrow> \<exists>es. wk_log s' = wk_log s @ es \<and> (es = [] \<or>
     (\<exists>e. es = [e] \<and> (\<forall>d. e \<noteq> Read_Handler d)) \<or>
     (\<exists>d. es = [Read_Handler d] \<and> s' = ws_on_read None d s))"
  by (induction rule: ws_event.induct)
    (auto simp: ws_writing_def ws_do_write_def ws_on_handshake_def ws_on_accept_def ws_do_read_def
      ws_on_read_def ws_on_write_def ws_fail_def ws_call_def Let_def split: option.splits)

lemma core_message_ends:
  assumes L: "dom_laws L" and apps: "c_apps c = init_apps b []"
    and none: "core_on_message L call n body (st, c) = None"
    and c1: "\<And>d. c1 d = emit (Write_All (Byte_Array_of (jd_write L (marked L d c))) True) (after_msg c)"
  shows "\<exists>d. jd_parse L (c_str (to_string body)) = Some d \<and> jd_is_object L d \<and>
    (jd_find L d MESSAGE_TIME_KEY = None \<or>
     (\<exists>m a f. parser_main L (init_apps b []) (marked L d c) = Some (Some m) \<and>
        app_entry b (md_app m) = Some a \<and> app_func a = Some f \<and>
        call f n m (marked L d c) (st, c1 d) = None))"
proof -
  have ok: "table_ok (c_apps c)" using apps init_apps_ok by simp
  have total: "fail_message L n main ec what c' \<noteq> None" if "c_apps c' = init_apps b []" for ec what c'
    using fail_message_total [OF init_apps_main [OF that], of L n ec what] by auto
  obtain d where d: "jd_parse L (c_str (to_string body)) = Some d" "jd_is_object L d"
    using none core_on_message_malformed [of L body call n st c] total [OF apps] by fastforce
  show ?thesis
  proof (cases "jd_find L d MESSAGE_TIME_KEY")
    case None
    then show ?thesis using d by blast
  next
    case (Some t)
    obtain r where r: "parser_main L (c_apps c) (marked L d c) = Some r"
      using parser_main_total [OF ok, of L "marked L d c"] by blast
    have eq: "core_on_message L call n body (st, c) = (case r of
        None \<Rightarrow> map_option (Pair st) (fail_message L n main (make_error_code ILL_FORMED) '''' (c1 d))
      | Some m \<Rightarrow> (case app_func (the (map_of (c_apps c) (md_app m))) of
            Some f \<Rightarrow> call f n m (marked L d c) (st, c1 d) | None \<Rightarrow> Some (st, c1 d)))"
      unfolding c1 using core_on_message_eq [OF L ok d Some refl, of call n st] r by simp
    have "fail_message L n main (make_error_code ILL_FORMED) '''' (c1 d) \<noteq> None"
      by (rule total) (simp add: c1 apps)
    then obtain m f where m: "r = Some m" "app_func (the (map_of (c_apps c) (md_app m))) = Some f"
      "call f n m (marked L d c) (st, c1 d) = None"
      using none eq by (auto split: option.splits)
    obtain a where "map_of (c_apps c) (md_app m) = Some a"
      using parser_main_registered [OF ok, of L "marked L d c" m] r m(1) by auto
    then show ?thesis using d m r by (auto simp: apps init_apps_lookup)
  qed
qed

text \<open>An event of a session whose handling does not return.\<close>

lemma deliver_ends:
  assumes L: "dom_laws L" and inv: "server_inv b dt clock sv"
    and s: "ww_sessions (sv_world sv) n = Some s" and ev: "ws_event s s'"
    and none: "server_deliver L b os n s' sv = None"
  shows "\<exists>body d. s' = ws_on_read None body s \<and> jd_parse L (c_str (to_string body)) = Some d \<and>
    jd_is_object L d \<and> (jd_find L d MESSAGE_TIME_KEY = None \<or>
     (\<exists>m a f. parser_main L (init_apps b []) (marked L d (sv_core sv)) = Some (Some m) \<and>
        app_entry b (md_app m) = Some a \<and> app_func a = Some f \<and>
        call_app L b os f n m (marked L d (sv_core sv)) (sv_apps sv,
          emit (Write_All (Byte_Array_of (jd_write L (marked L d (sv_core sv)))) True)
            (after_msg (sv_core sv))) = None))"
proof -
  let ?w1 = "(sv_world sv)\<lparr>ww_sessions := (ww_sessions (sv_world sv))(n \<mapsto> s'), ww_running := Some n\<rparr>"
  have c: "c_apps (sv_core sv) = init_apps b []" "c_out (sv_core sv) = []"
    using inv by (simp_all add: server_inv_def)
  obtain es where log: "wk_log s' = wk_log s @ es" and es: "es = [] \<or>
     (\<exists>e. es = [e] \<and> (\<forall>d. e \<noteq> Read_Handler d)) \<or>
     (\<exists>d. es = [Read_Handler d] \<and> s' = ws_on_read None d s)"
    using ws_event_one [OF ev] by blast
  have run: "ws_run_events L (call_app L b os) (init_websocket_cb no_callbacks) n es
      (?w1, sv_apps sv, sv_core sv) = None"
    using none s log by (auto simp: server_deliver_def Let_def split: bind_splits)
  have "es \<noteq> [e]" if "\<forall>d. e \<noteq> Read_Handler d" for e
    using run callback_total [OF c that, of L "call_app L b os" no_callbacks n ?w1 "sv_apps sv"]
    by auto
  then obtain body where body: "es = [Read_Handler body]" "s' = ws_on_read None body s"
    using es run by auto
  then have "core_on_message L (call_app L b os) n body (sv_apps sv, sv_core sv) = None"
    using run by (auto simp: ws_run_callback_def Let_def split: bind_splits)
  from core_message_ends [OF L c(1) this refl] show ?thesis using body(2) by blast
qed

end
