(* ===== verification/App_Invariants.thy ===== *)
theory App_Invariants
  imports Serial_App Udp_Apps Tcp_Client_App Monitor_App
begin

text \<open>
  What the applications keep of their own state (\<open>src/src/apps\<close>): the serial ports, the UDP
  sockets and the TCP clients.  Every handler of a request and every handler of a completed
  operation keeps its invariant; \<open>Server_Apps\<close> puts them together in the running program.
\<close>

section \<open>Sockets in a container\<close>

text \<open>At most one write is outstanding, the front of the queue; none after a failure.\<close>

definition one_write :: "'d list \<Rightarrow> 'd list \<Rightarrow> bool" where
  "one_write q w \<longleftrightarrow> w = take 1 q \<or> q \<noteq> [] \<and> w = []"

lemma one_write_writing:
  "one_write q w \<Longrightarrow> one_write (q @ [d]) (if q = [] then w @ [d] else w)"
  by (cases q) (auto simp: one_write_def)

lemma one_write_outstanding:
  assumes "one_write q w" "w \<noteq> []"
  obtains d ds where "q = d # ds" "w = [d]"
  using assms by (cases q) (auto simp: one_write_def)

lemma one_write_simps [simp]:
  "one_write (d # ds) []" "one_write [] []" "one_write (d # ds) [d]"
  by (simp_all add: one_write_def)

definition keyed :: "('k \<Rightarrow> 's \<Rightarrow> bool) \<Rightarrow> ('k :: linorder, 's) omap \<Rightarrow> bool" where
  "keyed P m \<longleftrightarrow> om_ok m \<and> (\<forall>(k, s)\<in>set m. P k s)"

lemma keyed_empty [simp]: "keyed P []"
  by (simp add: keyed_def)

lemma keyed_set: "\<lbrakk>keyed P m; P k s\<rbrakk> \<Longrightarrow> keyed P (om_set k s m)"
  using om_set_entries [of _ _ k s m] by (fastforce simp: keyed_def om_ok_set)

lemma keyed_erase: "keyed P m \<Longrightarrow> keyed P (om_erase k m)"
  using set_om_erase [of k m] by (auto simp: keyed_def om_ok_erase)

lemma keyed_find: "\<lbrakk>keyed P m; om_find m k = Some s\<rbrakk> \<Longrightarrow> P k s"
  by (auto simp: keyed_def om_find_eq dest: map_of_SomeD)

named_theorems app_keeps \<open>operations that keep the invariant of an application\<close>

section \<open>Serial ports\<close>

definition serial_port_inv :: "string \<Rightarrow> serial_port \<Rightarrow> bool" where
  "serial_port_inv k s \<longleftrightarrow> sr_is_open s \<and> sr_name s = k \<and> sr_reads s \<le> 1 \<and>
     one_write (sr_queue s) (sr_writes s)"

lemma serial_fail_inv [simp]: "serial_port_inv k (serial_fail ec what s) = serial_port_inv k s"
  by (simp add: serial_port_inv_def serial_fail_def serial_call_def)

lemma serial_set_options_inv:
  "serial_port_inv k s \<Longrightarrow> serial_port_inv k (snd (serial_set_options ops s))"
proof (induction ops s rule: serial_set_options.induct)
  case (2 r op ops s)
  have "serial_port_inv k (snd (serial_set_option r op s))"
    using "2.prems" by (cases r) (simp_all add: serial_set_option_def serial_port_inv_def
        del: serial_fail_inv, simp add: serial_fail_def serial_call_def)
  then show ?case using 2 by (cases r) (simp_all add: serial_set_option_def)
qed simp

lemma serial_get_options_inv:
  "\<lbrakk>serial_get_options rs acc s = (v, s'); serial_port_inv k s\<rbrakk> \<Longrightarrow> serial_port_inv k s'"
proof (induction rs acc s arbitrary: v s' rule: serial_get_options.induct)
  case (2 r rs acc s)
  then show ?case by (cases r) (auto simp: serial_get_option_def)
qed simp

lemma serial_handlers_inv:
  assumes "serial_port_inv k s"
  shows "serial_port_inv k (serial_write d s)"
    "serial_port_inv k (serial_on_writing d (s\<lparr>sr_posted := ts\<rparr>))"
    "sr_reads s > 0 \<Longrightarrow> serial_port_inv k (serial_on_read r d s)"
    "sr_writes s \<noteq> [] \<Longrightarrow> serial_port_inv k (serial_on_write r n s)"
proof -
  show "serial_port_inv k (serial_write d s)"
    using assms by (simp add: serial_port_inv_def serial_write_def)
  show "serial_port_inv k (serial_on_writing d (s\<lparr>sr_posted := ts\<rparr>))"
    using assms one_write_writing [of "sr_queue s" "sr_writes s" d]
    by (auto simp: serial_port_inv_def serial_on_writing_def serial_do_write_def Let_def)
  show "serial_port_inv k (serial_on_read r d s)" if "sr_reads s > 0"
    using assms that
    by (cases r) (auto simp: serial_port_inv_def serial_on_read_def serial_do_read_def
        serial_call_def serial_fail_def Let_def)
  show "serial_port_inv k (serial_on_write r n s)" if "sr_writes s \<noteq> []"
  proof -
    have ow: "one_write (sr_queue s) (sr_writes s)" using assms by (simp add: serial_port_inv_def)
    obtain q qs where q: "sr_queue s = q # qs" "sr_writes s = [q]"
      using ow \<open>sr_writes s \<noteq> []\<close> by (rule one_write_outstanding)
    then show ?thesis using assms
      by (cases r; cases qs) (simp_all add: serial_port_inv_def serial_on_write_def
          serial_do_write_def serial_fail_def serial_call_def Let_def)
  qed
qed

definition serials_inv :: "serials \<Rightarrow> bool" where
  "serials_inv m \<longleftrightarrow> keyed serial_port_inv m"

lemma serials_container_inv [app_keeps]:
  assumes "serials_inv m"
  shows "c_str name = name \<Longrightarrow> serials_inv (fst (snd (serials_open r1 r2 name baud m)))"
    "serials_inv (fst (snd (serials_close r name m)))"
    "serials_inv (snd (serials_write name d m))"
    "serials_inv (snd (serials_config rs name baud ch p sb fw m))"
    "serials_inv (snd (serials_get_config gs name m))"
proof -
  note inv = assms [unfolded serials_inv_def]
  show "c_str name = name \<Longrightarrow> serials_inv (fst (snd (serials_open r1 r2 name baud m)))"
    using inv by (auto simp: serials_inv_def serials_open_def serial_open_def serial_new_def
        serial_is_open_def serial_do_read_def serial_port_inv_def one_write_def Let_def
        intro!: keyed_set split: option.splits prod.splits if_splits)
  show "serials_inv (fst (snd (serials_close r name m)))"
    using inv by (auto simp: serials_inv_def serials_close_def keyed_erase split: option.splits prod.splits)
  show "serials_inv (snd (serials_write name d m))"
    using inv by (auto simp: serials_inv_def serials_write_def split: option.splits
        intro!: keyed_set serial_handlers_inv dest: keyed_find)
  show "serials_inv (snd (serials_config rs name baud ch p sb fw m))"
  proof (cases "om_find m name")
    case (Some s)
    show ?thesis
      using inv Some serial_set_options_inv [OF keyed_find [OF inv Some]]
      by (simp add: serials_inv_def serials_config_def case_prod_beta keyed_set
          del: serial_set_options.simps)
  qed (use assms in \<open>simp add: serials_config_def\<close>)
  show "serials_inv (snd (serials_get_config gs name m))"
  proof (cases "om_find m name")
    case (Some s)
    obtain v s' where g: "serial_get_options [gs 0, gs 1, gs 2, gs 3, gs 4] [] s = (v, s')" by force
    have "serial_port_inv name s'" by (rule serial_get_options_inv [OF g keyed_find [OF inv Some]])
    then show ?thesis using inv Some g by (simp add: serials_inv_def serials_get_config_def keyed_set)
  qed (use assms in \<open>simp add: serials_get_config_def\<close>)
qed

lemma serial_vanish_keeps:
  assumes status: "\<And>m c m' c'. \<lbrakk>snd_st (m, c) = Some (m', c'); serials_inv m\<rbrakk> \<Longrightarrow> serials_inv m'"
    and v: "serial_vanish os snd_st name (m, c) = Some (m', c')" and inv: "serials_inv m"
  shows "serials_inv m'"
proof -
  obtain ec m1 cl where m1: "serials_close (so_close os) name m = (ec, m1, cl)" by (metis prod_cases3)
  have "serials_inv m1" using serials_container_inv(2) [OF inv, of "so_close os" name] m1 by simp
  moreover have "snd_st (m1, c) = Some (m', c')"
    using v m1 by (auto simp: serial_vanish_def bind_Some_iff)
  ultimately show ?thesis using status by blast
qed

lemma serial_ports_loop_keeps:
  assumes vanish: "\<And>p m c m' c'. \<lbrakk>vanish p (m, c) = Some (m', c'); serials_inv m\<rbrakk> \<Longrightarrow> serials_inv m'"
  shows "\<lbrakk>serial_ports_loop L os vanish ps (m, c) = Some (js, m', c'); serials_inv m\<rbrakk> \<Longrightarrow> serials_inv m'"
proof (induction ps arbitrary: m c js)
  case (Cons p ps)
  obtain v m1 where g: "serials_get_config (so_options os p) p m = (v, m1)" by force
  have m1: "serials_inv m1" using serials_container_inv(5) [OF Cons.prems(2), of "so_options os p" p] g by simp
  obtain cfg m2 c2 js' where one: "(if \<not> serials_is_open m p then Some (None, m, c)
      else (case v of Inr v \<Rightarrow> Some (Some v, m1, c)
        | Inl ec \<Rightarrow> if vanished ec then do { (m, c) \<leftarrow> vanish p (m1, c); Some (None, m, c) }
            else Some (None, m1, c))) = Some (cfg, m2, c2)"
    and rest: "serial_ports_loop L os vanish ps (m2, c2) = Some (js', m', c')"
    using Cons.prems(1) g by (cases v) (auto simp: Let_def bind_Some_iff split: if_splits)
  have "serials_inv m2"
    using one m1 Cons.prems(2) vanish
    by (auto simp: bind_Some_iff split: if_splits sum.splits)
  then show ?case using Cons.IH rest by blast
qed simp

lemma serial_status_keeps:
  "\<lbrakk>serial_status n L os (m, c) = Some (m', c'); serials_inv m\<rbrakk> \<Longrightarrow> serials_inv m'"
proof (induction n arbitrary: m c m' c')
  case (Suc n)
  obtain ports c1 where l: "serial_ports_loop L os (serial_vanish os (serial_status n L os))
      (scan_ports (so_entries os)) (m, c) = Some (ports, m', c1)"
    using Suc.prems(1) by (auto simp: bind_Some_iff)
  show ?case
    by (rule serial_ports_loop_keeps [OF _ l Suc.prems(2)]) (rule serial_vanish_keeps [OF Suc.IH])
qed simp

lemma serial_send_status_keeps [app_keeps]:
  "\<lbrakk>serial_send_status L os (m, c) = Some (m', c'); serials_inv m\<rbrakk> \<Longrightarrow> serials_inv m'"
  unfolding serial_send_status_def by (rule serial_status_keeps)

lemma serial_close_callback_keeps [app_keeps]:
  "\<lbrakk>serial_close_callback L os name (m, c) = Some (m', c'); serials_inv m\<rbrakk> \<Longrightarrow> serials_inv m'"
  unfolding serial_close_callback_def by (rule serial_vanish_keeps [OF serial_send_status_keeps])

lemma serial_events_keeps [app_keeps]:
  "\<lbrakk>serial_events L os name es (m, c) = Some (m', c'); serials_inv m\<rbrakk> \<Longrightarrow> serials_inv m'"
proof (induction es arbitrary: m c)
  case (Cons e es)
  then show ?case
    by (cases e) (auto simp: bind_Some_iff serial_read_handler_def dest: serial_close_callback_keeps)
qed simp

lemma serial_run_keeps:
  assumes "serial_run L os nm f (m, c) = Some (m', c')" "serials_inv m" "om_find m nm = Some p"
    "serial_port_inv nm p \<Longrightarrow> serial_port_inv nm (f p)"
  shows "serials_inv m'"
proof -
  have "serial_port_inv nm p" using assms(2,3) keyed_find by (auto simp: serials_inv_def)
  then have "serials_inv (om_set nm (f p) m)"
    using assms(2,4) by (simp add: serials_inv_def keyed_set)
  then show ?thesis
    using assms(1,3) by (auto simp: serial_run_def Let_def dest: serial_events_keeps)
qed

lemma serial_config_keeps [app_keeps]:
  assumes "serial_config L os ws cfg (m, c) = Some (m', c')" "serials_inv m"
  shows "serials_inv m'"
proof -
  obtain ec m1 where m1: "serials_config (so_config os) (sc_port cfg) (sc_baud cfg)
      (sc_char_size cfg) (sc_parity cfg) (sc_stopbits cfg) (sc_fc cfg) m = (ec, m1)" by force
  then have "serials_inv m1" using serials_container_inv(4) [OF assms(2)] by (metis snd_conv)
  then show ?thesis
    using assms(1) m1
    by (auto simp: serial_config_def bind_Some_iff split: option.splits if_splits
        dest: serial_close_callback_keeps)
qed

lemma parser_serial_config_port:
  "parser_serial_config L char_ok doc = Some (Some cfg) \<Longrightarrow> c_str (sc_port cfg) = sc_port cfg"
  by (auto simp: parser_serial_config_def get_serial_config_def bind_Some_iff member_c_str_def
      split: if_splits option.splits)

lemma serial_open_request_keeps [app_keeps]:
  assumes "serial_open_request L char_ok os ws doc (m, c) = Some (m', c')" "serials_inv m"
  shows "serials_inv m'"
proof (cases "m' = m")
  case False
  obtain cfg where cfg: "parser_serial_config L char_ok doc = Some (Some cfg)"
    "\<not> serials_is_open m (sc_port cfg)"
    using assms(1) False
    by (auto simp: serial_open_request_def bind_Some_iff split: option.splits if_splits)
  obtain ec m1 made where o: "serials_open (so_open os) (so_baud os) (sc_port cfg) (sc_baud cfg) m =
      (ec, m1, made)" by (metis prod_cases3)
  then have m1: "serials_inv m1"
    using serials_container_inv(1) [OF assms(2) parser_serial_config_port [OF cfg(1)]]
    by (metis fst_conv snd_conv)
  obtain m2 c2 where m2: "(case made of
        Some s \<Rightarrow> serial_events L os (get_port_name s) (sr_log s) (m1, c)
      | None \<Rightarrow> Some (m1, c)) = Some (m2, c2)"
    and r: "(case ec of
        Some e \<Rightarrow> do { c \<leftarrow> fail_message L ws serial e '''' c2; Some (m2, c) }
      | None \<Rightarrow> serial_config L os ws cfg (m2, c2)) = Some (m', c')"
    using assms(1) cfg o by (auto simp: serial_open_request_def bind_Some_iff)
  have "serials_inv m2" using m1 m2 by (auto split: option.splits dest: serial_events_keeps)
  then show ?thesis using r by (auto simp: bind_Some_iff split: option.splits dest: serial_config_keeps)
qed (use assms(2) in simp)

lemma serial_close_request_keeps [app_keeps]:
  assumes "serial_close_request L os ws doc (m, c) = Some (m', c')" "serials_inv m"
  shows "serials_inv m'"
proof (cases "m' = m")
  case False
  then obtain port where "m' = fst (snd (serials_close (so_close os) port m))"
    using assms(1)
    by (auto simp: serial_close_request_def bind_Some_iff case_prod_beta split: option.splits)
  then show ?thesis using serials_container_inv(2) [OF assms(2)] by simp
qed (use assms(2) in simp)

lemma serial_message_keeps [app_keeps]:
  assumes "serial_message L ws doc (m, c) = Some (m', c')" "serials_inv m"
  shows "serials_inv m'"
proof (cases "\<exists>port data. parser_serial_data L doc = Some (Some (port, data))")
  case True
  then obtain port data where p: "parser_serial_data L doc = Some (Some (port, data))" by blast
  then have "m' = snd (serials_write port data m)"
    using assms(1)
    by (cases "serials_write port data m")
      (auto simp: serial_message_def bind_Some_iff split: option.splits)
  then show ?thesis using serials_container_inv(3) [OF assms(2)] by simp
next
  case False
  then show ?thesis using assms
    by (auto simp: serial_message_def bind_Some_iff split: option.splits)
qed

lemma serial_app_keeps:
  assumes "serial_app L char_ok os ws md doc (m, c) = Some (m', c')" "serials_inv m"
  shows "serials_inv m'"
proof (cases "md_type md = control_type")
  case True
  then obtain con where "md_control md = Some con"
    using assms(1) by (auto simp: serial_app_def bind_Some_iff)
  then show ?thesis using True assms
    by (cases con) (auto simp: serial_app_def bind_Some_iff dest: serial_open_request_keeps
        serial_close_request_keeps serial_send_status_keeps)
next
  case False
  then show ?thesis using assms by (simp add: serial_app_def serial_message_keeps)
qed

section \<open>UDP sockets\<close>

definition udp_client_inv :: "'a endpoint \<Rightarrow> 'a udp_client_socket \<Rightarrow> bool" where
  "udp_client_inv k s \<longleftrightarrow> uc_local s = k \<and> uc_reads s \<le> 1 \<and>
     one_write (uc_queue s) (map snd (uc_writes s))"

definition udp_server_inv :: "'a endpoint \<Rightarrow> 'a udp_server_socket \<Rightarrow> bool" where
  "udp_server_inv k s \<longleftrightarrow> us_local s = k \<and> us_reads s \<le> 1 \<and> one_write (us_queue s) (us_writes s)"

lemma udp_client_fail_inv [simp]:
  "udp_client_inv k (udp_client_fail ec what closed s) = udp_client_inv k s"
  by (simp add: udp_client_inv_def udp_client_fail_def udp_client_close_def udp_client_call_def)

lemma udp_server_fail_inv [simp]:
  "udp_server_inv k (udp_server_fail ec what closed s) = udp_server_inv k s"
  by (simp add: udp_server_inv_def udp_server_fail_def udp_server_close_def udp_server_call_def)

lemma udp_client_handlers_inv:
  assumes inv: "udp_client_inv k s"
  shows "udp_client_inv k (udp_client_write d s)"
    "udp_client_inv k (udp_client_writing d (s\<lparr>uc_posted := ts\<rparr>))"
    "uc_reads s > 0 \<Longrightarrow> udp_client_inv k (udp_client_on_read r from d closed s)"
    "uc_writes s \<noteq> [] \<Longrightarrow> udp_client_inv k (udp_client_on_write r closed s)"
proof -
  show "udp_client_inv k (udp_client_write d s)"
    using inv by (simp add: udp_client_inv_def udp_client_write_def)
  show "udp_client_inv k (udp_client_writing d (s\<lparr>uc_posted := ts\<rparr>))"
    using inv by (cases "uc_queue s") (auto simp: udp_client_inv_def udp_client_writing_def
        udp_client_do_write_def one_write_def Let_def)
  show "udp_client_inv k (udp_client_on_read r from d closed s)" if "uc_reads s > 0"
  proof (cases r)
    case None
    then show ?thesis using inv that by (simp add: udp_client_inv_def udp_client_on_read_def
        udp_client_do_read_def udp_client_call_def Let_def)
  next
    case (Some ec)
    have "udp_client_inv k (s\<lparr>uc_reads := uc_reads s - 1\<rparr>)"
      using inv by (simp add: udp_client_inv_def)
    then show ?thesis using Some by (simp add: udp_client_on_read_def)
  qed
  show "udp_client_inv k (udp_client_on_write r closed s)" if "uc_writes s \<noteq> []"
  proof -
    have ow: "one_write (uc_queue s) (map snd (uc_writes s))" "map snd (uc_writes s) \<noteq> []"
      using inv that by (simp_all add: udp_client_inv_def)
    obtain q qs where q: "uc_queue s = q # qs" "map snd (uc_writes s) = [q]"
      by (rule one_write_outstanding [OF ow])
    then have t: "tl (uc_writes s) = []" by (cases "uc_writes s") auto
    show ?thesis
    proof (cases r)
      case None
      then show ?thesis using inv q t by (cases qs) (simp_all add: udp_client_inv_def
          udp_client_on_write_def udp_client_do_write_def Let_def)
    next
      case (Some ec)
      have "udp_client_inv k (s\<lparr>uc_writes := []\<rparr>)" using inv q by (simp add: udp_client_inv_def)
      then show ?thesis using Some t by (simp add: udp_client_on_write_def)
    qed
  qed
qed

lemma udp_server_handlers_inv:
  assumes inv: "udp_server_inv k s"
  shows "udp_server_inv k (udp_server_write ep d s)"
    "udp_server_inv k (udp_server_writing p (s\<lparr>us_posted := ts\<rparr>))"
    "us_reads s > 0 \<Longrightarrow> udp_server_inv k (udp_server_on_read r from d closed s)"
    "us_writes s \<noteq> [] \<Longrightarrow> udp_server_inv k (udp_server_on_write r closed s)"
proof -
  show "udp_server_inv k (udp_server_write ep d s)"
    using inv by (simp add: udp_server_inv_def udp_server_write_def)
  show "udp_server_inv k (udp_server_writing p (s\<lparr>us_posted := ts\<rparr>))"
    using inv by (cases "us_queue s") (auto simp: udp_server_inv_def udp_server_writing_def
        udp_server_do_write_def one_write_def Let_def)
  show "udp_server_inv k (udp_server_on_read r from d closed s)" if "us_reads s > 0"
  proof (cases r)
    case None
    then show ?thesis using inv that by (simp add: udp_server_inv_def udp_server_on_read_def
        udp_server_do_read_def udp_server_call_def Let_def)
  next
    case (Some ec)
    have "udp_server_inv k (s\<lparr>us_reads := us_reads s - 1\<rparr>)"
      using inv by (simp add: udp_server_inv_def)
    then show ?thesis using Some by (simp add: udp_server_on_read_def)
  qed
  show "udp_server_inv k (udp_server_on_write r closed s)" if w: "us_writes s \<noteq> []"
  proof -
    have ow: "one_write (us_queue s) (us_writes s)" using inv by (simp add: udp_server_inv_def)
    obtain q qs where q: "us_queue s = q # qs" "us_writes s = [q]"
      by (rule one_write_outstanding [OF ow w])
    show ?thesis
    proof (cases r)
      case None
      then show ?thesis using inv q by (cases qs) (simp_all add: udp_server_inv_def
          udp_server_on_write_def udp_server_do_write_def Let_def)
    next
      case (Some ec)
      have "udp_server_inv k (s\<lparr>us_writes := []\<rparr>)" using inv q by (simp add: udp_server_inv_def)
      then show ?thesis using Some q by (simp add: udp_server_on_write_def)
    qed
  qed
qed

lemma udp_server_write_all_inv:
  "udp_server_inv k s \<Longrightarrow> udp_server_inv k (udp_server_write_all tos d s)"
  by (induction tos d s rule: udp_server_write_all.induct) (simp_all add: udp_server_handlers_inv)

lemma udp_clients_container_inv:
  assumes inv: "keyed udp_client_inv m"
  shows "udp_clients_open b ep m = Some m' \<Longrightarrow> keyed udp_client_inv m'"
    "keyed udp_client_inv (snd (udp_clients_close ep r m))"
    "keyed udp_client_inv (snd (udp_clients_write ep d m))"
proof -
  show "udp_clients_open b ep m = Some m' \<Longrightarrow> keyed udp_client_inv m'"
    using inv by (auto simp: udp_clients_open_def bind_Some_iff Let_def udp_client_new_def
        udp_client_inv_def udp_client_open_def udp_client_do_read_def udp_client_call_def
        intro!: keyed_set)
  show "keyed udp_client_inv (snd (udp_clients_close ep r m))"
    using inv by (auto simp: udp_clients_close_def keyed_erase split: option.splits)
  show "keyed udp_client_inv (snd (udp_clients_write ep d m))"
    using inv by (auto simp: udp_clients_write_def split: option.splits
        intro!: keyed_set udp_client_handlers_inv(1) dest: keyed_find)
qed

lemma udp_servers_container_inv:
  assumes inv: "keyed udp_server_inv m"
  shows "udp_servers_open o1 b ep m = Some (ec, m') \<Longrightarrow> keyed udp_server_inv m'"
    "keyed udp_server_inv (snd (udp_servers_close ep r m))"
    "keyed udp_server_inv (snd (udp_servers_write_to ep tos d m))"
proof -
  show "udp_servers_open o1 b ep m = Some (ec, m') \<Longrightarrow> keyed udp_server_inv m'"
    using inv by (auto simp: udp_servers_open_def udp_server_open_def bind_Some_iff Let_def
        udp_server_new_def udp_server_inv_def udp_server_do_read_def udp_server_call_def
        intro!: keyed_set split: option.splits if_splits)
  show "keyed udp_server_inv (snd (udp_servers_close ep r m))"
    using inv by (auto simp: udp_servers_close_def keyed_erase split: option.splits)
  show "keyed udp_server_inv (snd (udp_servers_write_to ep tos d m))"
    using inv by (auto simp: udp_servers_write_to_def split: option.splits
        intro!: keyed_set udp_server_write_all_inv dest: keyed_find)
qed

lemma udp_client_status_world:
  "udp_client_message_status L (m, c) = Some (m', c') \<Longrightarrow> m' = m"
  by (auto simp: udp_client_message_status_def bind_Some_iff)

lemma udp_server_status_world:
  "udp_server_message_status L (m, c) = Some (m', c') \<Longrightarrow> m' = m"
  by (auto simp: udp_server_message_status_def bind_Some_iff)

text \<open>Every request leaves the container as it is or does one operation on it.\<close>

lemma udp_client_app_cases:
  assumes "udp_client_app L bound close_r ws md doc (m, c) = Some (m', c')"
  shows "m' = m \<or> (\<exists>ep. udp_clients_open bound ep m = Some m') \<or>
    (\<exists>ep. m' = snd (udp_clients_close ep close_r m)) \<or> (\<exists>ep d. m' = snd (udp_clients_write ep d m))"
proof (cases "md_type md = control_type")
  case True
  then obtain con where con: "md_control md = Some con"
    using assms by (auto simp: udp_client_app_def bind_Some_iff)
  have "m' = m \<or> (\<exists>ep. m' = snd (udp_clients_close ep close_r m))"
    if "udp_client_message_close L close_r ws doc (m, c) = Some (m', c')"
    using that by (auto simp: udp_client_message_close_def bind_Some_iff case_prod_beta
        split: option.splits dest!: udp_client_status_world)
  moreover have "m' = m \<or> (\<exists>ep. udp_clients_open bound ep m = Some m')"
    if "udp_client_message_open L bound ws doc (m, c) = Some (m', c')"
    using that by (auto simp: udp_client_message_open_def bind_Some_iff
        split: option.splits dest!: udp_client_status_world)
  ultimately show ?thesis using True con assms
    by (cases con) (auto simp: udp_client_app_def bind_Some_iff dest!: udp_client_status_world)
next
  case False
  then have "udp_client_message_data L ws doc (m, c) = Some (m', c')"
    using assms by (simp add: udp_client_app_def)
  then show ?thesis by (auto simp: udp_client_message_data_def bind_Some_iff case_prod_beta
        split: option.splits) blast+
qed

lemma udp_server_app_cases:
  assumes "udp_server_app L opened bind_r close_r ws md doc (m, c) = Some (m', c')"
  shows "m' = m \<or> (\<exists>ep ec. udp_servers_open opened bind_r ep m = Some (ec, m')) \<or>
    (\<exists>ep. m' = snd (udp_servers_close ep close_r m)) \<or>
    (\<exists>ep tos d. m' = snd (udp_servers_write_to ep tos d m))"
proof (cases "md_type md = control_type")
  case True
  then obtain con where con: "md_control md = Some con"
    using assms by (auto simp: udp_server_app_def bind_Some_iff)
  have "m' = m \<or> (\<exists>ep. m' = snd (udp_servers_close ep close_r m))"
    if "udp_server_message_close L close_r ws doc (m, c) = Some (m', c')"
    using that by (auto simp: udp_server_message_close_def bind_Some_iff case_prod_beta
        split: option.splits dest!: udp_server_status_world)
  moreover have "m' = m \<or> (\<exists>ep ec. udp_servers_open opened bind_r ep m = Some (ec, m'))"
    if "udp_server_message_open L opened bind_r ws doc (m, c) = Some (m', c')"
    using that by (auto simp: udp_server_message_open_def bind_Some_iff
        split: option.splits dest!: udp_server_status_world)
  ultimately show ?thesis using True con assms
    by (cases con) (auto simp: udp_server_app_def bind_Some_iff dest!: udp_server_status_world)
next
  case False
  then have "udp_server_message_data L ws doc (m, c) = Some (m', c')"
    using assms by (simp add: udp_server_app_def)
  then show ?thesis by (auto simp: udp_server_message_data_def bind_Some_iff case_prod_beta
        split: option.splits) blast+
qed

lemma udp_client_app_keeps:
  "\<lbrakk>udp_client_app L bound close_r ws md doc (m, c) = Some (m', c'); keyed udp_client_inv m\<rbrakk>
     \<Longrightarrow> keyed udp_client_inv m'"
  using udp_client_app_cases [of L bound close_r ws md doc m c m' c'] udp_clients_container_inv [of m]
  by blast

lemma udp_server_app_keeps:
  "\<lbrakk>udp_server_app L opened bind_r close_r ws md doc (m, c) = Some (m', c'); keyed udp_server_inv m\<rbrakk>
     \<Longrightarrow> keyed udp_server_inv m'"
  using udp_server_app_cases [of L opened bind_r close_r ws md doc m c m' c']
    udp_servers_container_inv [of m]
  by blast

section \<open>TCP clients\<close>

text \<open>
  The container knows clients that exist and whose connect has called back: their callbacks
  are assigned, so that closing one never calls an empty function.
\<close>

definition tc_world_inv :: "('a :: linorder) tc_world \<Rightarrow> bool" where
  "tc_world_inv w \<longleftrightarrow>
     (\<forall>n k. tw_store w n = Some k \<longrightarrow> n < tw_next w \<and> tcp_client_inv (ca_socket k)) \<and>
     om_ok (tw_clients w) \<and>
     (\<forall>(ep, n)\<in>set (tw_clients w). \<exists>k. tw_store w n = Some k \<and> ca_callbacks k)"

lemma tc_world_inv_update:
  assumes inv: "tc_world_inv w"
    and f: "\<And>k. tcp_client_inv (ca_socket k) \<Longrightarrow> tcp_client_inv (ca_socket (f k))"
      "\<And>k. ca_callbacks k \<Longrightarrow> ca_callbacks (f k)"
  shows "tc_world_inv (tw_update n f w)"
  using inv f by (fastforce simp: tc_world_inv_def tw_update_def)

lemma tcp_client_inv_post:
  "tcp_client_inv s \<Longrightarrow> tcp_client_inv (tcp_client_close s)"
  "tcp_client_inv s \<Longrightarrow> tcp_client_inv (tcp_client_write d s)"
  by (simp_all add: tcp_client_inv_def tcp_client_close_def tcp_client_write_def)

lemma tcp_clients_container_inv:
  assumes inv: "tc_world_inv w"
  shows "tc_world_inv (snd (tcp_clients_open b use_ssl w))"
    "tc_world_inv (snd (tcp_clients_close ep w))"
    "tc_world_inv (snd (tcp_clients_write ep d w))"
proof -
  have new: "tw_store w (tw_next w) = None"
    using inv by (cases "tw_store w (tw_next w)") (auto simp: tc_world_inv_def)
  show "tc_world_inv (snd (tcp_clients_open b use_ssl w))"
    using inv new by (fastforce simp: tcp_clients_open_def tc_world_inv_def Let_def
        tcp_client_inv_def tcp_client_open_cb_def tcp_client_new_def less_Suc_eq)
  show "tc_world_inv (snd (tcp_clients_close ep w))"
  proof (cases "om_find (tw_clients w) ep")
    case (Some n)
    let ?w = "tw_update n (\<lambda>k. k\<lparr>ca_socket := tcp_client_close (ca_socket k)\<rparr>) w"
    have "tc_world_inv ?w" by (rule tc_world_inv_update [OF inv]) (simp_all add: tcp_client_inv_post)
    then have "tc_world_inv (?w\<lparr>tw_clients := om_erase ep (tw_clients ?w)\<rparr>)"
      using set_om_erase [of ep "tw_clients ?w"] by (fastforce simp: tc_world_inv_def om_ok_erase)
    then show ?thesis using Some by (simp add: tcp_clients_close_def Let_def)
  qed (use inv in \<open>simp add: tcp_clients_close_def\<close>)
  show "tc_world_inv (snd (tcp_clients_write ep d w))"
    using inv by (auto simp: tcp_clients_write_def split: option.splits
        intro!: tc_world_inv_update tcp_client_inv_post)
qed

lemma tcp_client_status_world:
  "tcp_client_message_status L (w, c) = Some (w', c') \<Longrightarrow> w' = w"
  by (auto simp: tcp_client_message_status_def bind_Some_iff)

lemma tcp_client_connected_keeps:
  assumes "tcp_client_connected L stale n r (w, c) = Some (w', c')" "tc_world_inv w"
  shows "tc_world_inv w'"
proof (cases r)
  case None
  then obtain k local where k: "tw_store w n = Some k"
    and w': "w' = tw_update n (\<lambda>k. k\<lparr>ca_callbacks := True, ca_keepalive := Some stale\<rparr>)
      (w\<lparr>tw_clients := om_set local n (tw_clients w)\<rparr>)"
    using assms(1)
    by (auto simp: tcp_client_connected_def tcp_client_init_def bind_Some_iff
        dest!: tcp_client_status_world)
  show ?thesis
    using assms(2) k set_om_set [of local n "tw_clients w"]
    by (fastforce simp: w' tw_update_def tc_world_inv_def om_ok_set)
next
  case (Some ec)
  then show ?thesis using assms by (simp add: tcp_client_connected_def)
qed

lemma tcp_client_event_keeps:
  assumes "tcp_client_event L none stale n e (w, c) = Some (w', c')" "tc_world_inv w"
  shows "tc_world_inv w'"
proof (cases e)
  case (Opened r)
  then show ?thesis using assms tcp_client_connected_keeps by simp
next
  case (Called cb)
  show ?thesis
  proof (cases cb)
    case On_Open
    then obtain local where "w' = tw_update n (\<lambda>k. k\<lparr>ca_saved := Some local\<rparr>) w"
      using assms(1) Called by (auto simp: tcp_client_on_open_def bind_Some_iff)
    then show ?thesis using assms(2) by (auto intro: tc_world_inv_update)
  next
    case (Read_Handler b)
    then show ?thesis using assms Called by (auto simp: tcp_client_read_handler_def bind_Some_iff)
  next
    case (On_Close ec)
    then obtain ep where "w' = snd (tcp_clients_close ep w)"
      using assms(1) Called
      by (auto simp: tcp_client_on_close_def bind_Some_iff Let_def dest!: tcp_client_status_world)
    then show ?thesis using tcp_clients_container_inv(2) [OF assms(2)] by simp
  next
    case (On_Error ec what)
    then show ?thesis using assms Called by (auto simp: tcp_client_on_error_def bind_Some_iff)
  qed
qed

lemma tcp_client_events_keeps:
  "\<lbrakk>tcp_client_events L none stale n es (w, c) = Some (w', c'); tc_world_inv w\<rbrakk> \<Longrightarrow> tc_world_inv w'"
  by (induction es arbitrary: w c) (auto simp: bind_Some_iff dest: tcp_client_event_keeps)

lemma tcp_client_run_keeps:
  assumes run: "tcp_client_run L none stale n f (w, c) = Some (w', c')" and inv: "tc_world_inv w"
    and k: "tw_store w n = Some k" and step: "tcp_client_step (ca_socket k) (f (ca_socket k))"
  shows "tc_world_inv w'"
proof -
  let ?s = "f (ca_socket k)"
  have "tcp_client_inv ?s"
    using inv k tcp_client_inv_step [OF step] by (auto simp: tc_world_inv_def)
  then have "tc_world_inv (tw_update n (\<lambda>k. k\<lparr>ca_socket := ?s\<rparr>) w)"
    by (intro tc_world_inv_update [OF inv]) simp_all
  then show ?thesis
    using run k by (auto simp: tcp_client_run_def Let_def dest: tcp_client_events_keeps)
qed

lemma tpc_client_app_cases:
  assumes "tpc_client_app L use_ssl supports ws md doc (w, c) = Some (w', c')"
  shows "w' = w \<or> (\<exists>b s. w' = snd (tcp_clients_open b s w)) \<or>
    (\<exists>ep. w' = snd (tcp_clients_close ep w)) \<or> (\<exists>ep d. w' = snd (tcp_clients_write ep d w))"
proof (cases "md_type md = control_type")
  case True
  then obtain con where con: "md_control md = Some con"
    using assms by (auto simp: tpc_client_app_def bind_Some_iff)
  have "w' = w \<or> (\<exists>ep. w' = snd (tcp_clients_close ep w))"
    if "tcp_client_message_close L ws doc (w, c) = Some (w', c')"
    using that by (auto simp: tcp_client_message_close_def bind_Some_iff case_prod_beta
        split: option.splits) blast+
  moreover have "w' = w \<or> (\<exists>b s. w' = snd (tcp_clients_open b s w))"
    if "tcp_client_message_open L use_ssl supports ws doc (w, c) = Some (w', c')"
    using that by (auto simp: tcp_client_message_open_def bind_Some_iff case_prod_beta
        split: option.splits if_splits) blast+
  ultimately show ?thesis using True con assms
    by (cases con) (auto simp: tpc_client_app_def bind_Some_iff dest!: tcp_client_status_world)
next
  case False
  then have "tcp_client_message_data L ws doc (w, c) = Some (w', c')"
    using assms by (simp add: tpc_client_app_def)
  then show ?thesis by (auto simp: tcp_client_message_data_def bind_Some_iff case_prod_beta
        split: option.splits) blast+
qed

lemma tpc_client_app_keeps:
  "\<lbrakk>tpc_client_app L use_ssl supports ws md doc (w, c) = Some (w', c'); tc_world_inv w\<rbrakk>
     \<Longrightarrow> tc_world_inv w'"
  using tpc_client_app_cases [of L use_ssl supports ws md doc w c w' c']
    tcp_clients_container_inv [of w]
  by blast

end
