(* ===== verification/Callbacks.thy ===== *)
theory Callbacks
  imports Ws_Session
begin

text \<open>
  The variants of the socket classes that run a \<open>std::function\<close> the user assigned for each
  event, in \<open>src/src/libs/my_async/include/my_async\<close>: the functions belong to the object
  (\<open>util/callback.hpp\<close>, \<open>serial/serial_callback.hpp\<close>) or to the class
  (\<open>util/static_callback.hpp\<close>, \<open>serial/serial_static_callback.hpp\<close>,
  \<open>websocket/session_static_callback.hpp\<close>), and two session classes of the TCP server join
  and leave a registry on the way.  What both kinds of holder promise is the locale
  \<open>callback_holder\<close>.
\<close>

section \<open>Contract\<close>

datatype slot = Slot_Open | Slot_Close | Slot_Message | Slot_Error

fun slot_of :: "callback \<Rightarrow> slot" where
  "slot_of On_Open = Slot_Open"
| "slot_of (Read_Handler d) = Slot_Message"
| "slot_of (On_Close ec) = Slot_Close"
| "slot_of (On_Error ec what) = Slot_Error"

locale callback_holder =
  fixes assign :: "'o \<Rightarrow> slot \<Rightarrow> 'f option \<Rightarrow> 'w \<Rightarrow> 'w"
    and assigned :: "'o \<Rightarrow> slot \<Rightarrow> 'w \<Rightarrow> 'f option"
  assumes assigned_same: "assigned p s (assign p s f w) = f"
    and assigned_slot: "s \<noteq> s' \<Longrightarrow> assigned q s' (assign p s f w) = assigned q s' w"
begin

text \<open>The calls an event makes: the function, the object and the event.\<close>

definition notify :: "'o \<Rightarrow> callback \<Rightarrow> 'w \<Rightarrow> ('f \<times> 'o \<times> callback) list" where
  "notify p e w = (case assigned p (slot_of e) w of Some f \<Rightarrow> [(f, p, e)] | None \<Rightarrow> [])"

fun assigns :: "('o \<times> slot \<times> 'f option) list \<Rightarrow> 'w \<Rightarrow> 'w" where
  "assigns [] w = w"
| "assigns ((p, s, f) # as) w = assigns as (assign p s f w)"

lemma notify_at_most_one: "length (notify p e w) \<le> 1"
  by (simp add: notify_def split: option.splits)

lemma assigned_untouched:
  "s \<notin> (fst \<circ> snd) ` set as \<Longrightarrow> assigned p s (assigns as w) = assigned p s w"
  by (induction as w rule: assigns.induct) (auto simp: assigned_slot)

lemma notify_last:
  assumes "slot_of e \<notin> (fst \<circ> snd) ` set as"
  shows "notify p e (assigns (bs @ (p, slot_of e, f) # as) w) =
    (case f of Some g \<Rightarrow> [(g, p, e)] | None \<Rightarrow> [])"
proof -
  have "assigns (bs @ (p, slot_of e, f) # as) w = assigns as (assign p (slot_of e) f (assigns bs w))"
    by (induction bs w rule: assigns.induct) simp_all
  then show ?thesis using assigned_untouched [OF assms, of p] by (simp add: notify_def assigned_same)
qed

end

section \<open>Functions of an object and of a class\<close>

primrec slot_get :: "'f ws_callbacks \<Rightarrow> slot \<Rightarrow> 'f option" where
  "slot_get cbs Slot_Open = cb_open cbs"
| "slot_get cbs Slot_Close = cb_close cbs"
| "slot_get cbs Slot_Message = cb_message cbs"
| "slot_get cbs Slot_Error = cb_error cbs"

text \<open>\<open>None\<close> is the default argument \<open>nullptr\<close>, which removes the function.\<close>

primrec slot_set :: "slot \<Rightarrow> 'f option \<Rightarrow> 'f ws_callbacks \<Rightarrow> 'f ws_callbacks" where
  "slot_set Slot_Open f cbs = cbs\<lparr>cb_open := f\<rparr>"
| "slot_set Slot_Close f cbs = cbs\<lparr>cb_close := f\<rparr>"
| "slot_set Slot_Message f cbs = cbs\<lparr>cb_message := f\<rparr>"
| "slot_set Slot_Error f cbs = cbs\<lparr>cb_error := f\<rparr>"

lemma slot_get_set: "slot_get (slot_set s f cbs) s' = (if s = s' then f else slot_get cbs s')"
  by (cases s; cases s') simp_all

definition Callback_set ::
  "'o \<Rightarrow> slot \<Rightarrow> 'f option \<Rightarrow> ('o \<Rightarrow> 'f ws_callbacks) \<Rightarrow> 'o \<Rightarrow> 'f ws_callbacks" where
  "Callback_set p s f w = w(p := slot_set s f (w p))"

definition Callback_get :: "'o \<Rightarrow> slot \<Rightarrow> ('o \<Rightarrow> 'f ws_callbacks) \<Rightarrow> 'f option" where
  "Callback_get p s w = slot_get (w p) s"

definition Static_Callback_set ::
  "'o \<Rightarrow> slot \<Rightarrow> 'f option \<Rightarrow> 'f ws_callbacks \<Rightarrow> 'f ws_callbacks" where
  "Static_Callback_set p s f w = slot_set s f w"

definition Static_Callback_get :: "'o \<Rightarrow> slot \<Rightarrow> 'f ws_callbacks \<Rightarrow> 'f option" where
  "Static_Callback_get p s w = slot_get w s"

interpretation object_callbacks: callback_holder Callback_set Callback_get
  by unfold_locales (auto simp: Callback_set_def Callback_get_def slot_get_set)

interpretation class_callbacks: callback_holder Static_Callback_set Static_Callback_get
  by unfold_locales (auto simp: Static_Callback_set_def Static_Callback_get_def slot_get_set)

section \<open>The overrides\<close>

text \<open>The clients forward each event to the function of its name.\<close>

definition Client_Callback_event ::
  "'o \<Rightarrow> callback \<Rightarrow> ('o \<Rightarrow> 'f ws_callbacks) \<Rightarrow> ('f \<times> 'o \<times> callback) list" where
  "Client_Callback_event p e w =
     (case e of
        Read_Handler d \<Rightarrow> (case cb_message (w p) of Some f \<Rightarrow> [(f, p, e)] | None \<Rightarrow> [])
      | On_Open \<Rightarrow> (case cb_open (w p) of Some f \<Rightarrow> [(f, p, e)] | None \<Rightarrow> [])
      | On_Error ec what \<Rightarrow> (case cb_error (w p) of Some f \<Rightarrow> [(f, p, e)] | None \<Rightarrow> [])
      | On_Close ec \<Rightarrow> (case cb_close (w p) of Some f \<Rightarrow> [(f, p, e)] | None \<Rightarrow> []))"

definition Session_Static_Callback_event ::
  "'o \<Rightarrow> callback \<Rightarrow> 'f ws_callbacks \<Rightarrow> ('f \<times> 'o \<times> callback) list" where
  "Session_Static_Callback_event p e w =
     (case e of
        Read_Handler d \<Rightarrow> (case cb_message w of Some f \<Rightarrow> [(f, p, e)] | None \<Rightarrow> [])
      | On_Open \<Rightarrow> (case cb_open w of Some f \<Rightarrow> [(f, p, e)] | None \<Rightarrow> [])
      | On_Error ec what \<Rightarrow> (case cb_error w of Some f \<Rightarrow> [(f, p, e)] | None \<Rightarrow> [])
      | On_Close ec \<Rightarrow> (case cb_close w of Some f \<Rightarrow> [(f, p, e)] | None \<Rightarrow> []))"

text \<open>
  The serial classes override \<open>fail\<close> itself: every error runs the error function, the end of
  the device too.
\<close>

datatype serial_notice =
    Serial_Open | Serial_Data byte_array | Serial_Close error_code | Serial_Fail error_code string

fun serial_slot :: "serial_notice \<Rightarrow> slot" where
  "serial_slot Serial_Open = Slot_Open"
| "serial_slot (Serial_Data d) = Slot_Message"
| "serial_slot (Serial_Close ec) = Slot_Close"
| "serial_slot (Serial_Fail ec what) = Slot_Error"

definition Serial_Callback_event ::
  "'o \<Rightarrow> serial_notice \<Rightarrow> ('o \<Rightarrow> 'f ws_callbacks) \<Rightarrow> ('f \<times> 'o \<times> serial_notice) list" where
  "Serial_Callback_event p e w =
     (case slot_get (w p) (serial_slot e) of Some f \<Rightarrow> [(f, p, e)] | None \<Rightarrow> [])"

definition Serial_Static_Callback_event ::
  "'o \<Rightarrow> serial_notice \<Rightarrow> 'f ws_callbacks \<Rightarrow> ('f \<times> 'o \<times> serial_notice) list" where
  "Serial_Static_Callback_event p e w =
     (case slot_get w (serial_slot e) of Some f \<Rightarrow> [(f, p, e)] | None \<Rightarrow> [])"

text \<open>
  The websocket class overrides \<open>fail\<close>, which tells the end of the connection from an error;
  its \<open>on_open\<close> takes an error code.
\<close>

definition ws_static_fail ::
  "'o \<Rightarrow> error_code \<Rightarrow> string \<Rightarrow> 'f ws_callbacks \<Rightarrow> ('f \<times> 'o \<times> callback) list" where
  "ws_static_fail p ec what w =
     (if ec = operation_aborted \<or> ec = websocket_closed
      then (case cb_close w of Some f \<Rightarrow> [(f, p, On_Close ec)] | None \<Rightarrow> [])
      else (case cb_error w of Some f \<Rightarrow> [(f, p, On_Error ec what)] | None \<Rightarrow> []))"

section \<open>Sessions with a registry\<close>

text \<open>
  The registry an event leaves, and the calls with the registry as each of them sees it.
\<close>

definition share_session_event ::
  "'o \<Rightarrow> callback \<Rightarrow> 'f ws_callbacks \<Rightarrow> ('o, 'd) share
     \<Rightarrow> ('f \<times> 'o \<times> callback \<times> 'o list) list \<times> ('o, 'd) share" where
  "share_session_event p e cbs sh =
     (let calls = \<lambda>s. map (\<lambda>(f, p, e). (f, p, e, sh_set s)) (Session_Static_Callback_event p e cbs) in
      case e of
        On_Open \<Rightarrow> (let sh = share_join p sh in (calls sh, sh))
      | On_Close ec \<Rightarrow> (let sh = share_leave p sh in (calls sh, sh))
      | _ \<Rightarrow> (calls sh, sh))"

definition static_share_session_event ::
  "'o \<Rightarrow> callback \<Rightarrow> 'f ws_callbacks \<Rightarrow> 'o list
     \<Rightarrow> ('f \<times> 'o \<times> callback \<times> 'o list) list \<times> 'o list" where
  "static_share_session_event p e cbs share =
     (let calls = \<lambda>s. map (\<lambda>(f, p, e). (f, p, e, s)) (Session_Static_Callback_event p e cbs) in
      case e of
        On_Open \<Rightarrow> (let share = static_join p share in (calls share, share))
      | On_Close ec \<Rightarrow> (calls share, static_leave p share)
      | _ \<Rightarrow> (calls share, share))"

section \<open>Lemmas\<close>

lemma forwarded:
  "Client_Callback_event p e w = object_callbacks.notify p e w"
  "Session_Static_Callback_event p e cbs = class_callbacks.notify p e cbs"
  by (cases e; simp add: Client_Callback_event_def Session_Static_Callback_event_def
      object_callbacks.notify_def class_callbacks.notify_def Callback_get_def
      Static_Callback_get_def split: option.splits)+

text \<open>An object is told its events by its own functions only, a class by the last assigned.\<close>

lemma object_callbacks_apart:
  "p \<noteq> q \<Longrightarrow> Client_Callback_event q e (Callback_set p s f w) = Client_Callback_event q e w"
  by (simp add: Client_Callback_event_def Callback_set_def split: callback.splits)

lemma class_callbacks_shared:
  "Session_Static_Callback_event q e (Static_Callback_set p (slot_of e) f w) =
     (case f of Some g \<Rightarrow> [(g, q, e)] | None \<Rightarrow> [])"
  by (cases e) (simp_all add: Session_Static_Callback_event_def Static_Callback_set_def
      split: option.splits)

fun membership :: "'o \<times> callback \<Rightarrow> (bool \<times> 'o) list" where
  "membership (p, On_Open) = [(True, p)]"
| "membership (p, On_Close ec) = [(False, p)]"
| "membership (p, e) = []"

fun static_share_run :: "'f ws_callbacks \<Rightarrow> ('o \<times> callback) list \<Rightarrow> 'o list \<Rightarrow> 'o list" where
  "static_share_run cbs [] share = share"
| "static_share_run cbs ((p, e) # es) share =
     static_share_run cbs es (snd (static_share_session_event p e cbs share))"

fun share_run :: "'f ws_callbacks \<Rightarrow> ('o \<times> callback) list \<Rightarrow> ('o, 'd) share \<Rightarrow> ('o, 'd) share" where
  "share_run cbs [] sh = sh"
| "share_run cbs ((p, e) # es) sh = share_run cbs es (snd (share_session_event p e cbs sh))"

lemma static_share_run_history:
  "static_share_run cbs es share = static_shareable.history (concat (map membership es)) share"
proof (induction es arbitrary: share)
  case (Cons x es)
  then show ?case
    by (cases x; cases "snd x") (simp_all add: static_share_session_event_def Let_def)
qed simp

lemma share_run_history:
  "share_run cbs es sh = shareable.history (concat (map membership es)) sh"
proof (induction es arbitrary: sh)
  case (Cons x es)
  then show ?case
    by (cases x; cases "snd x") (simp_all add: share_session_event_def Let_def)
qed simp

text \<open>
  Whatever events the sessions of the two classes had, both registries hold exactly the
  sessions that opened and have not closed since, each once.  When one more session closes,
  its close function runs once: in the class whose registry belongs to the listener it no
  longer finds the session in the registry, in the class with the static registry it still
  does, so that what it writes to all is written to the closed session too.
\<close>

theorem close_sees_registry:
  fixes es :: "('o \<times> callback) list"
  assumes f: "cb_close cbs = Some f"
    and sh: "sh = share_run cbs es (share_new d)" and st: "share = static_share_run cbs es []"
    and p: "shareable.present (concat (map membership es)) False p"
  shows "distinct (sh_set sh) \<and> distinct share \<and> set (sh_set sh) = set share \<and>
    (\<exists>v. fst (share_session_event p (On_Close ec) cbs sh) = [(f, p, On_Close ec, v)] \<and> p \<notin> set v) \<and>
    (\<exists>v. fst (static_share_session_event p (On_Close ec) cbs share) = [(f, p, On_Close ec, v)] \<and>
      p \<in> set v) \<and>
    p \<notin> set (snd (static_share_session_event p (On_Close ec) cbs share))"
proof -
  let ?h = "concat (map membership es)"
  have pr: "static_shareable.present = shareable.present" by simp
  have a: "distinct (sh_set sh)" "q \<in> set (sh_set sh) \<longleftrightarrow> shareable.present ?h False q" for q
    unfolding sh share_run_history
    using shareable.history_distinct [of "share_new d" ?h]
      shareable.history_members [of q ?h "share_new d"] by (simp_all add: share_new_def)
  have b: "distinct share" "q \<in> set share \<longleftrightarrow> shareable.present ?h False q" for q
    unfolding st static_share_run_history
    using static_shareable.history_distinct [of "[]" ?h]
      static_shareable.history_members [of q ?h "[]"] pr by simp_all
  show ?thesis
    using a b f p
    by (auto simp: share_session_event_def static_share_session_event_def
        Session_Static_Callback_event_def share_leave_def static_leave_def Let_def)
qed

end
