(* ===== verification/Tcp_Server_Share.thy ===== *)
theory Tcp_Server_Share
  imports Tcp_Server_App Callbacks
begin

text \<open>
  Who is in the share of a listening socket.  \<open>exec_to_all\<close> takes a weak pointer from every
  raw pointer of the share, so that a session that is gone and has not left would be read
  after its end.  The invariant \<open>ts_share_ok\<close> says that this cannot happen: it is kept by
  the handlers of the sessions, by accepting and by every request
  (\<open>src/src/apps/tcp_server\<close>, \<open>my_async/listener/listener_base.hpp\<close>).
\<close>

section \<open>The invariant\<close>

text \<open>
  A session of the share is one of the listener's and waits for data, which keeps it; what
  the share holds for the callbacks is set; the container knows listeners that exist.
\<close>

definition share_member :: "'a ts_world \<Rightarrow> nat \<Rightarrow> nat \<Rightarrow> bool" where
  "share_member w l p \<longleftrightarrow>
     (\<exists>s. tv_sessions w p = Some s \<and> se_listener s = l \<and> ss_reads (se_sock s) = 1)"

definition session_ok :: "'a ts_world \<Rightarrow> nat \<Rightarrow> 'a ts_session \<Rightarrow> bool" where
  "session_ok w p s \<longleftrightarrow>
     p < tv_next w \<and> tcp_session_inv (se_sock s) \<and> tv_listeners w (se_listener s) \<noteq> None"

definition listener_ok :: "'a ts_world \<Rightarrow> nat \<Rightarrow> ts_listener \<Rightarrow> bool" where
  "listener_ok w l li \<longleftrightarrow> l < tv_next w \<and> dsh_send_status (sh_data (li_share li)) \<and>
     distinct (sh_set (li_share li)) \<and> (\<forall>p\<in>set (sh_set (li_share li)). share_member w l p)"

definition ts_share_ok :: "('a :: linorder) ts_world \<Rightarrow> bool" where
  "ts_share_ok w \<longleftrightarrow>
     (\<forall>p s. tv_sessions w p = Some s \<longrightarrow> session_ok w p s) \<and>
     (\<forall>l li. tv_listeners w l = Some li \<longrightarrow> listener_ok w l li) \<and>
     om_ok (tv_servers w) \<and> (\<forall>(ep, l)\<in>set (tv_servers w). tv_listeners w l \<noteq> None)"

named_theorems share_keeps \<open>operations that keep the invariant of the shares\<close>

lemma ts_share_ok_init: "ts_share_ok ts_world_init"
  by (simp add: ts_share_ok_def ts_world_init_def)

lemma tv_next_update [simp]:
  "tv_next (tv_session n f w) = tv_next w"
  by (simp add: tv_session_def)

section \<open>Posting on sessions\<close>

lemma ts_share_ok_session:
  assumes ok: "ts_share_ok w"
    and f: "\<And>s. se_listener (f s) = se_listener s" "\<And>s. ss_reads (se_sock (f s)) = ss_reads (se_sock s)"
      "\<And>s. tcp_session_inv (se_sock s) \<Longrightarrow> tcp_session_inv (se_sock (f s))"
  shows "ts_share_ok (tv_session n f w)"
proof -
  have m: "share_member (tv_session n f w) l p \<longleftrightarrow> share_member w l p" for l p
    using f(1,2) by (auto simp: share_member_def)
  have "session_ok (tv_session n f w) p s" if "tv_sessions (tv_session n f w) p = Some s" for p s
    using that ok f by (auto simp: ts_share_ok_def session_ok_def split: if_splits)
  then show ?thesis using ok m by (simp add: ts_share_ok_def listener_ok_def)
qed

lemma ts_share_ok_post:
  assumes "ts_share_ok w"
  shows "ts_share_ok (tv_session n (\<lambda>s. s\<lparr>se_sock := tcp_session_write d (se_sock s)\<rparr>) w)"
    and "ts_share_ok (ts_close_session n w)"
  unfolding ts_close_session_def
  by (rule ts_share_ok_session [OF assms];
      simp add: tcp_session_write_def tcp_session_close_def tcp_session_inv_def)+

lemma ts_share_ok_listener:
  assumes ok: "ts_share_ok w" and f: "\<And>li. li_share (f li) = li_share li"
  shows "ts_share_ok (tv_listener n f w)"
proof -
  have m: "share_member (tv_listener n f w) l p \<longleftrightarrow> share_member w l p" for l p
    by (simp add: share_member_def)
  show ?thesis
    using ok m f by (auto simp: ts_share_ok_def session_ok_def listener_ok_def split: if_splits)
qed

lemma ts_exec_keeps:
  assumes "ts_exec_to_all func l (x, w) = Some (x', w')" "ts_share_ok w"
    and f: "\<And>p s x w x' w'. \<lbrakk>func p s (x, w) = Some (x', w'); ts_share_ok w\<rbrakk> \<Longrightarrow> ts_share_ok w'"
  shows "ts_share_ok w'"
  using assms by (rule ts_exec_invariant)

section \<open>Requests\<close>

lemma ts_post_keeps:
  assumes "ts_post c f p s (x, w) = Some (x', w')" "ts_share_ok w" "ts_share_ok (tv_session p f w)"
  shows "ts_share_ok w'"
  using assms by (auto simp: ts_post_def bind_Some_iff split: if_splits)

lemma listener_write_keeps [share_keeps]:
  assumes "listener_write client data l w = Some w'" "ts_share_ok w"
  shows "ts_share_ok w'"
proof -
  let ?f = "\<lambda>s. s\<lparr>se_sock := tcp_session_write data (se_sock s)\<rparr>"
  have "ts_share_ok w2" if "ts_post (\<lambda>e. client = e) ?f p s (x, w1) = Some (x', w2)" "ts_share_ok w1"
    for p s w1 w2 and x x' :: unit
    by (rule ts_post_keeps [OF that]) (rule ts_share_ok_post(1) [OF that(2)])
  then show ?thesis
    using assms ts_exec_keeps [of "ts_post (\<lambda>e. client = e) ?f" l "()" w "()" w']
    by (auto simp: listener_write_def)
qed

lemma listener_close_clients_keeps [share_keeps]:
  assumes "listener_close_clients eps l w = Some w'" "ts_share_ok w"
  shows "ts_share_ok w'"
proof -
  let ?f = "\<lambda>s. s\<lparr>se_sock := tcp_session_close (se_sock s)\<rparr>"
  let ?h = "\<lambda>p s (u, w). if eps = [] then Some (u, w) else ts_post (\<lambda>e. e \<in> set eps) ?f p s (u, w)"
  have "ts_share_ok w2" if "?h p s (x, w1) = Some (x', w2)" "ts_share_ok w1"
    for p s w1 w2 and x x' :: unit
    using that ts_post_keeps [of _ ?f p s x w1 x' w2] ts_share_ok_post(2) [OF that(2), of p]
    by (auto simp: ts_close_session_def split: if_splits)
  then show ?thesis
    using assms ts_exec_keeps [of ?h l "()" w "()" w']
    by (auto simp: listener_close_clients_def)
qed

lemma listener_close_all_keeps [share_keeps]:
  assumes "listener_close_all b l w = Some w'" "ts_share_ok w"
  shows "ts_share_ok w'"
proof -
  let ?h = "\<lambda>p (s :: 'a ts_session) (u, w). Some (u, ts_close_session p w)"
  obtain w1 where w1: "(if b then ts_exec_to_all ?h l ((), w) else Some ((), w)) = Some ((), w1)"
    and w': "w' = tv_listener l listener_close w1"
    using assms(1) by (auto simp: listener_close_all_def bind_Some_iff)
  have "ts_share_ok w1"
  proof (cases b)
    case True
    have "ts_share_ok w3" if "?h p s (x, w2) = Some (x', w3)" "ts_share_ok w2"
      for p s w2 w3 and x x' :: unit
      using that ts_share_ok_post(2) [OF that(2), of p] by simp
    then show ?thesis using True w1 assms(2) ts_exec_keeps [of ?h l "()" w "()" w1] by auto
  next
    case False
    then show ?thesis using w1 assms(2) by simp
  qed
  then show ?thesis unfolding w' by (rule ts_share_ok_listener) (simp add: listener_close_def)
qed

lemma ts_write_loop_keeps [share_keeps]:
  "\<lbrakk>ts_write_loop to data l w = Some w'; ts_share_ok w\<rbrakk> \<Longrightarrow> ts_share_ok w'"
  by (induction to arbitrary: w) (auto simp: bind_Some_iff dest: share_keeps)

lemma ts_share_ok_erase: "ts_share_ok w \<Longrightarrow> ts_share_ok (w\<lparr>tv_servers := om_erase ep (tv_servers w)\<rparr>)"
  using set_om_erase [of ep "tv_servers w"]
  by (auto simp: ts_share_ok_def session_ok_def listener_ok_def share_member_def om_ok_erase)

lemma ts_container_keeps [share_keeps]:
  "\<lbrakk>ts_write from to data w = Some (ec, w'); ts_share_ok w\<rbrakk> \<Longrightarrow> ts_share_ok w'"
  "\<lbrakk>ts_close ep w = Some (ec, w'); ts_share_ok w\<rbrakk> \<Longrightarrow> ts_share_ok w'"
  "\<lbrakk>ts_close_clients ep cs w = Some (ec, w'); ts_share_ok w\<rbrakk> \<Longrightarrow> ts_share_ok w'"
  by (auto simp: ts_write_def ts_close_def ts_close_clients_def bind_Some_iff
      intro: ts_share_ok_erase dest: share_keeps split: option.splits)

text \<open>A new listener has an empty share, with the callback of the status message set.\<close>

lemma ts_open_keeps [share_keeps]:
  assumes "ts_open support ep (case make_listener r use_ssl of (ec, li) \<Rightarrow>
      (ec, set_share_data opts li)) w = (ec, w')" "ts_share_ok w"
  shows "ts_share_ok w'"
proof (cases "w' = w")
  case False
  obtain e li where li: "make_listener r use_ssl = (e, li)" by force
  have sh: "sh_set (li_share li) = []"
    using li by (auto simp: make_listener_def listener_init_def listener_new_def
        listener_do_accept_def share_new_def Let_def split: option.splits)
  have w': "w' = w\<lparr>tv_next := tv_next w + 1,
      tv_listeners := (tv_listeners w)(tv_next w \<mapsto> set_share_data opts li),
      tv_servers := om_set ep (tv_next w) (tv_servers w)\<rparr>"
    using False assms(1) li by (auto simp: ts_open_def split: if_splits)
  have new: "tv_listeners w (tv_next w) = None"
    using assms(2) by (cases "tv_listeners w (tv_next w)") (auto simp: ts_share_ok_def listener_ok_def)
  have m: "share_member w' l p \<longleftrightarrow> share_member w l p" for l p by (simp add: share_member_def w')
  have "session_ok w' p s" if "tv_sessions w' p = Some s" for p s
    using that assms(2) by (auto simp: w' ts_share_ok_def session_ok_def less_Suc_eq)
  moreover have "listener_ok w' l k" if "tv_listeners w' l = Some k" for l k
    using that assms(2) m sh
    by (auto simp: w' ts_share_ok_def listener_ok_def set_share_data_def less_Suc_eq split: if_splits)
  moreover have "om_ok (tv_servers w')" using assms(2) by (simp add: w' ts_share_ok_def om_ok_set)
  moreover have "tv_listeners w' l \<noteq> None" if "(k, l) \<in> set (tv_servers w')" for k l
    using that assms(2) set_om_set [of ep "tv_next w" "tv_servers w"]
    by (fastforce simp: w' ts_share_ok_def)
  ultimately show ?thesis unfolding ts_share_ok_def by blast
qed (use assms(2) in simp)

lemma tcp_server_message_status_keeps [share_keeps]:
  "\<lbrakk>tcp_server_message_status L (w, c) = Some (w', c'); ts_share_ok w\<rbrakk> \<Longrightarrow> ts_share_ok w'"
  by (drule tcp_server_message_status_world) simp

lemma tcp_server_message_close_keeps [share_keeps]:
  "\<lbrakk>tcp_server_message_close L ws doc (w, c) = Some (w', c'); ts_share_ok w\<rbrakk> \<Longrightarrow> ts_share_ok w'"
  by (auto simp: tcp_server_message_close_def bind_Some_iff split: option.splits if_splits
      dest: ts_container_keeps tcp_server_message_status_keeps)

lemma tcp_server_message_either_keeps:
  assumes "tcp_server_message_data L ws doc (w, c) = Some (w', c') \<or>
    tcp_server_message_close_clients L ws doc (w, c) = Some (w', c')" and ok: "ts_share_ok w"
  shows "ts_share_ok w'"
proof (cases "w' = w")
  case False
  then obtain src dst data ep cs ec
    where "ts_write src dst data w = Some (ec, w') \<or> ts_close_clients ep cs w = Some (ec, w')"
    using assms(1) by (auto simp: tcp_server_message_data_def tcp_server_message_close_clients_def
        bind_Some_iff split: option.splits) blast+
  then show ?thesis using ts_container_keeps ok by blast
qed (use ok in simp)

lemmas tcp_server_message_keeps [share_keeps] =
  tcp_server_message_either_keeps [OF disjI1] tcp_server_message_either_keeps [OF disjI2]

lemma tcp_server_message_open_keeps [share_keeps]:
  assumes "tcp_server_message_open L use_ssl supports r ws doc (w, c) = Some (w', c')" "ts_share_ok w"
  shows "ts_share_ok w'"
proof (cases "w' = w")
  case False
  obtain d addr where d: "tcp_server_parser_open L doc = Some (Some d)" "make_address L (tso_addr d) = Some addr"
    using assms(1) False by (auto simp: tcp_server_message_open_def bind_Some_iff split: option.splits)
  obtain ec w1 where w1: "ts_open (supports (tso_secure d)) (Endpoint addr (tso_port d))
      (case make_listener r (tso_secure d = ssl) of (ec, li) \<Rightarrow> (ec, set_share_data (tso_options d) li)) w
      = (ec, w1)" by force
  have "w' = w1"
    using assms(1) False d w1
    by (auto simp: tcp_server_message_open_def bind_Some_iff Let_def split: option.splits if_splits
        dest: tcp_server_message_status_world)
  then show ?thesis using ts_open_keeps [OF w1 assms(2)] by simp
qed (use assms(2) in simp)

lemma tpc_server_app_keeps:
  assumes "tpc_server_app L use_ssl supports r ws md doc (w, c) = Some (w', c')" "ts_share_ok w"
  shows "ts_share_ok w'"
proof (cases "md_type md = control_type")
  case True
  then obtain con where "md_control md = Some con"
    using assms(1) by (auto simp: tpc_server_app_def bind_Some_iff)
  then show ?thesis using True assms
    by (cases con) (auto simp: tpc_server_app_def bind_Some_iff dest: share_keeps)
next
  case False
  then show ?thesis using assms by (auto simp: tpc_server_app_def dest: share_keeps)
qed

section \<open>Events of a session\<close>

text \<open>What a list of calls of session \<open>n\<close> does to the world.\<close>

definition ts_effect :: "nat \<Rightarrow> callback list \<Rightarrow> 'a ts_world \<Rightarrow> 'a ts_world \<Rightarrow> bool" where
  "ts_effect n es w w' \<longleftrightarrow> tv_next w' = tv_next w \<and> tv_servers w' = tv_servers w \<and>
     (\<forall>q. q \<noteq> n \<longrightarrow> tv_sessions w' q = tv_sessions w q) \<and>
     (\<forall>s. tv_sessions w n = Some s \<longrightarrow>
       (\<exists>s'. tv_sessions w' n = Some s' \<and> se_sock s' = se_sock s \<and> se_listener s' = se_listener s) \<and>
       (\<forall>l. tv_listeners w' l = map_option (\<lambda>li. if l = se_listener s
          then li\<lparr>li_share := shareable.history (concat (map (\<lambda>e. membership (n, e)) es)) (li_share li)\<rparr>
          else li) (tv_listeners w l)))"

lemma ts_effect_Nil: "ts_effect n [] w w"
proof -
  have "map_option (\<lambda>li. if l = k then li\<lparr>li_share := li_share li\<rparr> else li) x = x"
    for l k :: nat and x :: "ts_listener option" by (cases x) simp_all
  then show ?thesis by (simp add: ts_effect_def cong: if_cong)
qed

lemma history_append: "shareable.history (es @ fs) s = shareable.history fs (shareable.history es s)"
  by (induction es s rule: shareable.history.induct) simp_all

lemma ts_effect_trans: "\<lbrakk>ts_effect n es w w1; ts_effect n fs w1 w2\<rbrakk> \<Longrightarrow> ts_effect n (es @ fs) w w2"
  by (auto simp: ts_effect_def option.map_comp o_def history_append intro!: map_option_cong)

lemma ts_on_open_effect:
  assumes "ts_on_open L n (w, c) = Some (w', c')"
  shows "ts_effect n [On_Open] w w'"
proof -
  obtain s d s1 where s: "tv_sessions w n = Some s" "ts_share_data n w = Some d"
    and s1: "(if keep_alive (dsh_options d)
       then ts_keep_alive (idle (dsh_options d)) (interval (dsh_options d)) (count (dsh_options d)) True s
       else Some s) = Some s1"
    and w': "w' = tv_session n (\<lambda>_. s1) (tv_listener (se_listener s)
        (\<lambda>li. li\<lparr>li_share := share_join n (li_share li)\<rparr>) w)"
    using assms by (auto simp: ts_on_open_def bind_Some_iff Let_def ts_send_status_def
        dest!: tcp_server_message_status_world)
  have "se_sock s1 = se_sock s \<and> se_listener s1 = se_listener s"
    using s1 by (auto simp: ts_keep_alive_def ts_keep_alive_enable_def bind_Some_iff split: if_splits)
  then show ?thesis using s
    by (auto simp: w' ts_effect_def tv_session_def tv_listener_def option.map_ident
        intro!: map_option_cong)
qed

lemma ts_on_close_effect:
  assumes "ts_on_close L n (w, c) = Some (w', c')"
  shows "ts_effect n [On_Close ec] w w'"
  using assms
  by (auto simp: ts_on_close_def bind_Some_iff Let_def ts_send_status_def ts_effect_def
      tv_listener_def option.map_ident dest!: tcp_server_message_status_world intro!: map_option_cong)

lemma ts_other_effect:
  "ts_read_handler L n b (w, c) = Some (w', c') \<Longrightarrow> ts_effect n [Read_Handler b] w w'"
  "ts_on_error L ec what (w, c) = Some (w', c') \<Longrightarrow> ts_effect n [On_Error ec what] w w'"
  using ts_effect_Nil [of n w]
  by (auto simp: ts_read_handler_def ts_on_error_def bind_Some_iff ts_effect_def cong: if_cong)

lemma ts_events_effect:
  "ts_events L n es (w, c) = Some (w', c') \<Longrightarrow> ts_effect n es w w'"
proof (induction es arbitrary: w c)
  case (Cons e es)
  obtain w1 c1 where "ts_effect n [e] w w1" "ts_events L n es (w1, c1) = Some (w', c')"
    using Cons.prems
    by (cases e) (auto simp: bind_Some_iff
        dest: ts_on_open_effect ts_on_close_effect ts_other_effect)
  then show ?case using ts_effect_trans [of n "[e]" w w1 es w'] Cons.IH by simp
qed (simp add: ts_effect_Nil)

section \<open>Handlers of a session\<close>

text \<open>
  What the calls of a handler leave of the membership fits what it leaves of the reads: a
  session that is in the share afterwards still waits for data.
\<close>

definition calls_fit :: "nat \<Rightarrow> tcp_session \<Rightarrow> tcp_session \<Rightarrow> bool" where
  "calls_fit n s s' \<longleftrightarrow> tcp_session_inv s' \<and> (\<exists>es. ss_log s' = ss_log s @ es \<and>
     (\<forall>b. (b \<longrightarrow> ss_reads s = 1) \<longrightarrow>
       shareable.present (concat (map (\<lambda>e. membership (n, e)) es)) b n \<longrightarrow> ss_reads s' = 1))"

lemma calls_fit_none:
  "\<lbrakk>tcp_session_inv s'; ss_log s' = ss_log s; ss_reads s' = ss_reads s\<rbrakk> \<Longrightarrow> calls_fit n s s'"
  unfolding calls_fit_def by (auto intro!: exI [of _ "[]"])

lemma calls_fit_one:
  assumes "tcp_session_inv s'" "ss_log s' = ss_log s @ [e]" "\<And>ec. e \<noteq> On_Close ec"
    "e = On_Open \<or> ss_reads s = 1 \<Longrightarrow> ss_reads s' = 1"
  shows "calls_fit n s s'"
  using assms unfolding calls_fit_def by (cases e) (auto intro!: exI [of _ "[e]"])

lemma tcp_session_fail_log:
  "\<exists>es. ss_log (tcp_session_fail ec what s) = ss_log s @ es @ [On_Close ec] \<and>
    es \<in> {[], [On_Error ec what]}"
  by (auto simp: tcp_session_fail_def tcp_session_call_def tcp_session_close_def)

lemma calls_fit_fail:
  assumes "tcp_session_inv (tcp_session_fail ec what s1)" "ss_log s1 = ss_log s"
  shows "calls_fit n s (tcp_session_fail ec what s1)"
proof -
  obtain es where "ss_log (tcp_session_fail ec what s1) = ss_log s @ es @ [On_Close ec]"
    and "es = [] \<or> es = [On_Error ec what]"
    using tcp_session_fail_log [of ec what s1] assms(2) by auto
  then show ?thesis
    using assms(1) unfolding calls_fit_def by (intro conjI exI [of _ "es @ [On_Close ec]"]) auto
qed

lemma tcp_session_step_fits:
  assumes st: "tcp_session_step s s'" and inv: "tcp_session_inv s"
  shows "calls_fit n s s'"
proof -
  note i = tcp_session_inv_step [OF st inv]
  from st show ?thesis
  proof cases
    case (handshake r)
    then have "ss_reads s = 0" using inv by (auto simp: tcp_session_inv_def)
    then show ?thesis using handshake i
      by (cases r) (auto simp: tcp_session_on_handshake_def tcp_session_do_accept_def
          tcp_session_call_def tcp_session_do_read_def Let_def
          intro!: calls_fit_fail calls_fit_one [of _ _ On_Open])
  next
    case (read r b)
    then have "ss_reads s = 1" using inv by (auto simp: tcp_session_inv_def)
    then show ?thesis using read i
      by (cases r) (auto simp: tcp_session_on_read_def
          tcp_session_call_def tcp_session_do_read_def Let_def
          intro!: calls_fit_fail calls_fit_one [of _ _ "Read_Handler b"])
  next
    case (written r)
    then show ?thesis using i
      by (cases r) (auto simp: tcp_session_on_write_def tcp_session_do_write_def Let_def
          intro!: calls_fit_fail calls_fit_none)
  qed (use i in \<open>auto simp: tcp_session_write_def tcp_session_close_def tcp_session_writing_def
      tcp_session_do_write_def tcp_session_closing_def Let_def intro!: calls_fit_none\<close>)
qed

lemma tcp_session_run_fits: "calls_fit n (tcp_session_new b) (tcp_session_on_run (tcp_session_new b))"
proof -
  have "tcp_session_inv (tcp_session_on_run (tcp_session_new b))"
    by (simp add: tcp_session_inv_def tcp_session_defs)
  then show ?thesis
    by (cases b) (auto simp: calls_fit_def tcp_session_defs)
qed

lemma share_data_kept [simp]:
  "sh_data (share_join k s) = sh_data s" "sh_data (share_leave k s) = sh_data s"
  by (simp_all add: share_join_def share_leave_def)

lemma history_data: "sh_data (shareable.history es s) = sh_data s"
  by (induction es s rule: shareable.history.induct) simp_all

lemma present_other:
  "k \<noteq> n \<Longrightarrow> shareable.present (concat (map (\<lambda>e. membership (n, e)) es)) b k = b"
proof (induction es arbitrary: b)
  case (Cons e es)
  then show ?case by (cases e) simp_all
qed simp

lemma ts_run_keeps:
  assumes run: "ts_run L n f (w, c) = Some (w', c')" and ok: "ts_share_ok w"
    and s: "tv_sessions w n = Some s" and fit: "calls_fit n (se_sock s) (f (se_sock s))"
  shows "ts_share_ok w'"
proof -
  let ?k = "f (se_sock s)"
  let ?w1 = "tv_session n (\<lambda>s. s\<lparr>se_sock := ?k\<rparr>) w"
  obtain es where es: "ss_log ?k = ss_log (se_sock s) @ es"
    and rd: "\<And>b. \<lbrakk>b \<longrightarrow> ss_reads (se_sock s) = 1;
      shareable.present (concat (map (\<lambda>e. membership (n, e)) es)) b n\<rbrakk> \<Longrightarrow> ss_reads ?k = 1"
    using fit unfolding calls_fit_def by blast
  have "ts_effect n es ?w1 w'"
    using run s es by (auto simp: ts_run_def Let_def intro: ts_events_effect)
  then have e: "tv_next w' = tv_next w" "tv_servers w' = tv_servers w"
    "\<And>q. q \<noteq> n \<Longrightarrow> tv_sessions w' q = tv_sessions w q"
    "\<exists>s'. tv_sessions w' n = Some s' \<and> se_sock s' = ?k \<and> se_listener s' = se_listener s"
    "\<And>l. tv_listeners w' l = map_option (\<lambda>li. if l = se_listener s
      then li\<lparr>li_share := shareable.history (concat (map (\<lambda>e. membership (n, e)) es)) (li_share li)\<rparr>
      else li) (tv_listeners w l)"
    using s by (auto simp: ts_effect_def cong: if_cong)
  have ls: "tv_listeners w' l \<noteq> None \<longleftrightarrow> tv_listeners w l \<noteq> None" for l by (simp add: e(5) del: not_None_eq)
  have "session_ok w' q t" if "tv_sessions w' q = Some t" for q t
  proof (cases "q = n")
    case True
    then show ?thesis using that e(1,4) s ok fit ls
      by (auto simp: session_ok_def ts_share_ok_def calls_fit_def)
  next
    case False
    then show ?thesis using that e(1,3) ok ls by (auto simp: session_ok_def ts_share_ok_def)
  qed
  moreover have "listener_ok w' l li" if t: "tv_listeners w' l = Some li" for l li
  proof -
    let ?h = "concat (map (\<lambda>e. membership (n, e)) es)"
    obtain li0 where li0: "tv_listeners w l = Some li0" and li: "li = (if l = se_listener s
        then li0\<lparr>li_share := shareable.history ?h (li_share li0)\<rparr> else li0)"
      using e(5) [of l] t by (cases "tv_listeners w l") auto
    have ok0: "listener_ok w l li0" using ok li0 by (simp add: ts_share_ok_def)
    have old: "p \<in> set (sh_set (li_share li0)) \<Longrightarrow> share_member w l p" for p
      using ok0 by (simp add: listener_ok_def)
    have "share_member w' l p" if p: "p \<in> set (sh_set (li_share li))" for p
    proof (cases "p = n")
      case True
      have l: "l = se_listener s"
        using p old [of n] s True by (auto simp: li share_member_def split: if_splits)
      then have "shareable.present ?h (n \<in> set (sh_set (li_share li0))) n"
        using p True by (simp add: li shareable.history_members)
      then have "ss_reads ?k = 1"
        using old [of n] s by (intro rd [of "n \<in> set (sh_set (li_share li0))"])
          (auto simp: share_member_def)
      then show ?thesis using e(4) True l by (auto simp: share_member_def)
    next
      case False
      then have "p \<in> set (sh_set (li_share li0))"
        using p by (auto simp: li shareable.history_members present_other split: if_splits)
      then show ?thesis using old e(3) [OF False] by (simp add: share_member_def)
    qed
    then show ?thesis
      using ok0 shareable.history_distinct [of "li_share li0" ?h] e(1)
      by (auto simp: listener_ok_def li history_data)
  qed
  moreover have "om_ok (tv_servers w')" using ok e(2) by (simp add: ts_share_ok_def)
  moreover have "tv_listeners w' l \<noteq> None" if "(ep, l) \<in> set (tv_servers w')" for ep l
    using that ok ls e(2) by (auto simp: ts_share_ok_def)
  ultimately show ?thesis unfolding ts_share_ok_def by blast
qed

text \<open>A session that is accepted is no member yet; running it makes it one.\<close>

lemma listener_on_accept_keeps:
  assumes run: "listener_on_accept L l r (w, c) = Some (w', c')" and ok: "ts_share_ok w"
  shows "ts_share_ok w'"
proof -
  let ?w1 = "tv_listener l (\<lambda>li. li\<lparr>li_accepts := li_accepts li - 1\<rparr>) w"
  obtain li where li: "tv_listeners w l = Some li"
    using run by (auto simp: listener_on_accept_def bind_Some_iff)
  have ok1: "ts_share_ok ?w1" by (rule ts_share_ok_listener [OF ok]) simp
  show ?thesis
  proof (cases r)
    case (Inl ec)
    then show ?thesis using run li ok1 by (simp add: listener_on_accept_def Let_def)
  next
    case (Inr ep)
    obtain remote here where ep: "ep = (remote, here)" by force
    let ?s = "\<lparr>se_sock = tcp_session_new (li_ssl li), se_remote = remote, se_local = here,
      se_listener = l, se_keepalive = \<lparr>sk_enabled = False, sk_idle = 0, sk_cnt = 0, sk_intvl = 0\<rparr>\<rparr>"
    let ?w2 = "?w1\<lparr>tv_next := tv_next ?w1 + 1, tv_sessions := (tv_sessions ?w1)(tv_next ?w1 \<mapsto> ?s)\<rparr>"
    obtain w3 c3 where w3: "ts_run L (tv_next ?w1) tcp_session_on_run (?w2, c) = Some (w3, c3)"
      and w': "w' = tv_listener l listener_do_accept w3"
      using run li Inr ep by (auto simp: listener_on_accept_def bind_Some_iff Let_def)
    have fresh: "tv_sessions ?w1 (tv_next ?w1) = None"
      using ok1 by (cases "tv_sessions ?w1 (tv_next ?w1)") (auto simp: ts_share_ok_def session_ok_def)
    have m: "share_member ?w1 k p \<Longrightarrow> share_member ?w2 k p" for k p
      using fresh by (auto simp: share_member_def)
    have "ts_share_ok ?w2"
      using ok1 li m
      by (auto simp: ts_share_ok_def session_ok_def listener_ok_def tcp_session_new_def
          tcp_session_inv_def less_Suc_eq split: if_splits)
    then have "ts_share_ok w3"
      by (rule ts_run_keeps [OF w3, where s = ?s]) (simp_all add: tcp_session_run_fits)
    then show ?thesis unfolding w'
      by (rule ts_share_ok_listener) (simp add: listener_do_accept_def)
  qed
qed

section \<open>Steps of the application\<close>

text \<open>
  Requests, handlers of sessions and accepts, in any order; between them the rest of the
  program changes the core as it likes.
\<close>

inductive tcp_server_step ::
  "('j, 'a :: linorder, 'z) net_lib_scheme \<Rightarrow> 'a ts_world \<times> 'f core \<Rightarrow> 'a ts_world \<times> 'f core \<Rightarrow> bool"
  for L :: "('j, 'a :: linorder, 'z) net_lib_scheme" where
  t_request: "tpc_server_app L use_ssl supports r ws md doc (w, c) = Some (w', c') \<Longrightarrow>
    tcp_server_step L (w, c) (w', c')"
| t_session: "\<lbrakk>tv_sessions w n = Some s; tcp_session_step (se_sock s) (f (se_sock s));
    ts_run L n f (w, c) = Some (w', c')\<rbrakk> \<Longrightarrow> tcp_server_step L (w, c) (w', c')"
| t_accept: "\<lbrakk>tv_listeners w l = Some li; li_accepts li > 0;
    listener_on_accept L l r (w, c) = Some (w', c')\<rbrakk> \<Longrightarrow> tcp_server_step L (w, c) (w', c')"
| t_core: "tcp_server_step L (w, c) (w, c')"

inductive tcp_server_reach ::
  "('j, 'a :: linorder, 'z) net_lib_scheme \<Rightarrow> 'a ts_world \<times> 'f core \<Rightarrow> bool"
  for L :: "('j, 'a :: linorder, 'z) net_lib_scheme" where
  t_init: "tcp_server_reach L (ts_world_init, c)"
| t_step: "\<lbrakk>tcp_server_reach L x; tcp_server_step L x y\<rbrakk> \<Longrightarrow> tcp_server_reach L y"

lemma tcp_server_step_keeps:
  assumes "tcp_server_step L x y" "ts_share_ok (fst x)"
  shows "ts_share_ok (fst y)"
  using assms(1)
proof cases
  case (t_request use_ssl supports r ws md doc w c w' c')
  then show ?thesis using tpc_server_app_keeps [OF t_request(3)] assms(2) by simp
next
  case (t_session w n s f c w' c')
  have ok: "ts_share_ok w" using t_session assms(2) by simp
  then have "tcp_session_inv (se_sock s)"
    using t_session by (auto simp: ts_share_ok_def session_ok_def)
  then show ?thesis
    using ts_run_keeps [OF t_session(5) ok t_session(3) tcp_session_step_fits [OF t_session(4)]]
      t_session(2) by simp
next
  case (t_accept w l li r c w' c')
  then show ?thesis using listener_on_accept_keeps [OF t_accept(5)] assms(2) by simp
next
  case (t_core w c c')
  then show ?thesis using assms(2) by simp
qed

lemma tcp_server_reach_ok: "tcp_server_reach L x \<Longrightarrow> ts_share_ok (fst x)"
proof (induction rule: tcp_server_reach.induct)
  case (t_init c)
  show ?case by (simp add: ts_share_ok_init)
next
  case (t_step x y)
  then show ?case using tcp_server_step_keeps by blast
qed

lemma share_member_alive:
  "share_member w l p \<Longrightarrow> \<exists>s. tv_sessions w p = Some s \<and> se_listener s = l \<and> ts_alive s"
  by (auto simp: share_member_def ts_alive_def)

lemma share_exec_close:
  assumes "distinct v" "\<And>p. p \<in> set v \<Longrightarrow> \<exists>s. tv_sessions w p = Some s \<and> ts_alive s"
  shows "\<exists>w'. share_exec True ts_lock (ts_visit (\<lambda>p s (u, w). Some (u, ts_close_session p w))) v
      (Some (x, w)) = Some (x, w') \<and>
    (\<forall>q. tv_sessions w' q = map_option (\<lambda>s. if q \<in> set v
       then s\<lparr>se_sock := tcp_session_close (se_sock s)\<rparr> else s) (tv_sessions w q))"
  using assms
proof (induction v arbitrary: w)
  case Nil
  then show ?case by (auto simp: option.map_ident)
next
  case (Cons p v)
  let ?w = "ts_close_session p w"
  obtain s where s: "tv_sessions w p = Some s" "ts_alive s" using Cons.prems(2) by auto
  have "\<exists>s. tv_sessions ?w q = Some s \<and> ts_alive s" if "q \<in> set v" for q
    using Cons.prems that by (auto simp: ts_close_session_def)
  then obtain w' where w': "share_exec True ts_lock (ts_visit (\<lambda>p s (u, w). Some (u, ts_close_session p w)))
      v (Some (x, ?w)) = Some (x, w')"
    "\<And>q. tv_sessions w' q = map_option (\<lambda>s. if q \<in> set v
       then s\<lparr>se_sock := tcp_session_close (se_sock s)\<rparr> else s) (tv_sessions ?w q)"
    using Cons.IH [of ?w] Cons.prems(1) by auto
  have "share_exec True ts_lock (ts_visit (\<lambda>p s (u, w). Some (u, ts_close_session p w))) (p # v)
      (Some (x, w)) = Some (x, w')"
    using s w'(1) by (simp add: ts_lock_def ts_visit_def)
  moreover have "tv_sessions w' q = map_option (\<lambda>t. if q \<in> set (p # v)
       then t\<lparr>se_sock := tcp_session_close (se_sock t)\<rparr> else t) (tv_sessions w q)" for q
    using w'(2) [of q] Cons.prems(1)
    by (cases "tv_sessions w q") (auto simp: ts_close_session_def)
  ultimately show ?case by blast
qed

section \<open>Properties\<close>

text \<open>
  C36: No pointer in the share of a listening socket outlives its session.  Whatever
  requests, accepts and completions of operations have happened, in whatever order and with
  whatever results, the share of a listener holds each of its members once, and every
  member is a session of that listener that an operation keeps alive, so that the weak
  pointer \<open>exec_to_all\<close> takes from it is valid.  Closing the listener with its clients
  therefore returns and posts one close on every member and none on any other session.
\<close>

theorem tcp_server_shares:
  assumes "tcp_server_reach L (w, c)" "tv_listeners w l = Some li"
  shows "distinct (sh_set (li_share li)) \<and>
    (\<forall>p\<in>set (sh_set (li_share li)). \<exists>s. tv_sessions w p = Some s \<and> se_listener s = l \<and> ts_alive s) \<and>
    (\<exists>w'. listener_close_all True l w = Some w' \<and>
      (\<forall>q. tv_sessions w' q = map_option (\<lambda>s. if q \<in> set (sh_set (li_share li))
         then s\<lparr>se_sock := tcp_session_close (se_sock s)\<rparr> else s) (tv_sessions w q)))"
proof -
  have ok: "listener_ok w l li" using tcp_server_reach_ok [OF assms(1)] assms(2)
    by (simp add: ts_share_ok_def)
  let ?v = "sh_set (li_share li)"
  have a: "\<exists>s. tv_sessions w p = Some s \<and> se_listener s = l \<and> ts_alive s" if "p \<in> set ?v" for p
    using ok that by (intro share_member_alive) (simp add: listener_ok_def)
  obtain w1 where w1: "share_exec True ts_lock (ts_visit (\<lambda>p s (u, w). Some (u, ts_close_session p w)))
      ?v (Some ((), w)) = Some ((), w1)"
    "\<And>q. tv_sessions w1 q = map_option (\<lambda>s. if q \<in> set ?v
       then s\<lparr>se_sock := tcp_session_close (se_sock s)\<rparr> else s) (tv_sessions w q)"
    using share_exec_close [of ?v w "()"] a ok unfolding listener_ok_def by blast
  have "listener_close_all True l w = Some (tv_listener l listener_close w1)"
    using assms(2) w1(1)
    by (simp add: listener_close_all_def ts_exec_to_all_def share_exec_to_all_def)
  then show ?thesis using a w1(2) ok by (auto simp: listener_ok_def)
qed

definition good_open :: jval where
  "good_open = JObj [(''data'', JObj [(''port'', JNum 3000), (''secure'', JStr ''plain''),
     (''addr'', JStr ''10.0.0.7'')])]"

lemma good_open_parsed: "tcp_server_parser_open jv_net good_open = Some (Some \<lparr>tso_secure = plain,
    tso_port = 3000, tso_addr = ''10.0.0.7'', tso_options = no_keepalive\<rparr>)"
  by (simp add: tcp_server_parser_open_def tcp_server_check_open_def good_open_def has_with_object
      member_of_def opt_and_def DATA_KEY_def tcp_server_get_open_def member_uint_def
      get_uint_def is_valid_port_def member_c_str_eq c_str_def tcp_server_keepalive_def
      tcp_server_check_keepalive_def)

definition li_open_demo :: "nat list \<Rightarrow> ts_listener" where
  "li_open_demo v = \<lparr>li_ssl = False, li_open = True, li_posted = 0, li_accepts = 1,
     li_share = \<lparr>sh_data = \<lparr>dsh_options = no_keepalive, dsh_send_status = True\<rparr>, sh_set = v\<rparr>\<rparr>"

definition tv_open_demo :: "nat ts_world" where
  "tv_open_demo = \<lparr>tv_next = 1, tv_sessions = (\<lambda>_. None), tv_listeners = [0 \<mapsto> li_open_demo []],
     tv_servers = [(Endpoint 7 3000, 0)]\<rparr>"

definition tv_accepted_demo :: "nat ts_world" where
  "tv_accepted_demo = \<lparr>tv_next = 2, tv_sessions = [1 \<mapsto> se_demo 4000],
     tv_listeners = [0 \<mapsto> li_open_demo [1]], tv_servers = [(Endpoint 7 3000, 0)]\<rparr>"

lemma tv_open_demo_reach: "tcp_server_reach jv_net (tv_open_demo, tv_core)"
proof -
  let ?md = "\<lparr>md_app = tcp_server, md_time = 0, md_type = control_type, md_control = Some open_c\<rparr>"
  have li: "(case make_listener (\<lambda>_. None) False of (ec, li) \<Rightarrow> (ec, set_share_data no_keepalive li)) =
      (None, li_open_demo [])"
    by (simp add: make_listener_def listener_init_def listener_new_def listener_do_accept_def
        set_share_data_def share_new_def li_open_demo_def Let_def)
  have o: "ts_open True (Endpoint 7 3000) (None, li_open_demo []) ts_world_init = (None, tv_open_demo)"
    by (simp add: ts_open_def ts_is_open_def ts_world_init_def tv_open_demo_def)
  have "\<exists>c'. tcp_server_message_status jv_net (tv_open_demo, tv_core) = Some (tv_open_demo, c')"
  proof (rule tcp_server_message_status_total)
    show "ts_endpoints tv_open_demo = Some [(False, Endpoint 7 3000)]"
      by (simp add: ts_endpoints_def tv_open_demo_def li_open_demo_def)
    show "factory_app tv_core tcp_server = Some ''tcp_server''"
      by (simp add: tv_core_def factory_app_def Dispatcher_app_def)
    show "\<exists>ec v. ts_clients ep tv_open_demo = Some (ec, v)" for ep
      by (simp add: ts_clients_def tv_open_demo_def li_open_demo_def listener_clients_def
          ts_exec_to_all_def share_exec_to_all_def)
  qed
  then obtain c' where "tpc_server_app jv_net False (\<lambda>_. True) (\<lambda>_. None) 0 ?md good_open
      (ts_world_init, tv_core) = Some (tv_open_demo, c')"
    using li o good_open_parsed
    by (auto simp: tpc_server_app_def tcp_server_message_open_def make_address_def c_str_def
        ts_is_open_def ts_world_init_def Let_def)
  then have "tcp_server_reach jv_net (tv_open_demo, c')"
    by (intro tcp_server_reach.t_step [OF tcp_server_reach.t_init tcp_server_step.t_request])
  then show ?thesis by (rule tcp_server_reach.t_step) (rule tcp_server_step.t_core)
qed

lemma tv_accepted_demo_reach: "tcp_server_reach jv_net (tv_accepted_demo, tv_core)"
proof -
  let ?eps = "Inr (Some (Endpoint 9 4000), Some (Endpoint 1 2000)) ::
    error_code + (nat endpoint option \<times> nat endpoint option)"
  let ?w = "tv_accepted_demo\<lparr>tv_listeners := [0 \<mapsto> (li_open_demo [1])\<lparr>li_accepts := 0\<rparr>]\<rparr>"
  have "\<exists>c'. tcp_server_message_status jv_net (?w, tv_core) = Some (?w, c')"
  proof (rule tcp_server_message_status_total)
    show "ts_endpoints ?w = Some [(False, Endpoint 7 3000)]"
      by (simp add: ts_endpoints_def tv_accepted_demo_def li_open_demo_def)
    show "factory_app tv_core tcp_server = Some ''tcp_server''"
      by (simp add: tv_core_def factory_app_def Dispatcher_app_def)
    show "\<exists>ec v. ts_clients ep ?w = Some (ec, v)" for ep
      by (simp add: ts_clients_def tv_accepted_demo_def li_open_demo_def listener_clients_def
          ts_exec_to_all_def share_exec_to_all_def ts_lock_def ts_visit_def ts_alive_def
          ts_endpoint_def se_demo_def tcp_session_defs)
  qed
  then obtain c' where st: "tcp_server_message_status jv_net (?w, tv_core) = Some (?w, c')" by blast
  have "listener_on_accept jv_net 0 ?eps (tv_open_demo, tv_core) = Some (tv_accepted_demo, c')"
    using st
    by (simp add: listener_on_accept_def ts_run_def ts_on_open_def Let_def ts_share_data_def
        ts_send_status_def tv_listener_def tv_session_def tcp_session_defs tv_open_demo_def
        tv_accepted_demo_def li_open_demo_def share_join_def List.insert_def se_demo_def
        listener_do_accept_def no_keepalive_def numeral_2_eq_2)
  moreover have "tv_listeners tv_open_demo 0 = Some (li_open_demo [])" "li_accepts (li_open_demo []) > 0"
    by (simp_all add: tv_open_demo_def li_open_demo_def)
  ultimately have "tcp_server_step jv_net (tv_open_demo, tv_core) (tv_accepted_demo, c')"
    by (intro tcp_server_step.t_accept)
  then have "tcp_server_reach jv_net (tv_accepted_demo, c')"
    by (rule tcp_server_reach.t_step [OF tv_open_demo_reach])
  then show ?thesis by (rule tcp_server_reach.t_step) (rule tcp_server_step.t_core)
qed

theorem tcp_server_shares_witness:
  "(\<exists>s. tv_sessions tv_accepted_demo 1 = Some s \<and> ts_alive s) \<and>
   (\<exists>w'. listener_close_all True 0 tv_accepted_demo = Some w' \<and>
     map_option (\<lambda>s. ss_posted (se_sock s)) (tv_sessions w' 1) = Some [Closing])"
proof -
  have l: "tv_listeners tv_accepted_demo 0 = Some (li_open_demo [1])"
    by (simp add: tv_accepted_demo_def)
  have v: "sh_set (li_share (li_open_demo [1])) = [1]" by (simp add: li_open_demo_def)
  from tcp_server_shares [OF tv_accepted_demo_reach l] v show ?thesis
    by (auto simp: tv_accepted_demo_def se_demo_def tcp_session_defs)
qed

end
