(* ===== verification/Server_Apps.thy ===== *)
theory Server_Apps
  imports Server App_Invariants Tcp_Server_Share
begin

text \<open>
  The invariants of the applications in the running program: what each application keeps of
  its own state (\<open>App_Invariants\<close>, \<open>Tcp_Server_Share\<close>) holds in every state that
  \<open>server_step\<close> reaches, whatever requests arrive and in whatever order sockets, devices
  and timers complete.
\<close>

section \<open>A message reaches one handler at most\<close>

lemma core_message_state:
  assumes m: "core_on_message L call ws body (st, c) = Some (st', c')"
    and call: "\<And>f ws m d c c'. call f ws m d (st, c) = Some (st', c') \<Longrightarrow> P st'" and P: "P st"
  shows "P st'"
proof (cases "\<exists>d. jd_parse L (c_str (to_string body)) = Some d \<and> jd_is_object L d")
  case False
  then have "st' = st"
    using m by (auto simp: core_on_message_def split: option.splits if_splits elim!: bind_SomeE)
  then show ?thesis using P by simp
next
  case True
  then obtain d where d: "jd_parse L (c_str (to_string body)) = Some d" "jd_is_object L d" by blast
  obtain s d' c1 md where a: "add_mid L True d c = Some (s, d', c1)"
    and p: "parser_main L (c_apps c1) d' = Some md"
    using m d by (auto simp: core_on_message_def Let_def elim!: bind_SomeE)
  show ?thesis
  proof (cases md)
    case None
    then show ?thesis
      using m d a p P by (auto simp: core_on_message_def Let_def elim!: bind_SomeE)
  next
    case (Some mm)
    then obtain found c3 where
      x: "Dispatcher_exec (\<lambda>f. call f ws mm d') (c_apps c1) (md_app mm)
        (st, emit (Write_All (Byte_Array_of s) True) c1) = Some (found, st', c3)"
      using m d a p by (auto simp: core_on_message_def Let_def split: if_splits elim!: bind_SomeE)
    then show ?thesis using P call
      by (auto simp: Dispatcher_exec_def App_exec_def split: option.splits elim!: bind_SomeE)
  qed
qed

lemma ws_run_events_state:
  assumes call: "\<And>f ws m d st c st' c'. \<lbrakk>call f ws m d (st, c) = Some (st', c'); P st\<rbrakk> \<Longrightarrow> P st'"
  shows "\<lbrakk>ws_run_events L call (init_websocket_cb cbs) n es (w, st, c) = Some (w', st', c'); P st\<rbrakk> \<Longrightarrow> P st'"
proof (induction es arbitrary: w st c)
  case (Cons e es)
  obtain w1 st1 c1 where x: "ws_run_callback L call (init_websocket_cb cbs) n e (w, st, c) = Some (w1, st1, c1)"
    and rest: "ws_run_events L call (init_websocket_cb cbs) n es (w1, st1, c1) = Some (w', st', c')"
    using Cons.prems by (auto elim!: bind_SomeE)
  have "P st1"
  proof (cases e)
    case (Read_Handler d)
    then obtain st2 c2 where m: "core_on_message L call n d (st, c) = Some (st2, c2)" and "st1 = st2"
      using x by (auto simp: ws_run_callback_def ws_flush_def Let_def elim!: bind_SomeE)
    have "P st2" by (rule core_message_state [OF m]) (use call Cons.prems(2) in blast)+
    then show ?thesis using \<open>st1 = st2\<close> by simp
  qed (use x Cons.prems(2) in
    \<open>auto simp: ws_run_callback_def ws_flush_def core_fail_def Let_def elim!: bind_SomeE\<close>)
  then show ?case using Cons.IH [OF rest] by blast
qed simp

section \<open>The invariant\<close>

definition apps_inv :: "('a :: linorder) apps_state \<Rightarrow> bool" where
  "apps_inv st \<longleftrightarrow> mon_inv (as_monitor st) \<and> serials_inv (as_serials st) \<and>
     ts_share_ok (as_tcp_servers st) \<and> tc_world_inv (as_tcp_clients st) \<and>
     keyed udp_client_inv (as_udp_clients st) \<and> keyed udp_server_inv (as_udp_servers st)"

lemma apps_inv_init: "apps_inv apps_init"
  by (simp add: apps_inv_def apps_init_def serials_inv_def ts_share_ok_init tc_world_inv_def
      tc_world_init_def)

lemma call_app_inv:
  assumes "call_app L b os f ws md doc (st, c) = Some (st', c')" "apps_inv st"
  shows "apps_inv st'"
proof (cases f)
  case Echo_Fun
  then show ?thesis using assms by (auto elim!: bind_SomeE)
next
  case Serial_Fun
  then show ?thesis using assms
    by (auto simp: apps_inv_def lift_app_def elim!: bind_SomeE dest: serial_app_keeps)
next
  case Monitor_Fun
  then show ?thesis using assms
    by (auto simp: apps_inv_def lift_app_def elim!: bind_SomeE dest: monitor_app_inv)
next
  case Tcp_Server_Fun
  then show ?thesis using assms
    by (auto simp: apps_inv_def lift_app_def elim!: bind_SomeE dest: tpc_server_app_keeps)
next
  case Tcp_Client_Fun
  then show ?thesis using assms
    by (auto simp: apps_inv_def lift_app_def elim!: bind_SomeE dest: tpc_client_app_keeps)
next
  case Udp_Client_Fun
  then show ?thesis using assms
    by (auto simp: apps_inv_def lift_app_def elim!: bind_SomeE dest: udp_client_app_keeps)
next
  case Udp_Server_Fun
  then show ?thesis using assms
    by (auto simp: apps_inv_def lift_app_def elim!: bind_SomeE dest: udp_server_app_keeps)
qed

lemma app_event_inv:
  assumes "app_event L (st, c) (st', c')" "apps_inv st"
  shows "apps_inv st'"
  using assms(1)
proof (cases rule: app_event.cases)
  case (a_expire i)
  then show ?thesis using assms(2) by (auto simp: apps_inv_def mon_inv_def)
next
  case (a_monitor ws ab ws' end_info doc shares info uptime e)
  let ?e = "(as_monitor st)\<lparr>ex_waits := ws @ ws'\<rparr>"
  have "ex_waits ?e = []" "ex_is_running ?e"
    using a_monitor assms(2) by (auto simp: apps_inv_def mon_inv_def)
  then have "mon_inv e"
    using a_monitor exec_do_wait_inv [of L ab end_info doc shares info uptime ?e c e c'] by simp
  then show ?thesis using a_monitor assms(2) by (simp add: apps_inv_def)
next
  case (a_serial_read nm p os r d m)
  then have "serials_inv m"
    using assms(2) serial_run_keeps [of L os nm "serial_on_read r d" "as_serials st" c m c' p]
      serial_handlers_inv(3) [of nm p r d] by (simp add: apps_inv_def)
  then show ?thesis using a_serial_read assms(2) by (simp add: apps_inv_def)
next
  case (a_serial_write nm p os r k m)
  then have "serials_inv m"
    using assms(2) serial_run_keeps [of L os nm "serial_on_write r k" "as_serials st" c m c' p]
      serial_handlers_inv(4) [of nm p r k] by (simp add: apps_inv_def)
  then show ?thesis using a_serial_write assms(2) by (simp add: apps_inv_def)
next
  case (a_serial_posted nm p d ts os m)
  then have "serials_inv m"
    using assms(2) serial_run_keeps [of L os nm "\<lambda>s. serial_on_writing d (s\<lparr>sr_posted := ts\<rparr>)"
        "as_serials st" c m c' p] serial_handlers_inv(2) [of nm p d ts] by (simp add: apps_inv_def)
  then show ?thesis using a_serial_posted assms(2) by (simp add: apps_inv_def)
next
  case (a_tcp_client n k f none stale w)
  then show ?thesis using assms(2)
      tcp_client_run_keeps [of L none stale n f "as_tcp_clients st" c w c' k]
    by (simp add: apps_inv_def)
next
  case (a_tcp_session n t f w)
  have "tcp_session_inv (se_sock t)"
    using a_tcp_session assms(2) by (auto simp: apps_inv_def ts_share_ok_def session_ok_def)
  then have "ts_share_ok w"
    using a_tcp_session assms(2) tcp_session_step_fits
      ts_run_keeps [of L n f "as_tcp_servers st" c w c' t] by (auto simp: apps_inv_def)
  then show ?thesis using a_tcp_session assms(2) by (simp add: apps_inv_def)
next
  case (a_tcp_accept l li ar w)
  then show ?thesis using assms(2) listener_on_accept_keeps [of L l ar "as_tcp_servers st" c w c']
    by (simp add: apps_inv_def)
qed (use assms(2) in \<open>auto simp: apps_inv_def intro!: keyed_set udp_client_handlers_inv
  udp_server_handlers_inv dest: keyed_find\<close>)

lemma server_step_apps:
  assumes "server_step L b dt sv sv'" "apps_inv (sv_apps sv)"
  shows "apps_inv (sv_apps sv')"
  using assms(1)
proof cases
  case (v_accept n r)
  then show ?thesis using assms(2)
    by (cases r) (simp_all add: server_on_accept_def Let_def)
next
  case (v_session n s s' os)
  then obtain w w1 c where "ws_run_events L (call_app L b os) (init_websocket_cb no_callbacks) n
      (drop (length (wk_log s)) (wk_log s')) (w, sv_apps sv, sv_core sv) = Some (w1, sv_apps sv', c)"
    by (auto simp: server_deliver_def Let_def elim!: bind_SomeE)
  from ws_run_events_state [where P = apps_inv, OF call_app_inv this assms(2)] show ?thesis .
next
  case (v_app st c w c')
  then show ?thesis using app_event_inv assms(2) by simp
next
  case (v_destroy n s)
  then show ?thesis using assms(2) by simp
qed

lemma server_reach_apps: "server_reach L b dt clock sv \<Longrightarrow> apps_inv (sv_apps sv)"
proof (induction rule: server_reach.induct)
  case v_init
  show ?case by (simp add: server_init_def apps_inv_init)
next
  case (v_step sv sv')
  then show ?case using server_step_apps by blast
qed

section \<open>Properties\<close>

lemma one_write_front: "one_write q w \<Longrightarrow> length w \<le> 1 \<and> w = take (length w) q"
  by (cases q) (auto simp: one_write_def)


definition idle_options :: build_options where
  "idle_options = \<lparr>use_app_echo = 1, use_app_serial = 1, use_app_monitor = 1, use_app_tcp_server = 3,
     use_app_tcp_client = 3, use_app_udp_client = 1, use_app_udp_server = 1, use_ssl_build = True\<rparr>"

definition accepted_demo :: "nat server" where
  "accepted_demo = server_on_accept True True None 3 (server_init idle_options (\<lambda>_. 0))"

lemma accepted_demo_reach: "server_reach jv_net idle_options True (\<lambda>_. 0) accepted_demo"
proof -
  have "server_step jv_net idle_options True (server_init idle_options (\<lambda>_. 0))
      (server_on_accept (use_ssl_build idle_options) True None 3 (server_init idle_options (\<lambda>_. 0)))"
    by (rule server_step.v_accept) (simp_all add: server_init_def)
  from server_reach.v_step [OF server_reach.v_init this] show ?thesis
    by (simp add: accepted_demo_def idle_options_def)
qed


end
