(* ===== verification/Streams.thy ===== *)
theory Streams
  imports Prelude
begin

text \<open>
  The formatted input of the standard library, as the readers of \<open>/proc\<close>
  (\<open>src/src/libs/system_info\<close>) and of the configuration file
  (\<open>src/src/arguments.cpp\<close>) use it: an input stream is the text that is left with
  its two state bits, and every extraction gives the value it stores and the stream
  after it.  The locale is the classic one.  A stream that is not good does not change
  the variable it is asked to fill, so the old value is an argument.
\<close>

section \<open>Characters and numbers\<close>

definition is_space :: "char \<Rightarrow> bool" where
  "is_space c = (c \<in> {CHR '' '', CHR 0x09, CHR 0x0A, CHR 0x0B, CHR 0x0C, CHR 0x0D})"

definition is_digit :: "char \<Rightarrow> bool" where
  "is_digit c = (48 \<le> (of_char c :: nat) \<and> (of_char c :: nat) \<le> 57)"

definition dec_value :: "string \<Rightarrow> int" where
  "dec_value ds = foldl (\<lambda>n c. 10 * n + (of_char c - 48)) 0 ds"

text \<open>An optional sign; \<open>True\<close> for a minus.\<close>

definition scan_sign :: "string \<Rightarrow> bool \<times> string" where
  "scan_sign s =
     (case s of
        [] \<Rightarrow> (False, [])
      | c # r \<Rightarrow> if c = CHR ''-'' then (True, r) else if c = CHR ''+'' then (False, r) else (False, s))"

text \<open>
  \<open>strtol\<close> in base ten, behind \<open>atol\<close>, \<open>atoll\<close> (\<open>w = 64\<close>) and \<open>atoi\<close> (\<open>w = 32\<close>): no
  digits give 0, and a value that does not fit is outside their contract.
\<close>

definition c_strtol :: "nat \<Rightarrow> string \<Rightarrow> int option" where
  "c_strtol w s =
     (let (neg, r) = scan_sign (dropWhile is_space (c_str s));
          n = dec_value (takeWhile is_digit r);
          v = if neg then - n else n
      in if - (2 ^ (w - 1)) \<le> v \<and> v < 2 ^ (w - 1) then Some v else None)"

definition atol :: "string \<Rightarrow> u64 option" where
  "atol s = map_option word_of_int (c_strtol 64 s)"

definition atoi :: "string \<Rightarrow> u32 option" where
  "atoi s = map_option word_of_int (c_strtol 32 s)"

text \<open>\<open>std::to_string\<close> and \<open>operator<<\<close> of an integer.\<close>

fun show_nat :: "nat \<Rightarrow> string" where
  "show_nat n = (if n < 10 then [char_of (48 + n)] else show_nat (n div 10) @ [char_of (48 + n mod 10)])"

declare show_nat.simps [simp del]

definition show_int :: "int \<Rightarrow> string" where
  "show_int i = (if i < 0 then CHR ''-'' # show_nat (nat (- i)) else show_nat (nat i))"

section \<open>Input streams\<close>

record istream =
  is_rest :: string
  is_eof :: bool
  is_failed :: bool

definition open_in :: "string \<Rightarrow> istream" where
  "open_in t = \<lparr>is_rest = t, is_eof = False, is_failed = False\<rparr>"

definition is_good :: "istream \<Rightarrow> bool" where
  "is_good s = (\<not> is_eof s \<and> \<not> is_failed s)"

text \<open>The sentry of the formatted extractions, which skips white space.\<close>

definition in_sentry :: "istream \<Rightarrow> bool \<times> istream" where
  "in_sentry s =
     (if \<not> is_good s then (False, s\<lparr>is_failed := True\<rparr>)
      else let r = dropWhile is_space (is_rest s)
        in if r = [] then (False, \<lparr>is_rest = [], is_eof = True, is_failed = True\<rparr>)
           else (True, s\<lparr>is_rest := r\<rparr>))"

text \<open>\<open>in >> text\<close>.\<close>

definition in_word :: "string \<Rightarrow> istream \<Rightarrow> string \<times> istream" where
  "in_word old s =
     (let (ok, s) = in_sentry s
      in if \<not> ok then (old, s)
         else let r = dropWhile (\<lambda>c. \<not> is_space c) (is_rest s)
           in (takeWhile (\<lambda>c. \<not> is_space c) (is_rest s), s\<lparr>is_rest := r, is_eof := (r = [])\<rparr>))"

text \<open>\<open>in >> character\<close>, with whether it succeeded as the \<open>option\<close>.\<close>

definition in_char :: "istream \<Rightarrow> char option \<times> istream" where
  "in_char s =
     (let (ok, s) = in_sentry s
      in if \<not> ok then (None, s) else (Some (hd (is_rest s)), s\<lparr>is_rest := tl (is_rest s)\<rparr>))"

text \<open>\<open>in.ignore(max, delim)\<close> and \<open>std::getline(in, text, delim)\<close>.\<close>

definition in_ignore :: "char \<Rightarrow> istream \<Rightarrow> istream" where
  "in_ignore d s =
     (if \<not> is_good s then s\<lparr>is_failed := True\<rparr>
      else case dropWhile (\<lambda>c. c \<noteq> d) (is_rest s) of
          [] \<Rightarrow> s\<lparr>is_rest := [], is_eof := True\<rparr>
        | _ # r \<Rightarrow> s\<lparr>is_rest := r\<rparr>)"

definition in_getline :: "char \<Rightarrow> string \<Rightarrow> istream \<Rightarrow> string \<times> istream" where
  "in_getline d old s =
     (if \<not> is_good s then (old, s\<lparr>is_failed := True\<rparr>)
      else let t = takeWhile (\<lambda>c. c \<noteq> d) (is_rest s)
        in case dropWhile (\<lambda>c. c \<noteq> d) (is_rest s) of
             [] \<Rightarrow> (t, \<lparr>is_rest = [], is_eof = True, is_failed = (t = [])\<rparr>)
           | _ # r \<Rightarrow> (t, s\<lparr>is_rest := r\<rparr>))"

text \<open>The loops \<open>while(i--) in.ignore(max, delim)\<close>.\<close>

fun ignore_n :: "nat \<Rightarrow> char \<Rightarrow> istream \<Rightarrow> istream" where
  "ignore_n 0 d s = s"
| "ignore_n (Suc n) d s = ignore_n n d (in_ignore d s)"

text \<open>
  The common part of the integer extractions: sign, digits, and the stream after them.
  Without a digit the extraction fails and stores 0; a value out of range fails and stores
  the nearest one, and an unsigned value with a minus is negated modulo \<open>2 ^ 64\<close>.
\<close>

definition scan_digits :: "istream \<Rightarrow> bool \<times> string \<times> istream" where
  "scan_digits s =
     (let (neg, r) = scan_sign (is_rest s); r' = dropWhile is_digit r
      in (neg, takeWhile is_digit r, s\<lparr>is_rest := r', is_eof := (r' = [])\<rparr>))"

definition in_ulong :: "u64 \<Rightarrow> istream \<Rightarrow> u64 \<times> istream" where
  "in_ulong old s =
     (let (ok, s) = in_sentry s
      in if \<not> ok then (old, s)
         else let (neg, ds, s) = scan_digits s; n = dec_value ds
           in if ds = [] then (0, s\<lparr>is_failed := True\<rparr>)
              else if n \<ge> 2 ^ 64 then (- 1, s\<lparr>is_failed := True\<rparr>)
              else (word_of_int (if neg then - n else n), s))"

definition in_int :: "u32 \<Rightarrow> istream \<Rightarrow> u32 \<times> istream" where
  "in_int old s =
     (let (ok, s) = in_sentry s
      in if \<not> ok then (old, s)
         else let (neg, ds, s) = scan_digits s; n = dec_value ds; v = if neg then - n else n
           in if ds = [] then (0, s\<lparr>is_failed := True\<rparr>)
              else if v \<ge> 2 ^ 31 then (word_of_int (2 ^ 31 - 1), s\<lparr>is_failed := True\<rparr>)
              else if v < - (2 ^ 31) then (word_of_int (- (2 ^ 31)), s\<lparr>is_failed := True\<rparr>)
              else (word_of_int v, s))"

section \<open>Lemmas\<close>

text \<open>Text that an extraction takes whole, and what stands after it.\<close>

definition plain_word :: "string \<Rightarrow> bool" where
  "plain_word w = (w \<noteq> [] \<and> (\<forall>c\<in>set w. \<not> is_space c))"

definition stops :: "(char \<Rightarrow> bool) \<Rightarrow> string \<Rightarrow> bool" where
  "stops P r = (case r of [] \<Rightarrow> True | c # _ \<Rightarrow> \<not> P c)"

lemma stops_simps [simp]: "stops P []" "stops P (c # r) \<longleftrightarrow> \<not> P c"
  by (simp_all add: stops_def)

lemma take_drop_stops:
  assumes "\<forall>c\<in>set w. P c" "stops P r"
  shows "takeWhile P (w @ r) = w" "dropWhile P (w @ r) = r"
  using assms by (auto simp: takeWhile_append2 dropWhile_append2 stops_def split: list.splits)

lemma open_in_sel [simp]:
  "is_rest (open_in t) = t" "\<not> is_eof (open_in t)" "\<not> is_failed (open_in t)" "is_good (open_in t)"
  by (simp_all add: open_in_def is_good_def)

lemma stops_none [simp]: "stops P r \<Longrightarrow> takeWhile P r = []" "stops P r \<Longrightarrow> dropWhile P r = r"
  by (auto simp: stops_def split: list.splits)

lemma take_drop_all:
  assumes "d \<notin> set t"
  shows "takeWhile (\<lambda>c. c \<noteq> d) t = t" "dropWhile (\<lambda>c. c \<noteq> d) t = []"
  using assms by (induction t) auto

text \<open>A good stream is one that was just opened on the text it has left.\<close>

lemma good_open: "is_good s \<Longrightarrow> s = open_in (is_rest s)"
  by (cases s) (simp add: is_good_def open_in_def)

lemma not_good_sticky:
  assumes "\<not> is_good s"
  shows "in_sentry s = (False, s\<lparr>is_failed := True\<rparr>)" "in_word old s = (old, s\<lparr>is_failed := True\<rparr>)"
    "in_char s = (None, s\<lparr>is_failed := True\<rparr>)" "in_ignore d s = s\<lparr>is_failed := True\<rparr>"
    "in_getline d old s = (old, s\<lparr>is_failed := True\<rparr>)"
    "in_ulong v s = (v, s\<lparr>is_failed := True\<rparr>)" "in_int i s = (i, s\<lparr>is_failed := True\<rparr>)"
  using assms
  by (simp_all add: in_sentry_def in_word_def in_char_def in_ignore_def in_getline_def in_ulong_def
      in_int_def)

lemma failed_not_good [simp]: "\<not> is_good (s\<lparr>is_failed := True\<rparr>)"
  by (simp add: is_good_def)

lemma failed_ignore [simp]: "in_ignore d (s\<lparr>is_failed := True\<rparr>) = s\<lparr>is_failed := True\<rparr>"
  using not_good_sticky(4) [OF failed_not_good] by simp

lemma failed_again [simp]: "is_failed s \<Longrightarrow> s\<lparr>is_failed := True\<rparr> = s"
  by (cases s) simp

section \<open>Extractions from a good stream\<close>

text \<open>The stream an extraction leaves that read up to \<open>r\<close>.\<close>

definition in_left :: "string \<Rightarrow> istream" where
  "in_left r = \<lparr>is_rest = r, is_eof = (r = []), is_failed = False\<rparr>"

lemma in_left_Cons [simp]: "in_left (c # r) = open_in (c # r)"
  by (simp add: in_left_def open_in_def)

lemma in_left_append [simp]: "in_left (r @ c # t) = open_in (r @ c # t)"
  by (cases r) simp_all

definition blanks :: "string \<Rightarrow> bool" where
  "blanks s = (\<forall>c\<in>set s. is_space c)"

lemma blanks_simps [simp]: "blanks []" "blanks (c # s) \<longleftrightarrow> is_space c \<and> blanks s"
  by (simp_all add: blanks_def)

lemma space_chars [simp]:
  "is_space CHR '' ''" "is_space CHR 0x09" "is_space CHR 0x0A"
  by (simp_all add: is_space_def)

lemma sentry_open:
  assumes "blanks b" "stops is_space r"
  shows "in_sentry (open_in (b @ r)) =
    (if r = [] then (False, \<lparr>is_rest = [], is_eof = True, is_failed = True\<rparr>) else (True, open_in r))"
proof -
  have "dropWhile is_space (b @ r) = r"
    using assms by (simp add: take_drop_stops blanks_def)
  then show ?thesis by (simp add: in_sentry_def open_in_def is_good_def)
qed

lemma plain_word_stops: "plain_word w \<Longrightarrow> stops is_space (w @ r) \<and> w \<noteq> []"
  by (cases w) (simp_all add: plain_word_def)

lemma in_word_open:
  assumes "blanks b" "plain_word w" "stops (\<lambda>c. \<not> is_space c) r"
  shows "in_word old (open_in (b @ w @ r)) = (w, in_left r)"
proof -
  have *: "takeWhile (\<lambda>c. \<not> is_space c) (w @ r) = w" "dropWhile (\<lambda>c. \<not> is_space c) (w @ r) = r"
    using assms by (simp_all add: take_drop_stops plain_word_def)
  have "in_sentry (open_in (b @ w @ r)) = (True, open_in (w @ r))"
    using plain_word_stops [OF assms(2), of r] by (simp add: sentry_open [OF assms(1)])
  then show ?thesis
    by (simp add: * in_word_def in_left_def open_in_def del: dropWhile_eq_Nil_conv)
qed

lemma in_word_blank:
  "blanks b \<Longrightarrow> in_word old (open_in b) = (old, \<lparr>is_rest = [], is_eof = True, is_failed = True\<rparr>)"
  using sentry_open [of b "[]"] by (simp add: in_word_def)

lemma in_ignore_open:
  assumes "d \<notin> set t"
  shows "in_ignore d (open_in (t @ d # r)) = open_in r"
proof -
  have "dropWhile (\<lambda>c. c \<noteq> d) (t @ d # r) = d # r"
    using assms by (intro take_drop_stops) auto
  then show ?thesis by (simp add: in_ignore_def open_in_def is_good_def)
qed

lemma in_ignore_end:
  assumes "d \<notin> set t"
  shows "in_ignore d (open_in t) = in_left []"
  by (simp add: take_drop_all [OF assms] in_ignore_def open_in_def is_good_def in_left_def)

lemma in_getline_open:
  assumes "d \<notin> set t"
  shows "in_getline d old (open_in (t @ d # r)) = (t, open_in r)"
proof -
  have "dropWhile (\<lambda>c. c \<noteq> d) (t @ d # r) = d # r" "takeWhile (\<lambda>c. c \<noteq> d) (t @ d # r) = t"
    using assms by (intro take_drop_stops; auto)+
  then show ?thesis by (simp add: in_getline_def open_in_def is_good_def)
qed

lemma in_getline_end:
  assumes "d \<notin> set t"
  shows "in_getline d old (open_in t) = (t, \<lparr>is_rest = [], is_eof = True, is_failed = (t = [])\<rparr>)"
  by (simp add: take_drop_all [OF assms] in_getline_def open_in_def is_good_def)

section \<open>Printed numbers\<close>

lemma of_char_digit [simp]:
  "d < 10 \<Longrightarrow> of_char (char_of (48 + d) :: char) = (48 + d :: nat)"
  "d < 10 \<Longrightarrow> of_char (char_of (48 + d) :: char) = (48 + int d)"
proof -
  show *: "of_char (char_of (48 + d) :: char) = (48 + d :: nat)" if "d < 10"
    using that by simp
  show "of_char (char_of (48 + d) :: char) = (48 + int d)" if "d < 10"
    using * [OF that] by (metis of_nat_add of_nat_numeral of_nat_of_char)
qed

lemma digit_char [simp]: "(d :: nat) < 10 \<Longrightarrow> is_digit (char_of (48 + d))"
  unfolding is_digit_def by (simp only: of_char_digit) simp

lemma show_nat_digits: "\<forall>c\<in>set (show_nat n). is_digit c"
proof (induction n rule: show_nat.induct)
  case (1 n)
  then show ?case by (cases "n < 10") (simp_all add: show_nat.simps [of n])
qed

lemma show_nat_not_empty [simp]: "show_nat n \<noteq> []"
  by (subst show_nat.simps) simp

lemma dec_value_snoc: "dec_value (ds @ [c]) = 10 * dec_value ds + (of_char c - 48)"
  by (simp add: dec_value_def)

lemma dec_value_show: "dec_value (show_nat n) = int n"
proof (induction n rule: show_nat.induct)
  case (1 n)
  show ?case
  proof (cases "n < 10")
    case True
    then show ?thesis by (simp add: show_nat.simps [of n] dec_value_def)
  next
    case False
    then have "dec_value (show_nat n) = 10 * int (n div 10) + int (n mod 10)"
      using 1 by (simp add: show_nat.simps [of n] dec_value_snoc)
    also have "\<dots> = int n" by presburger
    finally show ?thesis .
  qed
qed

section \<open>Numbers that are read\<close>

definition digits :: "string \<Rightarrow> bool" where
  "digits ds = (ds \<noteq> [] \<and> (\<forall>c\<in>set ds. is_digit c))"

lemma digit_not_space [simp]: "is_digit c \<Longrightarrow> \<not> is_space c"
  by (auto simp: is_digit_def is_space_def)

lemma digit_not_sign: "is_digit c \<Longrightarrow> c \<noteq> CHR ''-'' \<and> c \<noteq> CHR ''+'' \<and> c \<noteq> CHR 0x00"
  by (auto simp: is_digit_def)

lemma minus_not_space [simp]: "\<not> is_space CHR ''-''"
  by (simp add: is_space_def)

lemma digits_show [simp]: "digits (show_nat n)"
  by (simp add: digits_def show_nat_digits)

lemma digits_plain: "digits ds \<Longrightarrow> plain_word ds"
  by (simp add: digits_def plain_word_def)

lemma plain_show_int [simp]: "plain_word (show_int i)"
  using digits_plain [OF digits_show] by (auto simp: show_int_def plain_word_def)

lemma digits_stops: "digits ds \<Longrightarrow> stops is_space (ds @ r)"
  using digits_plain plain_word_stops by blast

lemma scan_sign_digits: "digits ds \<Longrightarrow> scan_sign (ds @ r) = (False, ds @ r)"
  by (cases ds) (auto simp: digits_def scan_sign_def dest: digit_not_sign)

lemma digits_take_drop:
  assumes "digits ds" "stops is_digit r"
  shows "takeWhile is_digit (ds @ r) = ds" "dropWhile is_digit (ds @ r) = r"
  using assms take_drop_stops [of ds is_digit r] by (simp_all add: digits_def)

lemma dec_value_nonneg:
  assumes "\<forall>c\<in>set ds. is_digit c"
  shows "0 \<le> dec_value ds"
  using assms
proof (induction ds rule: rev_induct)
  case (snoc c ds)
  then have "48 \<le> (of_char c :: nat)" by (simp add: is_digit_def)
  then have "48 \<le> (of_char c :: int)" by (metis of_nat_le_iff of_nat_numeral of_nat_of_char)
  with snoc show ?case by (simp add: dec_value_snoc)
qed (simp add: dec_value_def)

lemma in_ulong_open:
  assumes "blanks b" "digits ds" "dec_value ds < 2 ^ 64" "stops is_digit r"
  shows "in_ulong old (open_in (b @ ds @ r)) = (word_of_int (dec_value ds), in_left r)"
proof -
  have s: "in_sentry (open_in (b @ ds @ r)) = (True, open_in (ds @ r))"
    using assms(2) by (simp add: sentry_open [OF assms(1) digits_stops] digits_def)
  have d: "scan_digits (open_in (ds @ r)) = (False, ds, in_left r)"
    using digits_take_drop [OF assms(2,4)] scan_sign_digits [OF assms(2), of r]
    by (simp add: scan_digits_def in_left_def open_in_def del: dropWhile_eq_Nil_conv)
  have "ds \<noteq> []" using assms(2) by (simp add: digits_def)
  then show ?thesis using assms(3) by (simp add: in_ulong_def s d)
qed

lemma take_digits_show [simp]: "takeWhile is_digit (show_nat n) = show_nat n"
  using show_nat_digits by (simp add: takeWhile_eq_all_conv)

lemma scan_sign_show: "scan_sign (show_int i @ r) = (i < 0, show_nat (nat \<bar>i\<bar>) @ r)"
proof (cases "i < 0")
  case True
  then show ?thesis by (simp add: show_int_def scan_sign_def)
next
  case False
  then show ?thesis using scan_sign_digits [OF digits_show] by (simp add: show_int_def)
qed

lemma scan_digits_int:
  assumes "stops is_digit r"
  shows "scan_digits (open_in (show_int i @ r)) = (i < 0, show_nat (nat \<bar>i\<bar>), in_left r)"
proof -
  let ?ds = "show_nat (nat \<bar>i\<bar>)"
  have t: "takeWhile is_digit (?ds @ r) = ?ds" "dropWhile is_digit (?ds @ r) = r"
    by (rule digits_take_drop [OF digits_show assms])+
  show ?thesis
    by (simp add: scan_sign_show scan_digits_def in_left_def open_in_def t del: dropWhile_eq_Nil_conv)
qed

lemma in_int_open:
  assumes "blanks b" "- (2 ^ 31) \<le> i" "i < 2 ^ 31" "stops is_digit r"
  shows "in_int old (open_in (b @ show_int i @ r)) = (word_of_int i, in_left r)"
proof -
  have s: "in_sentry (open_in (b @ show_int i @ r)) = (True, open_in (show_int i @ r))"
    using sentry_open [OF assms(1), of "show_int i @ r"] plain_word_stops [OF plain_show_int, of i r]
    by simp
  have v: "(if i < 0 then - dec_value (show_nat (nat \<bar>i\<bar>)) else dec_value (show_nat (nat \<bar>i\<bar>))) = i"
    by (simp add: dec_value_show)
  show ?thesis using assms(2,3) by (simp add: in_int_def s scan_digits_int [OF assms(4)] v Let_def)
qed

lemma c_strtol_digits:
  assumes "digits ds" "dec_value ds < 2 ^ (w - 1)"
  shows "c_strtol w ds = Some (dec_value ds)"
proof -
  have t: "takeWhile is_digit ds = ds" using digits_take_drop(1) [OF assms(1), of "[]"]
    by (simp only: append_Nil2 stops_simps simp_thms)
  have "c_str ds = ds"
    using assms(1) by (intro c_str_id) (auto simp: digits_def dest: digit_not_sign)
  moreover have "dropWhile is_space ds = ds" using digits_stops [OF assms(1), of "[]"] by simp
  moreover have "scan_sign ds = (False, ds)" using scan_sign_digits [OF assms(1), of "[]"] by simp
  moreover have "- (2 ^ (w - 1)) \<le> dec_value ds"
    using dec_value_nonneg [of ds] assms(1)
    by (smt (verit) digits_def zero_le_power)
  ultimately show ?thesis using assms(2) by (simp add: c_strtol_def t)
qed

lemma atol_digits:
  "\<lbrakk>digits ds; dec_value ds < 2 ^ 63\<rbrakk> \<Longrightarrow> atol ds = Some (word_of_int (dec_value ds))"
  using c_strtol_digits [of ds 64] by (simp add: atol_def)

lemma atoi_digits:
  "\<lbrakk>digits ds; dec_value ds < 2 ^ 31\<rbrakk> \<Longrightarrow> atoi ds = Some (word_of_int (dec_value ds))"
  using c_strtol_digits [of ds 32] by (simp add: atoi_def)

section \<open>A number at the start of the rest of a line\<close>

definition number_of_rest :: "string \<Rightarrow> string" where
  "number_of_rest r = takeWhile is_digit (dropWhile is_space r)"

definition rest_value :: "string \<Rightarrow> u64" where
  "rest_value r = word_of_int (dec_value (number_of_rest r))"

lemma stops_dropWhile: "\<not> P c \<Longrightarrow> stops P (dropWhile P x @ c # t)"
  by (induction x) auto

lemma newline_simps [simp]: "\<not> is_digit CHR 0x0A"
  by (simp add: is_digit_def)

lemma number_of_rest_digits:
  "number_of_rest r \<noteq> [] \<Longrightarrow> digits (number_of_rest r)"
  by (auto simp: digits_def number_of_rest_def dest: set_takeWhileD)

lemma in_ulong_rest:
  assumes "CHR 0x0A \<notin> set r" "number_of_rest r \<noteq> []" "dec_value (number_of_rest r) < 2 ^ 64"
  obtains s where "in_ulong old (open_in (r @ CHR 0x0A # t)) = (rest_value r, s)"
    "in_ignore CHR 0x0A s = open_in t"
proof -
  let ?b = "takeWhile is_space r" and ?e = "dropWhile is_digit (dropWhile is_space r)"
  have "r = ?b @ number_of_rest r @ ?e" by (simp add: number_of_rest_def)
  then have "open_in (r @ CHR 0x0A # t) = open_in (?b @ number_of_rest r @ ?e @ CHR 0x0A # t)"
    by (metis append.assoc)
  moreover have "blanks ?b" by (auto simp: blanks_def dest: set_takeWhileD)
  ultimately have "in_ulong old (open_in (r @ CHR 0x0A # t)) = (rest_value r, in_left (?e @ CHR 0x0A # t))"
    using assms(3)
    by (simp add: in_ulong_open number_of_rest_digits [OF assms(2)] stops_dropWhile rest_value_def
        del: takeWhile_dropWhile_id)
  moreover have "CHR 0x0A \<notin> set ?e" using assms(1) by (meson set_dropWhileD)
  then have "in_ignore CHR 0x0A (in_left (?e @ CHR 0x0A # t)) = open_in t"
    by (simp add: in_ignore_open)
  ultimately show thesis by (rule that)
qed

end
