(* ===== verification/Arguments.thy ===== *)
theory Arguments
  imports Streams Init_Apps
begin

text \<open>
  How the program starts: the command line and the configuration file
  (\<open>src/src/arguments.cpp\<close>) and what \<open>main\<close> makes of them
  (\<open>src/src/main.cpp\<close>).  The parser of the command line, Argh!, is not part of
  the repository: what it answers for this command line is a record.  A call of
  \<open>exit\<close> is a value; \<open>None\<close> is a start that never comes to an end.
\<close>

section \<open>The arguments\<close>

record arguments =
  ar_addr :: string
  ar_port :: u32
  ar_threads :: u32
  ar_key :: string
  ar_cert :: string

definition INVALID_PORT :: u32 where
  "INVALID_PORT = 0"

definition arguments_init :: arguments where
  "arguments_init = \<lparr>ar_addr = ''0.0.0.0'', ar_port = INVALID_PORT, ar_threads = 1, ar_key = [],
     ar_cert = []\<rparr>"

datatype start_error =
    Config_Not_Found string
  | Invalid_Port
  | No_Port
  | Port_Range
  | Bad_Threads
  | No_Ssl_Files
  | Invalid_Address string
  | Bad_Certificate
  | Not_Opened

datatype start_output =
    Help
  | Ssl_Support bool
  | App_List string
  | Version
  | Config_Text string

datatype 'a startup =
    Exit_Success start_output
  | Exit_Failure start_error
  | Proceed 'a

text \<open>A call of \<open>exit\<close> ends the steps after it.\<close>

fun startup_then :: "'a startup \<Rightarrow> ('a \<Rightarrow> 'b startup) \<Rightarrow> 'b startup" where
  "startup_then (Exit_Success x) f = Exit_Success x"
| "startup_then (Exit_Failure e) f = Exit_Failure e"
| "startup_then (Proceed a) f = f a"

lemma startup_then_Proceed:
  "startup_then r f = Proceed b \<longleftrightarrow> (\<exists>a. r = Proceed a \<and> f a = Proceed b)"
  by (cases r) simp_all

section \<open>The configuration file\<close>

definition config_line :: "string \<Rightarrow> string \<Rightarrow> string" where
  "config_line attr v = attr @ CHR ''='' # v @ [CHR 0x0A]"

definition make_config_options_output :: "bool \<Rightarrow> arguments \<Rightarrow> string" where
  "make_config_options_output use_ssl a =
     config_line ''PORT'' (show_int (sint (ar_port a))) @
     config_line ''ADDRESS'' (ar_addr a) @
     config_line ''THREADS'' (show_int (sint (ar_threads a))) @
     (if use_ssl then config_line ''KEY'' (ar_key a) @ config_line ''CERT'' (ar_cert a) else [])"

text \<open>The chain of tests in the loop of \<open>read_config_file\<close>.\<close>

definition config_attr :: "bool \<Rightarrow> string \<Rightarrow> istream \<Rightarrow> arguments \<Rightarrow> arguments \<times> istream" where
  "config_attr use_ssl attr s a =
     (if attr = ''PORT'' then let (v, s) = in_int (ar_port a) s in (a\<lparr>ar_port := v\<rparr>, s)
      else if attr = ''ADDRESS'' then let (v, s) = in_word (ar_addr a) s in (a\<lparr>ar_addr := v\<rparr>, s)
      else if attr = ''THREADS'' then let (v, s) = in_int (ar_threads a) s in (a\<lparr>ar_threads := v\<rparr>, s)
      else if use_ssl \<and> attr = ''KEY'' then let (v, s) = in_word (ar_key a) s in (a\<lparr>ar_key := v\<rparr>, s)
      else if use_ssl \<and> attr = ''CERT'' then let (v, s) = in_word (ar_cert a) s in (a\<lparr>ar_cert := v\<rparr>, s)
      else (a, s))"

partial_function (option) config_loop ::
  "bool \<Rightarrow> istream \<Rightarrow> string \<Rightarrow> arguments \<Rightarrow> arguments option" where
  "config_loop use_ssl s attr a =
     (if is_eof s then Some a
      else let (attr, s) = in_getline CHR ''='' attr s
        in if attr = [] then config_loop use_ssl s attr a
           else let (a, s) = config_attr use_ssl attr s a
             in config_loop use_ssl (in_ignore CHR 0x0A s) attr a)"

definition read_config_file ::
  "bool \<Rightarrow> (string \<Rightarrow> string option) \<Rightarrow> string \<Rightarrow> arguments \<Rightarrow> arguments startup option" where
  "read_config_file use_ssl files file_config a =
     (case files file_config of
        None \<Rightarrow> Some (Exit_Failure (Config_Not_Found file_config))
      | Some t \<Rightarrow> map_option Proceed (config_loop use_ssl (open_in t) [] a))"

section \<open>The command line\<close>

text \<open>
  What the parser answers: whether one of the names is a flag, the value of the first of
  the names that is a parameter, and the arguments that stand alone, the program first.
\<close>

record cmdline =
  cl_flag :: "string list \<Rightarrow> bool"
  cl_param :: "string list \<Rightarrow> string option"
  cl_pos :: "string list"

text \<open>The stream of a parameter; one that is not there has failed from the start.\<close>

definition param_stream :: "cmdline \<Rightarrow> string list \<Rightarrow> istream" where
  "param_stream cl names =
     (case cl_param cl names of
        None \<Rightarrow> \<lparr>is_rest = [], is_eof = False, is_failed = True\<rparr>
      | Some v \<Rightarrow> open_in v)"

definition param_or :: "cmdline \<Rightarrow> string list \<Rightarrow> string \<Rightarrow> istream" where
  "param_or cl names d = open_in (case cl_param cl names of None \<Rightarrow> d | Some v \<Rightarrow> v)"

definition apps_text :: "build_options \<Rightarrow> string" where
  "apps_text b =
     (let yes = (\<lambda>n. if n \<noteq> 0 then ''true'' else ''false'');
          kind = (\<lambda>n. if n = 0 then ''false'' else if n = 1 then ''plain''
            else if n = 2 then ''ssl'' else ''plain,ssl'')
      in ''echo='' @ yes (use_app_echo b) @ '',serial='' @ yes (use_app_serial b) @
         '',monitor='' @ yes (use_app_monitor b) @ '',tcp_server='' @ kind (use_app_tcp_server b) @
         '',tcp_client='' @ kind (use_app_tcp_client b) @ '',udp_client'' @ yes (use_app_udp_client b))"

text \<open>The part of \<open>check_arguments\<close> after the configuration file.\<close>

definition check_port :: "cmdline \<Rightarrow> arguments \<Rightarrow> arguments startup" where
  "check_port cl a =
     (let two = (length (cl_pos cl) = 2);
          (v, s) = in_int (ar_port a) (open_in (cl_pos cl ! 1));
          a = (if two then a\<lparr>ar_port := v\<rparr> else a)
      in if two \<and> is_failed s then Exit_Failure Invalid_Port
         else if ar_port a = INVALID_PORT then Exit_Failure No_Port
         else if \<not> (1 < sint (ar_port a) \<and> sint (ar_port a) \<le> 65535) then Exit_Failure Port_Range
         else Proceed a)"

definition check_rest :: "bool \<Rightarrow> cmdline \<Rightarrow> arguments \<Rightarrow> arguments startup" where
  "check_rest use_ssl cl a =
     (let a = a\<lparr>ar_addr := fst (in_word (ar_addr a) (param_or cl [''-a'', ''--addr''] (ar_addr a)))\<rparr>;
          (v, s) = in_int (ar_threads a)
            (param_or cl [''-t'', ''--threads''] (show_int (sint (ar_threads a))));
          a = a\<lparr>ar_threads := v\<rparr>
      in if is_failed s \<or> sint (ar_threads a) < 1 then Exit_Failure Bad_Threads
         else if use_ssl then
           let a = a\<lparr>ar_key := fst (in_word (ar_key a) (param_stream cl [''-k'', ''--key''])),
                     ar_cert := fst (in_word (ar_cert a) (param_stream cl [''-c'', ''--cert'']))\<rparr>
           in if ar_key a = [] \<or> ar_cert a = [] then Exit_Failure No_Ssl_Files else Proceed a
         else Proceed a)"

definition check_arguments ::
  "bool \<Rightarrow> build_options \<Rightarrow> (string \<Rightarrow> string option) \<Rightarrow> cmdline \<Rightarrow> arguments
     \<Rightarrow> arguments startup option" where
  "check_arguments use_ssl b files cl a =
     (if cl_flag cl [''-h'', ''--help''] then Some (Exit_Success Help)
      else if cl_flag cl [''-s'', ''-ssl''] then Some (Exit_Success (Ssl_Support use_ssl))
      else if cl_flag cl [''-p'', ''--apps''] then Some (Exit_Success (App_List (apps_text b)))
      else if cl_flag cl [''-v'', ''--version''] then Some (Exit_Success Version)
      else do {
        let (file_config, s) = in_word [] (param_stream cl [''-o'', ''--config'']);
        r \<leftarrow> (if is_failed s then Some (Proceed a) else read_config_file use_ssl files file_config a);
        Some (startup_then r (\<lambda>a.
          startup_then (check_port cl a) (\<lambda>a.
          startup_then (check_rest use_ssl cl a) (\<lambda>a.
            if cl_flag cl [''-o'', ''--config'']
            then Exit_Success (Config_Text (make_config_options_output use_ssl a))
            else Proceed a)))) })"

section \<open>main\<close>

text \<open>
  \<open>load_certificate\<close>: the results of its four calls, in order; the first error is
  the result.
\<close>

definition load_certificate :: "nat option \<Rightarrow> nat option \<Rightarrow> nat option \<Rightarrow> nat option \<Rightarrow> nat option" where
  "load_certificate password options chain key =
     (if password \<noteq> None then password
      else if options \<noteq> None then options
      else if chain \<noteq> None then chain
      else key)"

text \<open>What serves when the program is up: \<open>st_workers\<close> threads beside the main one.\<close>

record 'a started =
  st_address :: 'a
  st_port :: u16
  st_workers :: nat

definition main_start ::
  "bool \<Rightarrow> (string \<Rightarrow> 'a option) \<Rightarrow> nat option \<Rightarrow> nat option \<Rightarrow> arguments \<Rightarrow> 'a started startup" where
  "main_start use_ssl to_addr cert_error listen_error a =
     (case to_addr (ar_addr a) of
        None \<Rightarrow> Exit_Failure (Invalid_Address (ar_addr a))
      | Some addr \<Rightarrow>
          let port = ucast (ar_port a); threads = max 1 (sint (ar_threads a))
          in if use_ssl \<and> cert_error \<noteq> None then Exit_Failure Bad_Certificate
             else if listen_error \<noteq> None then Exit_Failure Not_Opened
             else Proceed \<lparr>st_address = addr, st_port = port, st_workers = nat (threads - 1)\<rparr>)"

text \<open>The whole start, from the initial arguments.\<close>

definition program_start ::
  "bool \<Rightarrow> build_options \<Rightarrow> (string \<Rightarrow> string option) \<Rightarrow> cmdline \<Rightarrow> (string \<Rightarrow> 'a option)
     \<Rightarrow> nat option \<Rightarrow> nat option \<Rightarrow> 'a started startup option" where
  "program_start use_ssl b files cl to_addr cert_error listen_error =
     map_option (\<lambda>r. startup_then r (main_start use_ssl to_addr cert_error listen_error))
       (check_arguments use_ssl b files cl arguments_init)"

section \<open>What a started program can rely on\<close>

definition args_ok :: "bool \<Rightarrow> arguments \<Rightarrow> bool" where
  "args_ok use_ssl a = (1 < sint (ar_port a) \<and> sint (ar_port a) \<le> 65535 \<and> 1 \<le> sint (ar_threads a) \<and>
     (use_ssl \<longrightarrow> ar_key a \<noteq> [] \<and> ar_cert a \<noteq> []))"

lemma check_port_bounds:
  "check_port cl a = Proceed a' \<Longrightarrow> 1 < sint (ar_port a') \<and> sint (ar_port a') \<le> 65535"
  by (auto simp: check_port_def Let_def split: prod.splits if_splits)

lemma check_rest_ok:
  assumes "check_rest use_ssl cl a = Proceed a'"
  shows "ar_port a' = ar_port a \<and> 1 \<le> sint (ar_threads a') \<and>
    (use_ssl \<longrightarrow> ar_key a' \<noteq> [] \<and> ar_cert a' \<noteq> [])"
  using assms by (auto simp: check_rest_def Let_def split: prod.splits if_splits)

lemma check_arguments_ok:
  assumes "check_arguments use_ssl b files cl a = Some (Proceed a')"
  shows "args_ok use_ssl a'"
proof -
  obtain a1 a2 where "check_port cl a1 = Proceed a2" "check_rest use_ssl cl a2 = Proceed a'"
    using assms
    by (auto simp: check_arguments_def bind_Some_iff startup_then_Proceed split: if_splits prod.splits)
  then show ?thesis
    using check_port_bounds [of cl a1 a2] check_rest_ok [of use_ssl cl a2 a'] by (auto simp: args_ok_def)
qed

lemma port_cast:
  assumes "0 \<le> sint (p :: u32)" "sint p \<le> 65535"
  shows "int (unat (ucast p :: u16)) = sint p"
proof -
  have "uint p = sint p" using assms by (simp add: uint_sint take_bit_int_eq_self)
  then show ?thesis using assms by (simp add: uint_narrow)
qed

text \<open>
  C40: A program that starts serves where its user told it to: the port, narrowed to 16 bits by
  \<open>main\<close>, is the number given and lies above 1, the address is the one the argument
  denotes, there are exactly as many threads as asked for, at least one, and with SSL there
  is a key and a certificate.
\<close>

theorem program_start_sound:
  assumes "program_start use_ssl b files cl to_addr cert_error listen_error = Some (Proceed p)"
  shows "\<exists>a. check_arguments use_ssl b files cl arguments_init = Some (Proceed a) \<and>
    int (unat (st_port p)) = sint (ar_port a) \<and> 1 < unat (st_port p) \<and>
    to_addr (ar_addr a) = Some (st_address p) \<and>
    int (st_workers p) + 1 = sint (ar_threads a) \<and>
    (use_ssl \<longrightarrow> ar_key a \<noteq> [] \<and> ar_cert a \<noteq> [] \<and> cert_error = None)"
proof -
  obtain a where a: "check_arguments use_ssl b files cl arguments_init = Some (Proceed a)"
    "main_start use_ssl to_addr cert_error listen_error a = Proceed p"
    using assms by (auto simp: program_start_def startup_then_Proceed)
  have ok: "args_ok use_ssl a" by (rule check_arguments_ok [OF a(1)])
  have "to_addr (ar_addr a) = Some (st_address p)" "st_port p = ucast (ar_port a)"
    "st_workers p = nat (max 1 (sint (ar_threads a)) - 1)" "use_ssl \<longrightarrow> cert_error = None"
    using a(2) by (auto simp: main_start_def Let_def split: option.splits if_splits)
  moreover have p: "int (unat (ucast (ar_port a) :: u16)) = sint (ar_port a)"
    using ok by (intro port_cast) (simp_all add: args_ok_def)
  moreover have "1 < unat (ucast (ar_port a) :: u16)"
    using p ok unfolding args_ok_def by linarith
  ultimately show ?thesis using a(1) ok by (intro exI [of _ a]) (auto simp: args_ok_def)
qed

section \<open>Reading the configuration file\<close>

lemma config_loop_eof: "is_eof s \<Longrightarrow> config_loop use_ssl s attr a = Some a"
  by (simp add: config_loop.simps [of use_ssl s])

lemma config_loop_end: "config_loop use_ssl (open_in []) attr a = Some a"
  using in_getline_end [of "CHR ''=''" "[]" attr]
  by (subst config_loop.simps) (simp add: config_loop_eof)

lemma config_loop_line:
  assumes "CHR ''='' \<notin> set attr" "attr \<noteq> []"
    and "config_attr use_ssl attr (open_in (v @ CHR 0x0A # t)) a = (a', open_in (CHR 0x0A # t))"
  shows "config_loop use_ssl (open_in (config_line attr v @ t)) attr0 a = config_loop use_ssl (open_in t) attr a'"
proof -
  have g: "in_getline CHR ''='' attr0 (open_in (config_line attr v @ t)) = (attr, open_in (v @ CHR 0x0A # t))"
    using in_getline_open [OF assms(1), of attr0 "v @ CHR 0x0A # t"] by (simp add: config_line_def)
  have i: "in_ignore CHR 0x0A (open_in (CHR 0x0A # t)) = open_in t"
    using in_ignore_open [of "CHR 0x0A" "[]" t] by simp
  show ?thesis
    by (subst config_loop.simps) (simp add: g assms(2,3) i)
qed

lemma in_word_value:
  "plain_word v \<Longrightarrow> in_word old (open_in (v @ CHR 0x0A # t)) = (v, open_in (CHR 0x0A # t))"
  using in_word_open [of "[]" v "CHR 0x0A # t" old] by simp

lemma in_int_value:
  "in_int old (open_in (show_int (sint (x :: u32)) @ CHR 0x0A # t)) = (x, open_in (CHR 0x0A # t))"
proof -
  have "- (2 ^ 31) \<le> sint x" "sint x < 2 ^ 31" using sint_ge [of x] sint_lt [of x] by simp_all
  then show ?thesis using in_int_open [of "[]" "sint x" "CHR 0x0A # t" old] by simp
qed

definition printable_args :: "bool \<Rightarrow> arguments \<Rightarrow> bool" where
  "printable_args use_ssl a = (plain_word (ar_addr a) \<and>
     (use_ssl \<longrightarrow> plain_word (ar_key a) \<and> plain_word (ar_cert a)))"

definition args_read :: "bool \<Rightarrow> arguments \<Rightarrow> arguments \<Rightarrow> arguments" where
  "args_read use_ssl a a0 =
     (if use_ssl then a else a\<lparr>ar_key := ar_key a0, ar_cert := ar_cert a0\<rparr>)"

lemma config_loop_printed:
  assumes "printable_args use_ssl a"
  shows "\<exists>attr. config_loop use_ssl (open_in (make_config_options_output use_ssl a @ t)) attr0 a0 =
    config_loop use_ssl (open_in t) attr (args_read use_ssl a a0)"
proof -
  note line = config_loop_line [OF _ _ config_attr_def [THEN trans]]
  have 1: "config_loop use_ssl (open_in (config_line ''PORT'' (show_int (sint (ar_port a))) @ t)) attr0 a0 =
      config_loop use_ssl (open_in t) ''PORT'' (a0\<lparr>ar_port := ar_port a\<rparr>)" for t attr0 a0
    by (rule line) (simp_all add: in_int_value)
  have 2: "config_loop use_ssl (open_in (config_line ''ADDRESS'' (ar_addr a) @ t)) attr0 a0 =
      config_loop use_ssl (open_in t) ''ADDRESS'' (a0\<lparr>ar_addr := ar_addr a\<rparr>)" for t attr0 a0
    by (rule line) (use assms in \<open>simp_all add: in_word_value printable_args_def\<close>)
  have 3: "config_loop use_ssl (open_in (config_line ''THREADS'' (show_int (sint (ar_threads a))) @ t)) attr0 a0 =
      config_loop use_ssl (open_in t) ''THREADS'' (a0\<lparr>ar_threads := ar_threads a\<rparr>)" for t attr0 a0
    by (rule line) (simp_all add: in_int_value)
  show ?thesis
  proof (cases use_ssl)
    case True
    have 4: "config_loop use_ssl (open_in (config_line ''KEY'' (ar_key a) @ t)) attr0 a0 =
        config_loop use_ssl (open_in t) ''KEY'' (a0\<lparr>ar_key := ar_key a\<rparr>)" for t attr0 a0
      by (rule line) (use assms True in \<open>simp_all add: in_word_value printable_args_def\<close>)
    have 5: "config_loop use_ssl (open_in (config_line ''CERT'' (ar_cert a) @ t)) attr0 a0 =
        config_loop use_ssl (open_in t) ''CERT'' (a0\<lparr>ar_cert := ar_cert a\<rparr>)" for t attr0 a0
      by (rule line) (use assms True in \<open>simp_all add: in_word_value printable_args_def\<close>)
    have m: "make_config_options_output use_ssl a @ t =
        config_line ''PORT'' (show_int (sint (ar_port a))) @ config_line ''ADDRESS'' (ar_addr a) @
        config_line ''THREADS'' (show_int (sint (ar_threads a))) @ config_line ''KEY'' (ar_key a) @
        config_line ''CERT'' (ar_cert a) @ t"
      using True by (simp add: make_config_options_output_def)
    have r: "args_read use_ssl a a0 = a0\<lparr>ar_port := ar_port a, ar_addr := ar_addr a,
        ar_threads := ar_threads a, ar_key := ar_key a, ar_cert := ar_cert a\<rparr>"
      using True by (simp add: args_read_def)
    show ?thesis unfolding m r 1 2 3 4 5 by auto
  next
    case False
    have m: "make_config_options_output use_ssl a @ t =
        config_line ''PORT'' (show_int (sint (ar_port a))) @ config_line ''ADDRESS'' (ar_addr a) @
        config_line ''THREADS'' (show_int (sint (ar_threads a))) @ t"
      using False by (simp add: make_config_options_output_def)
    have r: "args_read use_ssl a a0 = a0\<lparr>ar_port := ar_port a, ar_addr := ar_addr a,
        ar_threads := ar_threads a\<rparr>"
      using False by (simp add: args_read_def)
    show ?thesis unfolding m r 1 2 3 by auto
  qed
qed

section \<open>What is printed can be read\<close>

lemma in_word_plain: "fst (in_word old s) = old \<or> plain_word (fst (in_word old s))"
proof (cases "fst (in_sentry s)")
  case True
  let ?r = "is_rest (snd (in_sentry s))"
  have "?r \<noteq> [] \<and> \<not> is_space (hd ?r)"
    using True hd_dropWhile [of is_space "is_rest s"]
    by (auto simp: in_sentry_def Let_def simp del: dropWhile_eq_Nil_conv split: if_splits)
  then have "plain_word (takeWhile (\<lambda>c. \<not> is_space c) ?r)"
    by (cases ?r) (auto simp: plain_word_def dest: set_takeWhileD)
  then show ?thesis using True by (simp add: in_word_def case_prod_beta Let_def)
qed (simp add: in_word_def case_prod_beta)

definition word_or_empty :: "string \<Rightarrow> bool" where
  "word_or_empty w = (w = [] \<or> plain_word w)"

lemma in_word_stays [simp]:
  "plain_word old \<Longrightarrow> plain_word (fst (in_word old s))"
  "word_or_empty old \<Longrightarrow> word_or_empty (fst (in_word old s))"
  using in_word_plain [of old s] by (auto simp: word_or_empty_def)

definition plain_args :: "arguments \<Rightarrow> bool" where
  "plain_args a = (plain_word (ar_addr a) \<and> word_or_empty (ar_key a) \<and> word_or_empty (ar_cert a))"

lemma plain_args_attr: "plain_args a \<Longrightarrow> plain_args (fst (config_attr use_ssl attr s a))"
  by (simp add: config_attr_def plain_args_def case_prod_beta)

lemma plain_args_loop:
  assumes "config_loop use_ssl s attr a = Some a'" "plain_args a"
  shows "plain_args a'"
proof -
  have "plain_args a \<longrightarrow> plain_args a'"
  proof (rule config_loop.raw_induct [where P = "\<lambda>use_ssl s attr a a'. plain_args a \<longrightarrow> plain_args a'",
        OF _ assms(1)], goal_cases)
    case (1 f use_ssl s attr a a')
    let ?g = "in_getline CHR ''='' attr s"
    let ?c = "config_attr use_ssl (fst ?g) (snd ?g) a"
    have "a' = a \<or> f use_ssl (snd ?g) (fst ?g) a = Some a' \<or>
        f use_ssl (in_ignore CHR 0x0A (snd ?c)) (fst ?g) (fst ?c) = Some a'"
      using 1(2) by (simp add: case_prod_beta Let_def split: if_splits)
    then show ?case using 1(1) plain_args_attr by blast
  qed
  with assms(2) show ?thesis by simp
qed

lemma plain_args_read:
  "\<lbrakk>read_config_file use_ssl files f a = Some (Proceed a'); plain_args a\<rbrakk> \<Longrightarrow> plain_args a'"
  by (auto simp: read_config_file_def plain_args_loop split: option.splits)

lemma plain_args_rest:
  "\<lbrakk>check_rest use_ssl cl a = Proceed a'; plain_args a\<rbrakk> \<Longrightarrow> plain_args a'"
  by (auto simp: check_rest_def plain_args_def case_prod_beta Let_def split: if_splits)

lemma plain_args_port:
  "\<lbrakk>check_port cl a = Proceed a'; plain_args a\<rbrakk> \<Longrightarrow> plain_args a'"
  by (auto simp: check_port_def plain_args_def case_prod_beta Let_def split: if_splits)

lemma plain_args_init: "plain_args arguments_init"
  by (simp add: plain_args_def arguments_init_def plain_word_def is_space_def word_or_empty_def)

lemma check_arguments_printed:
  assumes "check_arguments use_ssl b files cl a0 = Some (Exit_Success (Config_Text t))" "plain_args a0"
  shows "\<exists>a. t = make_config_options_output use_ssl a \<and> args_ok use_ssl a \<and> printable_args use_ssl a"
proof -
  have x: "startup_then r f = Exit_Success (Config_Text t) \<longleftrightarrow>
      r = Exit_Success (Config_Text t) \<or> (\<exists>a. r = Proceed a \<and> f a = Exit_Success (Config_Text t))"
    for r :: "arguments startup" and f :: "arguments \<Rightarrow> arguments startup"
    by (cases r) auto
  have no: "check_port cl a \<noteq> Exit_Success (Config_Text t)"
    "check_rest use_ssl cl a \<noteq> Exit_Success (Config_Text t)"
    "read_config_file use_ssl files f a \<noteq> Some (Exit_Success (Config_Text t))" for a f
    by (auto simp: check_port_def check_rest_def read_config_file_def Let_def
        split: prod.splits if_splits option.splits)
  obtain a1 a2 a where a: "check_port cl a1 = Proceed a2" "check_rest use_ssl cl a2 = Proceed a"
    "t = make_config_options_output use_ssl a" and a1: "plain_args a1"
    using assms
    by (auto simp: check_arguments_def bind_Some_iff x no dest: plain_args_read split: if_splits prod.splits)
  have ok: "args_ok use_ssl a"
    using check_port_bounds [OF a(1)] check_rest_ok [OF a(2)] by (simp add: args_ok_def)
  moreover have "plain_args a" by (rule plain_args_rest [OF a(2) plain_args_port [OF a(1) a1]])
  ultimately show ?thesis
    using a(3) by (auto simp: printable_args_def plain_args_def args_ok_def word_or_empty_def)
qed

text \<open>The command line \<open>prog -o file\<close>, as the parser answers for it.\<close>

definition config_run :: "string \<Rightarrow> string \<Rightarrow> cmdline" where
  "config_run prog file = \<lparr>cl_flag = (\<lambda>_. False),
     cl_param = (\<lambda>names. if names = [''-o'', ''--config''] then Some file else None), cl_pos = [prog]\<rparr>"

lemma config_run_sel [simp]:
  "\<not> cl_flag (config_run prog file) names" "cl_pos (config_run prog file) = [prog]"
  "param_or (config_run prog file) [''-a'', ''--addr''] d = open_in d"
  "param_or (config_run prog file) [''-t'', ''--threads''] d = open_in d"
  "param_stream (config_run prog file) [''-o'', ''--config''] = open_in file"
  "\<not> is_good (param_stream (config_run prog file) [''-k'', ''--key''])"
  "\<not> is_good (param_stream (config_run prog file) [''-c'', ''--cert''])"
  by (simp_all add: config_run_def param_or_def param_stream_def is_good_def)

lemma in_word_whole: "plain_word w \<Longrightarrow> in_word old (open_in w) = (w, in_left [])"
  using in_word_open [of "[]" w "[]" old] by simp

lemma in_int_whole: "in_int old (open_in (show_int (sint (x :: u32)))) = (x, in_left [])"
proof -
  have "- (2 ^ 31) \<le> sint x" "sint x < 2 ^ 31" using sint_ge [of x] sint_lt [of x] by simp_all
  then show ?thesis using in_int_open [of "[]" "sint x" "[]" old] by simp
qed

lemma in_left_not_failed [simp]: "\<not> is_failed (in_left r)"
  by (simp add: in_left_def)

lemma check_arguments_config_run:
  assumes "plain_word file"
  shows "check_arguments use_ssl b files (config_run prog file) a =
    map_option (\<lambda>r. startup_then r (\<lambda>a. startup_then (check_port (config_run prog file) a)
      (check_rest use_ssl (config_run prog file)))) (read_config_file use_ssl files file a)"
proof -
  have "startup_then x Proceed = x" for x :: "arguments startup" by (cases x) simp_all
  then show ?thesis
    by (simp add: check_arguments_def in_word_whole [OF assms] map_conv_bind_option comp_def)
qed

lemma check_config_run:
  assumes "args_ok use_ssl a" "plain_word (ar_addr a)"
  shows "check_port (config_run prog file) a = Proceed a" "check_rest use_ssl (config_run prog file) a = Proceed a"
proof -
  have "ar_port a \<noteq> 0" using assms(1) by (auto simp: args_ok_def)
  with assms show "check_port (config_run prog file) a = Proceed a"
    "check_rest use_ssl (config_run prog file) a = Proceed a"
    by (simp_all add: check_port_def check_rest_def args_ok_def INVALID_PORT_def in_word_whole
        in_int_whole not_good_sticky case_prod_beta Let_def)
qed

text \<open>
  C35: The configuration a run prints is one a later run can be started from: when a run with
  the option \<open>-o\<close> alone prints a text, then a run that is given a file with this text
  and nothing else starts with the arguments the first run had (the two file names of SSL are
  printed and read only in a build with SSL).
\<close>

theorem config_output_roundtrip:
  assumes "check_arguments use_ssl b files cl arguments_init = Some (Exit_Success (Config_Text t))"
    and "files' file = Some t" "plain_word file"
  shows "\<exists>a. t = make_config_options_output use_ssl a \<and> args_ok use_ssl a \<and>
    check_arguments use_ssl b files' (config_run prog file) arguments_init =
      Some (Proceed (args_read use_ssl a arguments_init))"
proof -
  obtain a where a: "t = make_config_options_output use_ssl a" "args_ok use_ssl a" "printable_args use_ssl a"
    using check_arguments_printed [OF assms(1) plain_args_init] by blast
  let ?a = "args_read use_ssl a arguments_init"
  have "read_config_file use_ssl files' file arguments_init = Some (Proceed ?a)"
    using config_loop_printed [OF a(3), of "[]" "[]" arguments_init] assms(2)
    by (auto simp: read_config_file_def a(1) config_loop_end)
  moreover have "args_ok use_ssl ?a" "plain_word (ar_addr ?a)"
    using a(2,3) by (simp_all add: args_ok_def args_read_def printable_args_def)
  ultimately show ?thesis
    using a(1,2) by (auto simp: check_arguments_config_run [OF assms(3)] check_config_run)
qed

section \<open>A value that is no number\<close>

lemma config_attr_failed:
  "is_failed s \<Longrightarrow> config_attr use_ssl attr s a = (a, s)"
  by (simp add: config_attr_def not_good_sticky is_good_def)

lemma config_loop_stuck:
  assumes "is_failed s" "\<not> is_eof s"
  shows "config_loop use_ssl s attr a = None"
proof (rule ccontr)
  assume "config_loop use_ssl s attr a \<noteq> None"
  then obtain a' where a': "config_loop use_ssl s attr a = Some a'" by auto
  have "\<not> (is_failed s \<and> \<not> is_eof s)"
  proof (rule config_loop.raw_induct [where P = "\<lambda>use_ssl s attr a a'. \<not> (is_failed s \<and> \<not> is_eof s)",
        OF _ a'], goal_cases)
    case (1 f use_ssl s attr a a')
    show ?case
    proof
      assume s: "is_failed s \<and> \<not> is_eof s"
      then have "\<not> is_good s" by (simp add: is_good_def)
      with 1(2) s have "f use_ssl s attr a = Some a'"
        by (simp add: not_good_sticky config_attr_failed split: if_splits)
      with 1(1) s show False by blast
    qed
  qed
  with assms show False by simp
qed

text \<open>A character an integer extraction stops at without a value.\<close>

definition no_number :: "char \<Rightarrow> bool" where
  "no_number c = (\<not> is_space c \<and> \<not> is_digit c \<and> c \<noteq> CHR ''-'' \<and> c \<noteq> CHR ''+'')"

lemma in_int_no_number:
  assumes "blanks v" "no_number c"
  shows "in_int old (open_in (v @ c # r)) = (0, (open_in (c # r))\<lparr>is_failed := True\<rparr>)"
proof -
  have s: "in_sentry (open_in (v @ c # r)) = (True, open_in (c # r))"
    using sentry_open [OF assms(1), of "c # r"] assms(2) by (simp add: no_number_def)
  have "scan_digits (open_in (c # r)) = (False, [], open_in (c # r))"
    using assms(2) by (simp add: scan_digits_def scan_sign_def no_number_def open_in_def)
  then show ?thesis by (simp add: in_int_def s)
qed


section \<open>Witnesses\<close>

definition no_apps :: build_options where
  "no_apps = \<lparr>use_app_echo = 0, use_app_serial = 0, use_app_monitor = 0, use_app_tcp_server = 0,
     use_app_tcp_client = 0, use_app_udp_client = 0, use_app_udp_server = 0, use_ssl_build = False\<rparr>"

text \<open>\<open>xerock 8080\<close>, with the flag \<open>-o\<close> or without.\<close>

definition port_run :: "bool \<Rightarrow> cmdline" where
  "port_run print = \<lparr>cl_flag = (\<lambda>names. print \<and> names = [''-o'', ''--config'']),
     cl_param = (\<lambda>_. None), cl_pos = [''xerock'', ''8080'']\<rparr>"

definition port_args :: arguments where
  "port_args = arguments_init\<lparr>ar_port := 8080\<rparr>"

lemma port_args_ok: "printable_args False port_args"
  by (simp add: printable_args_def port_args_def arguments_init_def plain_word_def is_space_def)

lemma port_run_checked:
  "check_arguments False no_apps files (port_run print) arguments_init =
    Some (if print then Exit_Success (Config_Text (make_config_options_output False port_args))
      else Proceed port_args)"
proof -
  have w: "plain_word ''0.0.0.0''" by (simp add: plain_word_def is_space_def)
  have "in_int 0 (open_in ''8080'') = (8080, in_left [])"
    using in_int_whole [of 0 8080] by (simp add: show_int_def show_nat.simps char_of_def bit_0)
  moreover have "in_int 1 (open_in ''1'') = (1, in_left [])"
    using in_int_whole [of 1 1] by (simp add: show_int_def show_nat.simps char_of_def bit_0)
  moreover have "show_int 1 = ''1''" by (simp add: show_int_def show_nat.simps char_of_def bit_0)
  moreover have "\<not> is_good (param_stream (port_run print) names)" "is_failed (param_stream (port_run print) names)"
    for names by (simp_all add: param_stream_def port_run_def is_good_def)
  moreover have "param_or (port_run print) names d = open_in d" for names d
    by (simp add: param_or_def port_run_def)
  ultimately show ?thesis
    by (simp add: check_arguments_def not_good_sticky check_port_def check_rest_def INVALID_PORT_def
        arguments_init_def port_args_def in_word_whole [OF w] Let_def)
      (simp add: port_run_def INVALID_PORT_def in_word_whole [OF w])
qed

theorem program_start_sound_witness:
  "program_start False no_apps Map.empty (port_run False) Some None None =
     Some (Proceed \<lparr>st_address = ''0.0.0.0'', st_port = 8080, st_workers = 0\<rparr>) \<and>
   (\<exists>a. check_arguments False no_apps Map.empty (port_run False) arguments_init = Some (Proceed a) \<and>
     sint (ar_port a) = 8080)"
proof -
  have p: "program_start False no_apps Map.empty (port_run False) Some None None =
      Some (Proceed \<lparr>st_address = ''0.0.0.0'', st_port = 8080, st_workers = 0\<rparr>)"
    by (simp add: program_start_def port_run_checked)
      (simp add: main_start_def port_args_def arguments_init_def)
  from program_start_sound [OF p] p show ?thesis by auto
qed

theorem config_output_roundtrip_witness:
  "\<exists>a. check_arguments False no_apps [''conf'' \<mapsto> make_config_options_output False port_args]
     (config_run ''xerock'' ''conf'') arguments_init = Some (Proceed a)"
proof -
  have "check_arguments False no_apps Map.empty (port_run True) arguments_init =
      Some (Exit_Success (Config_Text (make_config_options_output False port_args)))"
    by (simp add: port_run_checked)
  moreover have "plain_word ''conf''" by (simp add: plain_word_def is_space_def)
  ultimately show ?thesis
    using config_output_roundtrip [of False no_apps Map.empty "port_run True"
        "make_config_options_output False port_args"
        "[''conf'' \<mapsto> make_config_options_output False port_args]" "''conf''" "''xerock''"]
    by auto
qed


end
