(* ===== verification/Proc_Info.thy ===== *)
theory Proc_Info
  imports Streams
begin

text \<open>
  What the program reads of a process in \<open>/proc\<close>,
  \<open>src/src/libs/system_info/src/proc_info_unix.cpp\<close>.  The file system is a
  parameter: the text of a file that can be opened, the names in a directory, whether a
  path exists, and the identifier of the own process.  It is looked at as it is during one
  call.  An exception that leaves a \<open>noexcept\<close> function (a directory that is
  not there) and a call of \<open>atol\<close> outside its contract are \<open>None\<close>.
  The functions over \<open>double\<close> are in the theory \<open>Percent\<close>.
\<close>

section \<open>Data\<close>

record proc_fs =
  pf_file :: "string \<Rightarrow> string option"
  pf_dir :: "string \<Rightarrow> string list option"
  pf_exists :: "string \<Rightarrow> bool"
  pf_self :: u32

record Memory_Usage =
  mu_total :: u64
  mu_rss :: u64
  mu_shared :: u64
  mu_text :: u64
  mu_data :: u64

record CPU_Usage =
  cu_utime :: u64
  cu_stime :: u64
  cu_cutime :: u64
  cu_cstime :: u64
  cu_starttime :: u64

record Memory_Peak_Usage =
  mp_mem_peak :: u64
  mp_virtual_mem_peak :: u64

record Process_Info =
  pi_pid :: u32
  pi_ppid :: u32
  pi_usage :: Memory_Usage
  pi_cusage :: CPU_Usage
  pi_cmd :: "string list"
  pi_tpid :: "u32 list"
  pi_tcusage :: "CPU_Usage list"

definition process_info_clear :: "Process_Info \<Rightarrow> Process_Info" where
  "process_info_clear i = i\<lparr>pi_cmd := [], pi_tpid := [], pi_tcusage := []\<rparr>"

section \<open>Reading the files\<close>

definition memory_usage :: "proc_fs \<Rightarrow> string \<Rightarrow> Memory_Usage \<Rightarrow> (bool \<times> Memory_Usage) option" where
  "memory_usage F base u =
     (case pf_file F (base @ ''/statm'') of
        None \<Rightarrow> Some (False, u)
      | Some t \<Rightarrow> do {
          let (input, s) = in_word [] (open_in t);
          total \<leftarrow> atol input;
          let (input, s) = in_word input s;
          rss \<leftarrow> atol input;
          let (input, s) = in_word input s;
          shared \<leftarrow> atol input;
          let (input, s) = in_word input s;
          text \<leftarrow> atol input;
          let (input, s) = in_word input s;
          let (input, s) = in_word input s;
          dat \<leftarrow> atol input;
          Some (True, \<lparr>mu_total = total, mu_rss = rss, mu_shared = shared, mu_text = text,
            mu_data = dat\<rparr>) })"

definition cpu_usage_base :: "proc_fs \<Rightarrow> string \<Rightarrow> CPU_Usage \<Rightarrow> (bool \<times> CPU_Usage) option" where
  "cpu_usage_base F base u =
     (case pf_file F (base @ ''/stat'') of
        None \<Rightarrow> Some (False, u)
      | Some t \<Rightarrow> do {
          let s = ignore_n 13 CHR '' '' (open_in t);
          let (input, s) = in_word [] s;
          ut \<leftarrow> atol input;
          let (input, s) = in_word input s;
          st \<leftarrow> atol input;
          let (input, s) = in_word input s;
          cut \<leftarrow> atol input;
          let (input, s) = in_word input s;
          cst \<leftarrow> atol input;
          let s = ignore_n 5 CHR '' '' s;
          let (input, s) = in_word input s;
          start \<leftarrow> atol input;
          Some (True, \<lparr>cu_utime = ut, cu_stime = st, cu_cutime = cut, cu_cstime = cst,
            cu_starttime = start\<rparr>) })"

text \<open>The loop \<open>while(in >> c)\<close> over the command line.\<close>

function cmd_loop :: "istream \<Rightarrow> string \<Rightarrow> string list \<Rightarrow> string list" where
  "cmd_loop s arg cmd =
     (case in_char s of
        (None, s) \<Rightarrow> cmd
      | (Some c, s) \<Rightarrow>
          if c = CHR 0x00 then cmd_loop s [] (cmd @ [arg]) else cmd_loop s (arg @ [c]) cmd)"
  by pat_completeness auto

lemma in_char_shorter:
  assumes "in_char s = (Some c, s')"
  shows "length (is_rest s') < length (is_rest s)"
proof -
  have l: "length (dropWhile is_space (is_rest s)) \<le> length (is_rest s)" by (rule length_dropWhile_le)
  from assms have "dropWhile is_space (is_rest s) \<noteq> []"
    "is_rest s' = tl (dropWhile is_space (is_rest s))"
    by (auto simp: in_char_def in_sentry_def Let_def split: if_splits)
  with l show ?thesis by (cases "dropWhile is_space (is_rest s)") auto
qed

termination cmd_loop
  by (relation "measure (\<lambda>(s, _, _). length (is_rest s))") (auto dest: in_char_shorter [OF sym])

declare cmd_loop.simps [simp del]

text \<open>
  \<open>get_process_info\<close>, with the body of its loop over the threads; \<open>junk\<close> is the local
  \<open>usage\<close> of that loop, which starts unassigned.
\<close>

definition thread_usage :: "proc_fs \<Rightarrow> CPU_Usage \<Rightarrow> string \<Rightarrow> u32 \<Rightarrow> CPU_Usage option" where
  "thread_usage F junk base p =
     map_option snd (cpu_usage_base F (base @ ''/task/'' @ show_int (sint p)) junk)"

definition get_process_info ::
  "proc_fs \<Rightarrow> CPU_Usage \<Rightarrow> string \<Rightarrow> Process_Info \<Rightarrow> (bool \<times> Process_Info) option" where
  "get_process_info F junk base info =
     (case pf_file F (base @ ''/cmdline'') of
        None \<Rightarrow> Some (False, info)
      | Some t \<Rightarrow> do {
          let info = info\<lparr>pi_cmd := cmd_loop (open_in t) [] (pi_cmd info)\<rparr>;
          case pf_file F (base @ ''/stat'') of
            None \<Rightarrow> Some (False, info)
          | Some t \<Rightarrow> do {
              let info = info\<lparr>pi_ppid := fst (in_int (pi_ppid info) (ignore_n 3 CHR '' '' (open_in t)))\<rparr>;
              names \<leftarrow> pf_dir F (base @ ''/task'');
              tids \<leftarrow> map_opt atoi names;
              let info = info\<lparr>pi_tpid := pi_tpid info @ tids\<rparr>;
              (_, mu) \<leftarrow> memory_usage F base (pi_usage info);
              (_, cu) \<leftarrow> cpu_usage_base F base (pi_cusage info);
              tcu \<leftarrow> map_opt (thread_usage F junk base) (pi_tpid info);
              Some (True, info\<lparr>pi_usage := mu, pi_cusage := cu,
                pi_tcusage := pi_tcusage info @ tcu\<rparr>) } })"

definition proc_path :: "u32 \<Rightarrow> string" where
  "proc_path pid = ''/proc/'' @ show_int (sint pid)"

definition process_info ::
  "proc_fs \<Rightarrow> CPU_Usage \<Rightarrow> Process_Info \<Rightarrow> (bool \<times> Process_Info) option" where
  "process_info F junk info =
     get_process_info F junk (proc_path (pf_self F)) (info\<lparr>pi_pid := pf_self F\<rparr>)"

definition process_info_of ::
  "proc_fs \<Rightarrow> CPU_Usage \<Rightarrow> u32 \<Rightarrow> Process_Info \<Rightarrow> (bool \<times> Process_Info) option" where
  "process_info_of F junk pid info =
     (if \<not> pf_exists F (proc_path pid) then Some (False, info)
      else get_process_info F junk (proc_path pid) info)"

section \<open>Processor time\<close>

definition cpu_usage_diff :: "CPU_Usage \<Rightarrow> CPU_Usage \<Rightarrow> bool \<Rightarrow> u64" where
  "cpu_usage_diff start fin use_child_time =
     (cu_utime fin - cu_utime start) + (cu_stime fin - cu_stime start) +
     (if use_child_time
      then (cu_cutime fin - cu_cutime start) + (cu_cstime fin - cu_cstime start) else 0)"

definition cpu_usage_total :: "Process_Info \<Rightarrow> bool \<Rightarrow> u64" where
  "cpu_usage_total info use_child_time =
     cu_utime (pi_cusage info) + cu_stime (pi_cusage info) +
     (if use_child_time then cu_cutime (pi_cusage info) + cu_cstime (pi_cusage info) else 0)"

text \<open>
  \<open>cpu_usage\<close> of a process identifier, now and during a time; \<open>F'\<close> is the file
  system after the sleep.  A failure is the value \<open>-1\<close> converted to unsigned.
\<close>

definition cpu_usage_pid ::
  "proc_fs \<Rightarrow> CPU_Usage \<Rightarrow> Process_Info \<Rightarrow> u32 \<Rightarrow> bool \<Rightarrow> u64 option" where
  "cpu_usage_pid F junk info pid use_child_time = do {
     (ok, info) \<leftarrow> process_info F junk (info\<lparr>pi_pid := pid\<rparr>);
     Some (if ok then cpu_usage_total info use_child_time else - 1) }"

definition cpu_usage_during ::
  "proc_fs \<Rightarrow> proc_fs \<Rightarrow> CPU_Usage \<Rightarrow> Process_Info \<Rightarrow> u32 \<Rightarrow> u32 \<Rightarrow> bool \<Rightarrow> u64 option" where
  "cpu_usage_during F F' junk info pid duration use_child_time =
     (if duration = 0 then Some (- 1)
      else do {
        (ok, start) \<leftarrow> process_info_of F junk pid info;
        if \<not> ok then Some (- 1) else do {
        (ok, fin) \<leftarrow> process_info_of F' junk pid info;
        Some (if ok then cpu_usage_diff (pi_cusage start) (pi_cusage fin) use_child_time else - 1) } })"

section \<open>Peak memory\<close>

text \<open>
  The condition of the loop names the constant \<open>in.eofbit\<close>, which is not 0, where
  it means the state of the stream, so only the two flags can end it.  \<open>None\<close> is a
  loop that does not end.
\<close>

partial_function (option) peak_loop ::
  "istream \<Rightarrow> Memory_Peak_Usage \<Rightarrow> bool \<Rightarrow> bool \<Rightarrow> Memory_Peak_Usage option" where
  "peak_loop s p flag_vm flag_rss =
     (let (input, s) = in_word [] s;
          (v, s1) = in_ulong (mp_mem_peak p) s;
          (p, flag_rss, s) =
            (if input = ''VmHWM:'' then (p\<lparr>mp_mem_peak := v\<rparr>, False, s1) else (p, flag_rss, s));
          (v, s1) = in_ulong (mp_virtual_mem_peak p) s;
          (p, flag_vm, s) =
            (if input = ''VmPeak:'' then (p\<lparr>mp_virtual_mem_peak := v\<rparr>, False, s1) else (p, flag_vm, s));
          s = in_ignore CHR 0x0A s
      in if flag_vm \<or> flag_rss then peak_loop s p flag_vm flag_rss else Some p)"

definition memory_peak_usage ::
  "proc_fs \<Rightarrow> u32 \<Rightarrow> Memory_Peak_Usage \<Rightarrow> (bool \<times> Memory_Peak_Usage) option" where
  "memory_peak_usage F pid peak =
     (case pf_file F (proc_path pid @ ''/status'') of
        None \<Rightarrow> Some (False, peak)
      | Some t \<Rightarrow> map_option (Pair True) (peak_loop (open_in t) peak True True))"

section \<open>Fields separated by spaces\<close>

definition spaced :: "string list \<Rightarrow> string" where
  "spaced ws = concat (map (\<lambda>w. w @ '' '') ws)"

lemma spaced_simps [simp]:
  "spaced [] = []" "spaced (w # ws) = w @ '' '' @ spaced ws" "spaced (ws @ vs) = spaced ws @ spaced vs"
  by (simp_all add: spaced_def)

lemma plain_no_space: "plain_word w \<Longrightarrow> CHR '' '' \<notin> set w"
  by (auto simp: plain_word_def)

lemma ignore_n_spaced:
  assumes "\<forall>w\<in>set ws. plain_word w"
  shows "ignore_n (length ws) CHR '' '' (open_in (spaced ws @ r)) = open_in r"
  using assms
  by (induction ws) (simp_all add: in_ignore_open plain_no_space del: open_in_sel)

lemma ignore_n_spaced_eq:
  assumes "length ws = n" "\<forall>w\<in>set ws. plain_word w"
  shows "ignore_n n CHR '' '' (open_in (spaced ws @ r)) = open_in r"
  using ignore_n_spaced [OF assms(2)] assms(1) by simp

lemma in_word_field:
  "plain_word w \<Longrightarrow> in_word old (open_in (w @ '' '' @ r)) = (w, open_in ('' '' @ r))"
  "plain_word w \<Longrightarrow> in_word old (open_in ('' '' @ w @ '' '' @ r)) = (w, open_in ('' '' @ r))"
  using in_word_open [of "[]" w "'' '' @ r" old] in_word_open [of "'' ''" w "'' '' @ r" old]
  by simp_all

lemma cpu_usage_fields:
  assumes "pf_file F (base @ ''/stat'') = Some (spaced (hs @ [a, b, c, d] @ ms @ [e]) @ r)"
    and len: "length hs = 13" "length ms = 4" and p: "\<forall>w\<in>set (hs @ [a, b, c, d] @ ms @ [e]). plain_word w"
  shows "cpu_usage_base F base u = do {
    ut \<leftarrow> atol a; st \<leftarrow> atol b; cut \<leftarrow> atol c; cst \<leftarrow> atol d; start \<leftarrow> atol e;
    Some (True, \<lparr>cu_utime = ut, cu_stime = st, cu_cutime = cut, cu_cstime = cst, cu_starttime = start\<rparr>) }"
proof -
  have p': "plain_word a" "plain_word b" "plain_word c" "plain_word d" "plain_word e"
    "\<forall>w\<in>set hs. plain_word w" "\<forall>w\<in>set ms. plain_word w" using p by simp_all
  have i: "ignore_n 13 CHR '' '' (open_in (spaced hs @ x)) = open_in x" for x
    by (rule ignore_n_spaced_eq [OF len(1) p'(6)])
  have "ignore_n 5 CHR '' '' (open_in ('' '' @ spaced ms @ x)) =
      ignore_n 4 CHR '' '' (in_ignore CHR '' '' (open_in ([] @ CHR '' '' # spaced ms @ x)))" for x
    by (simp add: eval_nat_numeral)
  then have j: "ignore_n 5 CHR '' '' (open_in ('' '' @ spaced ms @ x)) = open_in x" for x
    by (simp only: in_ignore_open ignore_n_spaced_eq [OF len(2) p'(7)] list.set empty_iff simp_thms)
  have t: "spaced (hs @ [a, b, c, d] @ ms @ [e]) @ r =
      spaced hs @ a @ '' '' @ b @ '' '' @ c @ '' '' @ d @ '' '' @ spaced ms @ e @ '' '' @ r"
    by simp
  show ?thesis
    unfolding cpu_usage_base_def assms(1) t
    by (simp only: option.case i j in_word_field p' Let_def prod.case)
qed

lemma memory_usage_fields:
  assumes "pf_file F (base @ ''/statm'') = Some (spaced [a, b, c, d, e, f] @ r)"
    and p: "\<forall>w\<in>set [a, b, c, d, e, f]. plain_word w"
  shows "memory_usage F base u = do {
    total \<leftarrow> atol a; rss \<leftarrow> atol b; shared \<leftarrow> atol c; text \<leftarrow> atol d; dat \<leftarrow> atol f;
    Some (True, \<lparr>mu_total = total, mu_rss = rss, mu_shared = shared, mu_text = text, mu_data = dat\<rparr>) }"
proof -
  have p': "plain_word a" "plain_word b" "plain_word c" "plain_word d" "plain_word e" "plain_word f"
    using p by simp_all
  have t: "spaced [a, b, c, d, e, f] @ r =
      a @ '' '' @ b @ '' '' @ c @ '' '' @ d @ '' '' @ e @ '' '' @ f @ '' '' @ r" by simp
  show ?thesis
    unfolding memory_usage_def assms(1) t
    by (simp only: option.case in_word_field p' Let_def prod.case)
qed

section \<open>The command line\<close>

lemma in_char_open:
  "in_char (open_in (c # r)) = (if is_space c then in_char (open_in r) else (Some c, open_in r))"
  "in_char (open_in []) = (None, \<lparr>is_rest = [], is_eof = True, is_failed = True\<rparr>)"
  by (simp_all add: in_char_def in_sentry_def open_in_def is_good_def)

lemma cmd_loop_open:
  "cmd_loop (open_in []) arg cmd = cmd"
  "cmd_loop (open_in (c # r)) arg cmd =
     (if is_space c then cmd_loop (open_in r) arg cmd
      else if c = CHR 0x00 then cmd_loop (open_in r) [] (cmd @ [arg])
      else cmd_loop (open_in r) (arg @ [c]) cmd)"
  by (simp_all add: cmd_loop.simps [of "open_in []"] cmd_loop.simps [of "open_in (c # r)"] in_char_open
      cmd_loop.simps [of "open_in r" arg])

lemma cmd_loop_arg:
  assumes "CHR 0x00 \<notin> set a"
  shows "cmd_loop (open_in (a @ CHR 0x00 # r)) arg cmd =
    cmd_loop (open_in r) [] (cmd @ [arg @ filter (\<lambda>c. \<not> is_space c) a])"
  using assms by (induction a arbitrary: arg) (auto simp: cmd_loop_open is_space_def)

lemma cmd_loop_args:
  assumes "\<forall>a\<in>set args. CHR 0x00 \<notin> set a"
  shows "cmd_loop (open_in (concat (map (\<lambda>a. a @ [CHR 0x00]) args))) [] cmd =
    cmd @ map (filter (\<lambda>c. \<not> is_space c)) args"
  using assms by (induction args arbitrary: cmd) (simp_all add: cmd_loop_open cmd_loop_arg)

section \<open>What the kernel writes\<close>

text \<open>
  The reference, after proc(5): the line of \<open>stat\<close> is the identifier, the command
  name in parentheses, the state and a list of numbers, of which the first is the parent,
  those at 10 to 13 the four times and the one at 18 the start time.
\<close>

record stat_entry =
  se_pid :: int
  se_comm :: string
  se_state :: string
  se_nums :: "int list"

record proc_entry =
  pe_args :: "string list"
  pe_stat :: stat_entry
  pe_mem :: "int list"
  pe_tasks :: "(int \<times> stat_entry) list"

definition number_line :: "string list \<Rightarrow> int list \<Rightarrow> string" where
  "number_line ws ns = spaced (ws @ map show_int (butlast ns)) @ show_int (last ns) @ [CHR 0x0A]"

definition stat_line :: "stat_entry \<Rightarrow> string" where
  "stat_line x = number_line [show_int (se_pid x), ''('' @ se_comm x @ '')'', se_state x] (se_nums x)"

definition stat_usage :: "int list \<Rightarrow> CPU_Usage" where
  "stat_usage ns = \<lparr>cu_utime = word_of_int (ns ! 10), cu_stime = word_of_int (ns ! 11),
     cu_cutime = word_of_int (ns ! 12), cu_cstime = word_of_int (ns ! 13),
     cu_starttime = word_of_int (ns ! 18)\<rparr>"

definition mem_usage :: "int list \<Rightarrow> Memory_Usage" where
  "mem_usage ns = \<lparr>mu_total = word_of_int (ns ! 0), mu_rss = word_of_int (ns ! 1),
     mu_shared = word_of_int (ns ! 2), mu_text = word_of_int (ns ! 3), mu_data = word_of_int (ns ! 5)\<rparr>"

definition in_bits :: "nat \<Rightarrow> int \<Rightarrow> bool" where
  "in_bits w i = (- (2 ^ (w - 1)) \<le> i \<and> i < 2 ^ (w - 1))"

text \<open>The numbers are those of the machine; the command name has no white space.\<close>

definition stat_ok :: "stat_entry \<Rightarrow> bool" where
  "stat_ok x = (plain_word (''('' @ se_comm x @ '')'') \<and> plain_word (se_state x) \<and> 19 < length (se_nums x) \<and>
     in_bits 32 (se_nums x ! 0) \<and> (\<forall>i\<in>{10, 11, 12, 13, 18}. in_bits 64 (se_nums x ! i)))"

definition entry_ok :: "proc_entry \<Rightarrow> bool" where
  "entry_ok e = ((\<forall>a\<in>set (pe_args e). CHR 0x00 \<notin> set a) \<and> stat_ok (pe_stat e) \<and>
     length (pe_mem e) = 7 \<and> (\<forall>i\<in>set (pe_mem e). in_bits 64 i) \<and>
     (\<forall>t\<in>set (pe_tasks e). in_bits 32 (fst t) \<and> stat_ok (snd t)))"

text \<open>The directory \<open>base\<close> of the file system shows the entry.\<close>

definition proc_shows :: "proc_fs \<Rightarrow> string \<Rightarrow> proc_entry \<Rightarrow> bool" where
  "proc_shows F base e =
     (pf_file F (base @ ''/cmdline'') = Some (concat (map (\<lambda>a. a @ [CHR 0x00]) (pe_args e))) \<and>
      pf_file F (base @ ''/stat'') = Some (stat_line (pe_stat e)) \<and>
      pf_file F (base @ ''/statm'') = Some (number_line [] (pe_mem e)) \<and>
      pf_dir F (base @ ''/task'') = Some (map (\<lambda>t. show_int (fst t)) (pe_tasks e)) \<and>
      (\<forall>t\<in>set (pe_tasks e). pf_file F (base @ ''/task/'' @ show_int (fst t) @ ''/stat'') =
         Some (stat_line (snd t))))"

section \<open>Reading the numbers\<close>

lemma c_strtol_show:
  assumes "in_bits w i"
  shows "c_strtol w (show_int i) = Some i"
proof -
  have p: "plain_word (show_int i)" by simp
  have "c_str (show_int i) = show_int i"
    by (intro c_str_id)
      (use show_nat_digits in \<open>auto simp: show_int_def dest: digit_not_sign split: if_splits\<close>)
  moreover have "dropWhile is_space (show_int i) = show_int i"
    using conjunct1 [OF plain_word_stops [OF p, of "[]"]] by (simp only: append_Nil2 stops_none)
  ultimately have "c_strtol w (show_int i) =
      (let (neg, r) = scan_sign (show_int i); n = dec_value (takeWhile is_digit r);
         v = if neg then - n else n
       in if - (2 ^ (w - 1)) \<le> v \<and> v < 2 ^ (w - 1) then Some v else None)"
    by (simp add: c_strtol_def)
  moreover have "scan_sign (show_int i) = (i < 0, show_nat (nat \<bar>i\<bar>))"
    using scan_sign_show [of i "[]"] by simp
  moreover have "(if i < 0 then - dec_value (show_nat (nat \<bar>i\<bar>)) else dec_value (show_nat (nat \<bar>i\<bar>))) = i"
    by (simp add: dec_value_show)
  ultimately show ?thesis using assms by (simp add: in_bits_def)
qed

lemma atol_show [simp]: "in_bits 64 i \<Longrightarrow> atol (show_int i) = Some (word_of_int i)"
  by (simp add: atol_def c_strtol_show)

lemma atoi_show [simp]: "in_bits 32 i \<Longrightarrow> atoi (show_int i) = Some (word_of_int i)"
  by (simp add: atoi_def c_strtol_show)

lemma sint_in_bits [simp]: "in_bits 32 i \<Longrightarrow> sint (word_of_int i :: u32) = i"
  by (simp add: in_bits_def sint_sbintrunc' signed_take_bit_int_eq_self)

section \<open>The readers against the reference\<close>

lemma split_numbers:
  assumes "22 \<le> length b"
  shows "b = (take 13 b @ [b ! 13, b ! 14, b ! 15, b ! 16] @ take 4 (drop 17 b) @ [b ! 21]) @ drop 22 b"
proof -
  have d: "drop n b = b ! n # drop (Suc n) b" if "n < 22" for n
    using assms that by (simp add: Cons_nth_drop_Suc)
  have "drop 13 b = [b ! 13, b ! 14, b ! 15, b ! 16] @ drop 17 b"
    by (simp add: d eval_nat_numeral)
  moreover have "drop 17 b = take 4 (drop 17 b) @ drop 21 b"
    using append_take_drop_id [of 4 "drop 17 b"] by simp
  moreover have "drop 21 b = [b ! 21] @ drop 22 b" using d [of 21] by simp
  ultimately show ?thesis using append_take_drop_id [of 13 b] by simp
qed

lemma cpu_usage_words:
  assumes f: "pf_file F (base @ ''/stat'') = Some (spaced b @ r)"
    and b: "22 \<le> length b" "\<forall>w\<in>set b. plain_word w"
  shows "cpu_usage_base F base u = do {
    ut \<leftarrow> atol (b ! 13); st \<leftarrow> atol (b ! 14); cut \<leftarrow> atol (b ! 15); cst \<leftarrow> atol (b ! 16);
    start \<leftarrow> atol (b ! 21);
    Some (True, \<lparr>cu_utime = ut, cu_stime = st, cu_cutime = cut, cu_cstime = cst, cu_starttime = start\<rparr>) }"
proof -
  let ?w = "take 13 b @ [b ! 13, b ! 14, b ! 15, b ! 16] @ take 4 (drop 17 b) @ [b ! 21]"
  have e: "b = ?w @ drop 22 b" by (rule split_numbers [OF b(1)])
  have "spaced b @ r = spaced ?w @ spaced (drop 22 b) @ r"
    using arg_cong [OF e, of spaced] by simp
  then have f': "pf_file F (base @ ''/stat'') = Some (spaced ?w @ spaced (drop 22 b) @ r)"
    using f by simp
  have "set ?w \<subseteq> set b" using arg_cong [OF e, of set] by auto
  then have p: "\<forall>w\<in>set ?w. plain_word w" using b(2) by blast
  show ?thesis by (rule cpu_usage_fields [OF f' _ _ p]) (use b(1) in simp_all)
qed

text \<open>
  For a head of words that is longer by \<open>k\<close> than the one \<open>stat\<close> has before its
  numbers, the numbers read are those at \<open>10 - k\<close> and so on.
\<close>

lemma cpu_usage_shifted:
  assumes f: "pf_file F (base @ ''/stat'') = Some (number_line hs ns)"
    and h: "length hs = 3 + k" "k \<le> 10" "\<forall>w\<in>set hs. plain_word w"
    and n: "19 < length ns" "\<forall>i\<in>{10, 11, 12, 13, 18}. in_bits 64 (ns ! (i - k))"
  shows "cpu_usage_base F base u = Some (True, \<lparr>cu_utime = word_of_int (ns ! (10 - k)),
    cu_stime = word_of_int (ns ! (11 - k)), cu_cutime = word_of_int (ns ! (12 - k)),
    cu_cstime = word_of_int (ns ! (13 - k)), cu_starttime = word_of_int (ns ! (18 - k))\<rparr>)"
proof -
  let ?b = "hs @ map show_int (butlast ns)"
  have f': "pf_file F (base @ ''/stat'') = Some (spaced ?b @ show_int (last ns) @ [CHR 0x0A])"
    using f by (simp add: number_line_def)
  have w: "?b ! (3 + i) = show_int (ns ! (i - k))" if "k \<le> i" "i < 19" for i
    using that h(1,2) n(1) by (simp add: nth_append nth_butlast)
  have "?b ! 13 = show_int (ns ! (10 - k))" "?b ! 14 = show_int (ns ! (11 - k))"
    "?b ! 15 = show_int (ns ! (12 - k))" "?b ! 16 = show_int (ns ! (13 - k))"
    "?b ! 21 = show_int (ns ! (18 - k))"
    using w [of 10] w [of 11] w [of 12] w [of 13] w [of 18] h(2) by simp_all
  moreover have "22 \<le> length ?b" "\<forall>w\<in>set ?b. plain_word w" using h n(1) by auto
  ultimately show ?thesis using n(2) by (simp add: cpu_usage_words [OF f'] del: nth_append_length)
qed

lemma cpu_usage_stat_line:
  assumes "pf_file F (base @ ''/stat'') = Some (stat_line x)" "stat_ok x"
  shows "cpu_usage_base F base u = Some (True, stat_usage (se_nums x))"
  using assms cpu_usage_shifted [of F base _ "se_nums x" 0 u]
  by (simp add: stat_line_def stat_ok_def stat_usage_def)

text \<open>
  A command name with a blank in it shifts everything by one: the times read are those
  of the numbers before.
\<close>

theorem stat_name_with_blank:
  assumes "pf_file F (base @ ''/stat'') = Some (stat_line x)"
    and "se_comm x = v @ '' '' @ w" "plain_word (''('' @ v)" "plain_word (w @ '')'')" "plain_word (se_state x)"
    and "19 < length (se_nums x)" "\<forall>i\<in>{9, 10, 11, 12, 17}. in_bits 64 (se_nums x ! i)"
  shows "\<exists>c. cpu_usage_base F base u = Some (True, c) \<and> cu_utime c = word_of_int (se_nums x ! 9) \<and>
    cu_stime c = word_of_int (se_nums x ! 10) \<and> cu_starttime c = word_of_int (se_nums x ! 17)"
proof -
  let ?hs = "[show_int (se_pid x), ''('' @ v, w @ '')'', se_state x]"
  have "stat_line x = number_line ?hs (se_nums x)"
    by (simp add: stat_line_def number_line_def assms(2))
  then show ?thesis
    using cpu_usage_shifted [of F base ?hs "se_nums x" 1 u] assms by simp
qed

lemma stat_line_ppid:
  assumes "stat_ok x"
  shows "fst (in_int old (ignore_n 3 CHR '' '' (open_in (stat_line x)))) = word_of_int (se_nums x ! 0)"
proof -
  let ?hs = "[show_int (se_pid x), ''('' @ se_comm x @ '')'', se_state x]"
  obtain n ns where ns: "butlast (se_nums x) = n # ns"
    using assms by (cases "butlast (se_nums x)") (auto simp: stat_ok_def dest: arg_cong [of _ _ length])
  then have n: "n = se_nums x ! 0"
    using nth_butlast [of 0 "se_nums x"] by simp
  have i: "ignore_n 3 CHR '' '' (open_in (stat_line x)) =
      open_in (show_int n @ '' '' @ spaced (map show_int ns) @ show_int (last (se_nums x)) @ [CHR 0x0A])"
    using ignore_n_spaced_eq [of ?hs 3] assms
    by (simp add: stat_line_def number_line_def ns stat_ok_def)
  have "in_bits 32 n" using assms n by (simp add: stat_ok_def)
  moreover have "\<not> is_digit CHR '' ''" by (simp add: is_digit_def)
  ultimately show ?thesis
    unfolding i n [symmetric] using in_int_open [of "[]" n] by (simp add: in_bits_def)
qed

lemma memory_usage_line:
  assumes "pf_file F (base @ ''/statm'') = Some (number_line [] ns)"
    and "length ns = 7" "\<forall>i\<in>set ns. in_bits 64 i"
  shows "memory_usage F base u = Some (True, mem_usage ns)"
proof -
  obtain a b c d e f g where "ns = [a, b, c, d, e, f, g]"
    using assms(2) by (auto simp: numeral_eq_Suc length_Suc_conv)
  then show ?thesis
    using assms memory_usage_fields [of F base "show_int a" "show_int b" "show_int c" "show_int d"
        "show_int e" "show_int f" "show_int g @ [CHR 0x0A]" u]
    by (simp add: number_line_def mem_usage_def)
qed

lemma process_info_shown:
  assumes F: "proc_shows F (proc_path (pf_self F)) e" and e: "entry_ok e"
  shows "process_info F junk (process_info_clear info) = Some (True,
    \<lparr>pi_pid = pf_self F, pi_ppid = word_of_int (se_nums (pe_stat e) ! 0),
     pi_usage = mem_usage (pe_mem e), pi_cusage = stat_usage (se_nums (pe_stat e)),
     pi_cmd = map (filter (\<lambda>c. \<not> is_space c)) (pe_args e),
     pi_tpid = map (\<lambda>t. word_of_int (fst t)) (pe_tasks e),
     pi_tcusage = map (\<lambda>t. stat_usage (se_nums (snd t))) (pe_tasks e)\<rparr>)"
proof -
  define base where "base = proc_path (pf_self F)"
  have s: "pf_file F (base @ ''/cmdline'') = Some (concat (map (\<lambda>a. a @ [CHR 0x00]) (pe_args e)))"
    "pf_file F (base @ ''/stat'') = Some (stat_line (pe_stat e))"
    "pf_file F (base @ ''/statm'') = Some (number_line [] (pe_mem e))"
    "pf_dir F (base @ ''/task'') = Some (map (\<lambda>t. show_int (fst t)) (pe_tasks e))"
    and t: "\<And>t. t \<in> set (pe_tasks e) \<Longrightarrow>
      pf_file F ((base @ ''/task/'' @ show_int (fst t)) @ ''/stat'') = Some (stat_line (snd t))"
    using F by (simp_all add: proc_shows_def base_def)
  have cmd: "cmd_loop (open_in (concat (map (\<lambda>a. a @ [CHR 0x00]) (pe_args e)))) [] [] =
      map (filter (\<lambda>c. \<not> is_space c)) (pe_args e)"
    using e cmd_loop_args [of "pe_args e" "[]"] by (simp add: entry_ok_def)
  have tids: "map_opt atoi (map (\<lambda>t. show_int (fst t)) (pe_tasks e)) =
      Some (map (\<lambda>t. word_of_int (fst t)) (pe_tasks e))"
    using e by (intro map_opt_map_total) (simp add: entry_ok_def)
  have mu: "memory_usage F base v = Some (True, mem_usage (pe_mem e))" for v
    using memory_usage_line [OF s(3)] e by (simp add: entry_ok_def)
  have cu: "cpu_usage_base F base v = Some (True, stat_usage (se_nums (pe_stat e)))" for v
    using cpu_usage_stat_line [OF s(2)] e by (simp add: entry_ok_def)
  have tcu: "map_opt (thread_usage F junk base) (map (\<lambda>t. word_of_int (fst t)) (pe_tasks e)) =
      Some (map (\<lambda>t. stat_usage (se_nums (snd t))) (pe_tasks e))"
  proof (rule map_opt_map_total)
    fix x assume x: "x \<in> set (pe_tasks e)"
    then have "in_bits 32 (fst x)" "stat_ok (snd x)" using e by (simp_all add: entry_ok_def)
    then show "thread_usage F junk base (word_of_int (fst x)) = Some (stat_usage (se_nums (snd x)))"
      using cpu_usage_stat_line [OF t [OF x]] by (simp add: thread_usage_def)
  qed
  show ?thesis
    using e
    by (simp add: process_info_def base_def [symmetric] get_process_info_def s process_info_clear_def
        cmd tids mu cu tcu stat_line_ppid entry_ok_def)
qed

text \<open>
  C31: What the program knows of a process is what the kernel shows of it.  For a directory of
  \<open>/proc\<close> whose command names have no blanks, \<open>process_info\<close> into a cleared record
  gives the parent, the memory and processor times, the threads and the times of each of
  them as the reference reading of the files has them; only in the arguments of the command
  line every blank is lost.
\<close>

theorem process_info_reference:
  assumes "proc_shows F (proc_path (pf_self F)) e" "entry_ok e"
  shows "process_info F junk (process_info_clear info) = Some (True,
    \<lparr>pi_pid = pf_self F, pi_ppid = word_of_int (se_nums (pe_stat e) ! 0),
     pi_usage = mem_usage (pe_mem e), pi_cusage = stat_usage (se_nums (pe_stat e)),
     pi_cmd = map (filter (\<lambda>c. \<not> is_space c)) (pe_args e),
     pi_tpid = map (\<lambda>t. word_of_int (fst t)) (pe_tasks e),
     pi_tcusage = map (\<lambda>t. stat_usage (se_nums (snd t))) (pe_tasks e)\<rparr>)"
  by (rule process_info_shown [OF assms])

definition demo_stat :: stat_entry where
  "demo_stat = \<lparr>se_pid = 42, se_comm = ''xerock'', se_state = ''S'',
     se_nums = [7, 1, 1, 0, -1, 0, 5, 0, 0, 0, 11, 12, 13, 14, 20, 0, 1, 0, 99, 4096]\<rparr>"

definition demo_entry :: proc_entry where
  "demo_entry = \<lparr>pe_args = [''xerock'', ''--key=my file''], pe_stat = demo_stat,
     pe_mem = [9, 8, 7, 6, 0, 5, 0], pe_tasks = [(42, demo_stat)]\<rparr>"

definition demo_proc :: proc_fs where
  "demo_proc = (let base = proc_path 42 in
     \<lparr>pf_file = map_of [(base @ ''/cmdline'', concat (map (\<lambda>a. a @ [CHR 0x00]) (pe_args demo_entry))),
        (base @ ''/stat'', stat_line demo_stat), (base @ ''/statm'', number_line [] (pe_mem demo_entry)),
        (base @ ''/task/'' @ show_int 42 @ ''/stat'', stat_line demo_stat)],
      pf_dir = (\<lambda>p. if p = base @ ''/task'' then Some [show_int 42] else None),
      pf_exists = (\<lambda>_. True), pf_self = 42\<rparr>)"

lemma demo_entry_ok: "entry_ok demo_entry"
  by (simp add: entry_ok_def demo_entry_def demo_stat_def stat_ok_def in_bits_def plain_word_def is_space_def)

lemma demo_proc_shows: "proc_shows demo_proc (proc_path 42) demo_entry"
  by (simp add: proc_shows_def demo_proc_def demo_entry_def Let_def)

definition no_info :: Process_Info where
  "no_info = \<lparr>pi_pid = 0, pi_ppid = 0, pi_usage = mem_usage [0, 0, 0, 0, 0, 0],
     pi_cusage = stat_usage (replicate 19 0), pi_cmd = [], pi_tpid = [], pi_tcusage = []\<rparr>"

theorem process_info_reference_witness:
  "map_option (\<lambda>(_, i). (pi_ppid i, cu_utime (pi_cusage i), pi_cmd i))
     (process_info demo_proc (pi_cusage no_info) (process_info_clear no_info)) = Some (7, 11, [''xerock'', ''--key=myfile''])"
proof -
  have self: "pf_self demo_proc = 42" by (simp add: demo_proc_def Let_def)
  then have "proc_shows demo_proc (proc_path (pf_self demo_proc)) demo_entry"
    by (simp add: demo_proc_shows)
  from process_info_reference [OF this demo_entry_ok, of "pi_cusage no_info" no_info] show ?thesis
    by (simp add: demo_entry_def demo_stat_def stat_usage_def is_space_def)
qed

text \<open>\<open>cpu_usage\<close> of another process gives the time of the own one.\<close>

theorem cpu_usage_pid_ignores:
  "cpu_usage_pid F junk info pid child = cpu_usage_pid F junk info pid' child"
  by (simp add: cpu_usage_pid_def process_info_def)

section \<open>Peak memory of a process\<close>

text \<open>
  The lines of \<open>status\<close>: a key that ends in a colon, and the rest of the line.
\<close>

definition status_text :: "(string \<times> string) list \<Rightarrow> string" where
  "status_text ls = concat (map (\<lambda>(k, r). k @ r @ [CHR 0x0A]) ls)"

definition status_ok :: "(string \<times> string) list \<Rightarrow> bool" where
  "status_ok ls = (distinct (map fst ls) \<and> (\<forall>(k, r)\<in>set ls. plain_word k \<and>
     stops (\<lambda>c. \<not> is_space c) r \<and> CHR 0x0A \<notin> set r \<and>
     (k \<in> {''VmHWM:'', ''VmPeak:''} \<longrightarrow>
        number_of_rest r \<noteq> [] \<and> dec_value (number_of_rest r) < 2 ^ 64)))"

text \<open>On a stream that is not good any more the loop never ends.\<close>

lemma peak_loop_stuck:
  assumes "\<not> is_good s" "flag_vm \<or> flag_rss"
  shows "peak_loop s p flag_vm flag_rss = None"
proof (rule ccontr)
  assume "peak_loop s p flag_vm flag_rss \<noteq> None"
  then obtain y where y: "peak_loop s p flag_vm flag_rss = Some y" by auto
  have "is_good s \<or> \<not> (flag_vm \<or> flag_rss)"
  proof (rule peak_loop.raw_induct [where P = "\<lambda>s p vm rss y. is_good s \<or> \<not> (vm \<or> rss)", OF _ y],
      goal_cases)
    case (1 f s p vm rss y)
    then show ?case
      using 1(1) [of "s\<lparr>is_failed := True\<rparr>" p vm rss y] by (cases "is_good s"; cases "vm \<or> rss") (simp_all add: not_good_sticky)
  qed
  with assms show False by simp
qed

lemma peak_loop_end:
  assumes "flag_vm \<or> flag_rss"
  shows "peak_loop (open_in []) p flag_vm flag_rss = None"
proof -
  have "in_word [] (open_in []) = ([], \<lparr>is_rest = [], is_eof = True, is_failed = True\<rparr>)"
    using in_word_blank [of "[]"] by simp
  moreover have "\<not> is_good \<lparr>is_rest = [], is_eof = True, is_failed = True\<rparr>" by (simp add: is_good_def)
  ultimately show ?thesis
    using assms by (simp add: peak_loop.simps [of "open_in []"] not_good_sticky peak_loop_stuck
        split: prod.splits)
qed

lemma peak_loop_line:
  assumes k: "plain_word k" "stops (\<lambda>c. \<not> is_space c) r" "CHR 0x0A \<notin> set r"
    and n: "k \<in> {''VmHWM:'', ''VmPeak:''} \<longrightarrow>
      number_of_rest r \<noteq> [] \<and> dec_value (number_of_rest r) < 2 ^ 64"
    and p': "p' = (if k = ''VmHWM:'' then p\<lparr>mp_mem_peak := rest_value r\<rparr>
      else if k = ''VmPeak:'' then p\<lparr>mp_virtual_mem_peak := rest_value r\<rparr> else p)"
    and f: "vm' = (vm \<and> k \<noteq> ''VmPeak:'')" "rss' = (rss \<and> k \<noteq> ''VmHWM:'')"
  shows "peak_loop (open_in (k @ r @ CHR 0x0A # t)) p vm rss =
    (if vm' \<or> rss' then peak_loop (open_in t) p' vm' rss' else Some p')"
proof -
  have st: "stops (\<lambda>c. \<not> is_space c) (r @ CHR 0x0A # t)" using k(2) by (cases r) simp_all
  have w: "in_word [] (open_in (k @ r @ CHR 0x0A # t)) = (k, open_in (r @ CHR 0x0A # t))"
    using in_word_open [of "[]" k "r @ CHR 0x0A # t"] k(1) st by simp
  have i: "in_ignore CHR 0x0A (open_in (r @ CHR 0x0A # t)) = open_in t"
    by (rule in_ignore_open [OF k(3)])
  show ?thesis
  proof (cases "k \<in> {''VmHWM:'', ''VmPeak:''}")
    case True
    then have n': "number_of_rest r \<noteq> []" "dec_value (number_of_rest r) < 2 ^ 64"
      using mp [OF n] by blast+
    obtain s1 where s1: "in_ulong (mp_mem_peak p) (open_in (r @ CHR 0x0A # t)) = (rest_value r, s1)"
      "in_ignore CHR 0x0A s1 = open_in t" by (rule in_ulong_rest [OF k(3) n'])
    obtain s2 where s2: "in_ulong (mp_virtual_mem_peak p) (open_in (r @ CHR 0x0A # t)) = (rest_value r, s2)"
      "in_ignore CHR 0x0A s2 = open_in t" by (rule in_ulong_rest [OF k(3) n'])
    from True consider "(k = ''VmHWM:'') = True" "(k = ''VmPeak:'') = False"
      | "(k = ''VmHWM:'') = False" "(k = ''VmPeak:'') = True" by auto
    then show ?thesis
    proof cases
      case 1
      show ?thesis
        unfolding p' f by (subst peak_loop.simps) (simp add: w 1 s1 split: prod.splits)
    next
      case 2
      show ?thesis
        unfolding p' f by (subst peak_loop.simps) (simp add: w 2 s2 split: prod.splits)
    qed
  next
    case False
    then show ?thesis
      unfolding p' f by (subst peak_loop.simps) (simp add: w i split: prod.splits)
  qed
qed

definition peak_result ::
  "(string \<times> string) list \<Rightarrow> Memory_Peak_Usage \<Rightarrow> bool \<Rightarrow> bool \<Rightarrow> Memory_Peak_Usage" where
  "peak_result ls p vm rss =
     \<lparr>mp_mem_peak = (if rss then rest_value (the (map_of ls ''VmHWM:'')) else mp_mem_peak p),
      mp_virtual_mem_peak =
        (if vm then rest_value (the (map_of ls ''VmPeak:'')) else mp_virtual_mem_peak p)\<rparr>"

lemma peak_result_Cons:
  "peak_result ((k, r) # ls) p vm rss = peak_result ls
     (if k = ''VmHWM:'' \<and> rss then p\<lparr>mp_mem_peak := rest_value r\<rparr>
      else if k = ''VmPeak:'' \<and> vm then p\<lparr>mp_virtual_mem_peak := rest_value r\<rparr> else p)
     (vm \<and> k \<noteq> ''VmPeak:'') (rss \<and> k \<noteq> ''VmHWM:'')"
  by (auto simp: peak_result_def)

lemma peak_result_done: "peak_result ls p False False = p"
  by (simp add: peak_result_def)

lemma status_ok_Cons:
  "status_ok ((k, r) # ls) \<longleftrightarrow> k \<notin> fst ` set ls \<and> plain_word k \<and>
     stops (\<lambda>c. \<not> is_space c) r \<and> CHR 0x0A \<notin> set r \<and>
     (k \<in> {''VmHWM:'', ''VmPeak:''} \<longrightarrow>
        number_of_rest r \<noteq> [] \<and> dec_value (number_of_rest r) < 2 ^ 64) \<and> status_ok ls"
  by (auto simp: status_ok_def)

lemma peak_loop_status:
  assumes "status_ok ls" "vm \<or> rss"
    and "\<not> vm \<longrightarrow> ''VmPeak:'' \<notin> fst ` set ls" "\<not> rss \<longrightarrow> ''VmHWM:'' \<notin> fst ` set ls"
  shows "peak_loop (open_in (status_text ls)) p vm rss =
    (if (vm \<longrightarrow> ''VmPeak:'' \<in> fst ` set ls) \<and> (rss \<longrightarrow> ''VmHWM:'' \<in> fst ` set ls)
     then Some (peak_result ls p vm rss) else None)"
  using assms
proof (induction ls arbitrary: p vm rss)
  case Nil
  then show ?case by (auto simp: status_text_def peak_loop_end)
next
  case (Cons l ls)
  obtain k r where l: "l = (k, r)" by (cases l)
  note ok = Cons.prems(1) [unfolded l status_ok_Cons]
  have k: "plain_word k" "stops (\<lambda>c. \<not> is_space c) r" "CHR 0x0A \<notin> set r"
    "k \<in> {''VmHWM:'', ''VmPeak:''} \<longrightarrow>
      number_of_rest r \<noteq> [] \<and> dec_value (number_of_rest r) < 2 ^ 64"
    using ok by blast+
  let ?p = "if k = ''VmHWM:'' then p\<lparr>mp_mem_peak := rest_value r\<rparr>
      else if k = ''VmPeak:'' then p\<lparr>mp_virtual_mem_peak := rest_value r\<rparr> else p"
  let ?vm = "vm \<and> k \<noteq> ''VmPeak:''" and ?rss = "rss \<and> k \<noteq> ''VmHWM:''"
  have t: "status_text (l # ls) = k @ r @ CHR 0x0A # status_text ls"
    by (simp add: status_text_def l)
  have step: "peak_loop (open_in (status_text (l # ls))) p vm rss =
      (if ?vm \<or> ?rss then peak_loop (open_in (status_text ls)) ?p ?vm ?rss else Some ?p)"
    unfolding t by (rule peak_loop_line [OF k refl refl refl])
  have res: "peak_result (l # ls) p vm rss = peak_result ls ?p ?vm ?rss"
    using Cons.prems(3,4) by (auto simp: l peak_result_Cons)
  have mem: "(vm \<longrightarrow> ''VmPeak:'' \<in> fst ` set (l # ls)) = (?vm \<longrightarrow> ''VmPeak:'' \<in> fst ` set ls)"
    "(rss \<longrightarrow> ''VmHWM:'' \<in> fst ` set (l # ls)) = (?rss \<longrightarrow> ''VmHWM:'' \<in> fst ` set ls)"
    by (auto simp: l)
  show ?case
  proof (cases "?vm \<or> ?rss")
    case True
    have "\<not> ?vm \<longrightarrow> ''VmPeak:'' \<notin> fst ` set ls" "\<not> ?rss \<longrightarrow> ''VmHWM:'' \<notin> fst ` set ls"
      using Cons.prems(3,4) ok by (auto simp: l)
    from Cons.IH [OF _ True this] ok show ?thesis unfolding step res mem using True by simp
  next
    case False
    then have no: "?vm = False" "?rss = False" by blast+
    show ?thesis unfolding step res mem no peak_result_done by simp
  qed
qed

text \<open>
  C19: Reading the peak memory of a process ends exactly when its \<open>status\<close> shows both
  lines it looks for, \<open>VmPeak\<close> and \<open>VmHWM\<close>, and then gives their numbers; a process
  without them, as every thread of the kernel and every zombie is, keeps the loop running for
  ever, because its condition tests a constant where it means the end of the file.
\<close>

theorem memory_peak_usage_ends:
  assumes "pf_file F (proc_path pid @ ''/status'') = Some (status_text ls)" "status_ok ls"
  shows "memory_peak_usage F pid peak =
    (if {''VmPeak:'', ''VmHWM:''} \<subseteq> fst ` set ls
     then Some (True, \<lparr>mp_mem_peak = rest_value (the (map_of ls ''VmHWM:'')),
       mp_virtual_mem_peak = rest_value (the (map_of ls ''VmPeak:''))\<rparr>)
     else None)"
  using peak_loop_status [OF assms(2), of True True peak]
  by (auto simp: memory_peak_usage_def assms(1) peak_result_def)

definition demo_status :: "string list \<Rightarrow> (string \<times> string) list" where
  "demo_status ks = (''Name:'', '' kthreadd'') # map (\<lambda>k. (k, ''  2345 kB'')) ks"

theorem memory_peak_usage_ends_witness:
  "memory_peak_usage (demo_proc\<lparr>pf_file := [proc_path 2 @ ''/status'' \<mapsto>
     status_text (demo_status [''VmPeak:'', ''VmHWM:''])]\<rparr>) 2 \<lparr>mp_mem_peak = 0, mp_virtual_mem_peak = 0\<rparr> =
     Some (True, \<lparr>mp_mem_peak = 2345, mp_virtual_mem_peak = 2345\<rparr>) \<and>
   memory_peak_usage (demo_proc\<lparr>pf_file := [proc_path 2 @ ''/status'' \<mapsto>
     status_text (demo_status [''Threads:''])]\<rparr>) 2 \<lparr>mp_mem_peak = 0, mp_virtual_mem_peak = 0\<rparr> = None"
proof -
  have ok: "status_ok (demo_status [''VmPeak:'', ''VmHWM:''])" "status_ok (demo_status [''Threads:''])"
    by (simp_all add: status_ok_def demo_status_def plain_word_def is_space_def number_of_rest_def
        is_digit_def dec_value_def)
  have v: "rest_value ''  2345 kB'' = 2345"
    by (simp add: rest_value_def number_of_rest_def is_space_def is_digit_def dec_value_def)
  show ?thesis
    using memory_peak_usage_ends [OF _ ok(1), of _ 2] memory_peak_usage_ends [OF _ ok(2), of _ 2]
    by (simp add: demo_status_def v)
qed

end
