(* ===== verification/Hardware_Info.thy ===== *)
theory Hardware_Info
  imports Proc_Info Ordered_Map "HOL-Library.Char_ord" "HOL-Library.List_Lexorder"
begin

text \<open>
  What the program reads of the machine in \<open>/proc\<close>,
  \<open>src/src/libs/system_info/src/hardware_info_unix.cpp\<close>: the processor times and the
  counts of \<open>/proc/stat\<close>, and the memory of \<open>/proc/meminfo\<close>.  The percentages
  are in the theory \<open>Percent\<close>; the sums and differences they are made of are here.
\<close>

section \<open>Data\<close>

record CPU_Time =
  ct_user :: u64
  ct_nice :: u64
  ct_system :: u64
  ct_idle :: u64
  ct_iowait :: u64
  ct_irq :: u64
  ct_soft_irq :: u64
  ct_steal :: u64
  ct_guest :: u64
  ct_guest_nice :: u64

record Hardware_CPU_Usage =
  hc_cores :: "(string, CPU_Time) omap"
  hc_processes :: u64
  hc_process_running :: u64
  hc_process_blocked :: u64

record Hardware_Memory_Usage =
  hm_total :: u64
  hm_free :: u64
  hm_available :: u64
  hm_buffer :: u64
  hm_cached :: u64
  hm_swap_cached :: u64
  hm_swap_total :: u64
  hm_swap_free :: u64

section \<open>Processor times\<close>

definition get_cpu_time :: "istream \<Rightarrow> CPU_Time \<Rightarrow> CPU_Time \<times> istream" where
  "get_cpu_time s t =
     (let (user, s) = in_ulong (ct_user t) s;
          (nice, s) = in_ulong (ct_nice t) s;
          (system, s) = in_ulong (ct_system t) s;
          (idle, s) = in_ulong (ct_idle t) s;
          (iowait, s) = in_ulong (ct_iowait t) s;
          (irq, s) = in_ulong (ct_irq t) s;
          (soft, s) = in_ulong (ct_soft_irq t) s;
          (steal, s) = in_ulong (ct_steal t) s;
          (guest, s) = in_ulong (ct_guest t) s;
          (gnice, s) = in_ulong (ct_guest_nice t) s
      in (\<lparr>ct_user = user, ct_nice = nice, ct_system = system, ct_idle = idle, ct_iowait = iowait,
            ct_irq = irq, ct_soft_irq = soft, ct_steal = steal, ct_guest = guest,
            ct_guest_nice = gnice\<rparr>, s))"

definition total_cpu_time :: "CPU_Time \<Rightarrow> u64" where
  "total_cpu_time t = ct_user t + ct_nice t + ct_system t + ct_idle t + ct_iowait t + ct_irq t +
     ct_soft_irq t + ct_steal t + ct_guest t + ct_guest_nice t"

text \<open>\<open>DIFF_FIELD\<close> for every field.\<close>

definition cpu_time_diff :: "CPU_Time \<Rightarrow> CPU_Time \<Rightarrow> CPU_Time" where
  "cpu_time_diff start fin =
     \<lparr>ct_user = ct_user fin - ct_user start, ct_nice = ct_nice fin - ct_nice start,
      ct_system = ct_system fin - ct_system start, ct_idle = ct_idle fin - ct_idle start,
      ct_iowait = ct_iowait fin - ct_iowait start, ct_irq = ct_irq fin - ct_irq start,
      ct_soft_irq = ct_soft_irq fin - ct_soft_irq start, ct_steal = ct_steal fin - ct_steal start,
      ct_guest = ct_guest fin - ct_guest start,
      ct_guest_nice = ct_guest_nice fin - ct_guest_nice start\<rparr>"

text \<open>\<open>name.find("cpu") != 0\<close> is \<open>\<not> is_cpu_name name\<close>.\<close>

definition is_cpu_name :: "string \<Rightarrow> bool" where
  "is_cpu_name name = (take 3 name = ''cpu'')"

text \<open>
  The search for one processor has a fresh name in every round, so a stream that ends
  or fails ends it.
\<close>

function find_cpu_time :: "istream \<Rightarrow> string \<Rightarrow> CPU_Time \<Rightarrow> bool \<times> CPU_Time" where
  "find_cpu_time s cpu_name time =
     (let (name, s) = in_word [] s
      in if \<not> is_cpu_name name then (False, time)
         else if name = cpu_name then (True, fst (get_cpu_time s time))
         else find_cpu_time (in_ignore CHR 0x0A s) cpu_name time)"
  by pat_completeness auto

lemma in_ignore_shorter: "length (is_rest (in_ignore d s)) \<le> length (is_rest s)"
proof -
  have "length (dropWhile (\<lambda>c. c \<noteq> d) (is_rest s)) \<le> length (is_rest s)"
    by (rule length_dropWhile_le)
  then show ?thesis by (auto simp: in_ignore_def split: list.splits)
qed

lemma in_word_shorter:
  assumes "in_word [] s = (w, s')" "w \<noteq> []"
  shows "length (is_rest s') < length (is_rest s)"
proof -
  let ?r = "dropWhile is_space (is_rest s)"
  from assms have w: "w = takeWhile (\<lambda>c. \<not> is_space c) ?r" "is_rest s' = dropWhile (\<lambda>c. \<not> is_space c) ?r"
    by (auto simp: in_word_def in_sentry_def Let_def split: if_splits)
  have "length ?r = length w + length (is_rest s')"
    unfolding w by (metis length_append takeWhile_dropWhile_id)
  with assms(2) length_dropWhile_le [of is_space "is_rest s"] show ?thesis by (cases w) auto
qed

termination find_cpu_time
  by (relation "measure (\<lambda>(s, _, _). length (is_rest s))")
    (auto simp: is_cpu_name_def intro: le_less_trans [OF in_ignore_shorter in_word_shorter [OF sym]])

declare find_cpu_time.simps [simp del]

definition check_get_cpu_time :: "proc_fs \<Rightarrow> string \<Rightarrow> CPU_Time \<Rightarrow> bool \<times> CPU_Time" where
  "check_get_cpu_time F cpu_name time =
     (case pf_file F ''/proc/stat'' of
        None \<Rightarrow> (False, time)
      | Some t \<Rightarrow> find_cpu_time (open_in t) cpu_name time)"

text \<open>
  The loop over all processors keeps its name from round to round: when the stream fails
  on a processor's line it goes on for ever.
\<close>

partial_function (option) read_cpu_time ::
  "istream \<Rightarrow> string \<Rightarrow> CPU_Time \<Rightarrow> (string, CPU_Time) omap \<Rightarrow> (istream \<times> (string, CPU_Time) omap) option"
where
  "read_cpu_time s name time cores =
     (let (name, s) = in_word name s
      in if \<not> is_cpu_name name then Some (s, cores)
         else let (time, s) = get_cpu_time s time in read_cpu_time s name time (om_set name time cores))"

definition hardware_cpu_usage ::
  "proc_fs \<Rightarrow> CPU_Time \<Rightarrow> Hardware_CPU_Usage \<Rightarrow> (bool \<times> Hardware_CPU_Usage) option" where
  "hardware_cpu_usage F junk u =
     (case pf_file F ''/proc/stat'' of
        None \<Rightarrow> Some (False, u)
      | Some t \<Rightarrow> do {
          (s, cores) \<leftarrow> read_cpu_time (open_in t) [] junk (hc_cores u);
          let s = ignore_n 3 CHR 0x0A s;
          let (n, s) = in_ulong (hc_processes u) (in_ignore CHR '' '' s);
          let (r, s) = in_ulong (hc_process_running u) (in_ignore CHR '' '' s);
          let (b, s) = in_ulong (hc_process_blocked u) (in_ignore CHR '' '' s);
          Some (True, \<lparr>hc_cores = cores, hc_processes = n, hc_process_running = r,
            hc_process_blocked = b\<rparr>) })"

section \<open>Memory\<close>

text \<open>One line: past the first space, a number, the rest of the line.\<close>

definition mem_line :: "u64 \<Rightarrow> istream \<Rightarrow> u64 \<times> istream" where
  "mem_line old s =
     (let (v, s) = in_ulong old (in_ignore CHR '' '' s) in (v, in_ignore CHR 0x0A s))"

definition hardware_memory_usage ::
  "proc_fs \<Rightarrow> Hardware_Memory_Usage \<Rightarrow> bool \<times> Hardware_Memory_Usage" where
  "hardware_memory_usage F u =
     (case pf_file F ''/proc/meminfo'' of
        None \<Rightarrow> (False, u)
      | Some t \<Rightarrow>
          let (total, s) = mem_line (hm_total u) (open_in t);
              (free, s) = mem_line (hm_free u) s;
              (avail, s) = mem_line (hm_available u) s;
              (buffer, s) = mem_line (hm_buffer u) s;
              (cached, s) = mem_line (hm_cached u) s;
              (swcached, s) = mem_line (hm_swap_cached u) s;
              s = ignore_n 8 CHR 0x0A s;
              (swtotal, s) = mem_line (hm_swap_total u) s;
              (swfree, s) = mem_line (hm_swap_free u) s
          in (True, \<lparr>hm_total = total, hm_free = free, hm_available = avail, hm_buffer = buffer,
               hm_cached = cached, hm_swap_cached = swcached, hm_swap_total = swtotal,
               hm_swap_free = swfree\<rparr>))"

section \<open>The reference: lines of numbers\<close>

definition cpu_line :: "string \<times> nat list \<Rightarrow> string" where
  "cpu_line l = fst l @ concat (map (\<lambda>n. CHR '' '' # show_nat n) (snd l)) @ [CHR 0x0A]"

definition cpu_text :: "(string \<times> nat list) list \<Rightarrow> string" where
  "cpu_text ls = concat (map cpu_line ls)"

definition cpu_time_of :: "nat list \<Rightarrow> CPU_Time" where
  "cpu_time_of ns =
     \<lparr>ct_user = of_nat (ns ! 0), ct_nice = of_nat (ns ! 1), ct_system = of_nat (ns ! 2),
      ct_idle = of_nat (ns ! 3), ct_iowait = of_nat (ns ! 4), ct_irq = of_nat (ns ! 5),
      ct_soft_irq = of_nat (ns ! 6), ct_steal = of_nat (ns ! 7), ct_guest = of_nat (ns ! 8),
      ct_guest_nice = of_nat (ns ! 9)\<rparr>"

definition cpu_line_ok :: "string \<times> nat list \<Rightarrow> bool" where
  "cpu_line_ok l = (plain_word (fst l) \<and> is_cpu_name (fst l) \<and> length (snd l) = 10 \<and>
     (\<forall>n\<in>set (snd l). n < 2 ^ 64))"

lemma in_ulong_show:
  assumes "n < 2 ^ 64" "stops is_digit r"
  shows "in_ulong old (open_in (CHR '' '' # show_nat n @ r)) = (of_nat n, in_left r)"
  using in_ulong_open [of "'' ''" "show_nat n" r old] assms by (simp add: dec_value_show)

lemma get_cpu_time_numbers:
  assumes "length ns = 10" "\<forall>n\<in>set ns. n < 2 ^ 64"
  shows "get_cpu_time (open_in (concat (map (\<lambda>n. CHR '' '' # show_nat n) ns) @ CHR 0x0A # t)) old =
    (cpu_time_of ns, open_in (CHR 0x0A # t))"
proof -
  obtain a b c d e f g h i j where ns: "ns = [a, b, c, d, e, f, g, h, i, j]"
    using assms(1) by (auto simp: numeral_eq_Suc length_Suc_conv)
  have st: "stops is_digit (CHR '' '' # x)" "stops is_digit (CHR 0x0A # x)" for x
    by (simp_all add: is_digit_def)
  have bounds: "\<forall>n\<in>{a, b, c, d, e, f, g, h, i, j}. n < 2 ^ 64" using assms(2) ns by auto
  have r: "in_ulong old (open_in (CHR '' '' # show_nat n @ CHR '' '' # x)) = (of_nat n, open_in (CHR '' '' # x))"
    "in_ulong old (open_in (CHR '' '' # show_nat n @ CHR 0x0A # x)) = (of_nat n, open_in (CHR 0x0A # x))"
    if "n \<in> {a, b, c, d, e, f, g, h, i, j}" for n old x
    using in_ulong_show [OF bspec [OF bounds that] st(1), of old x]
      in_ulong_show [OF bspec [OF bounds that] st(2), of old x] by simp_all
  show ?thesis
    by (simp add: ns get_cpu_time_def r cpu_time_of_def)
qed

text \<open>A line that is not about a processor, after the lines that are.\<close>

definition other_line :: "string \<Rightarrow> string \<Rightarrow> bool" where
  "other_line w r = (plain_word w \<and> \<not> is_cpu_name w \<and> stops (\<lambda>c. \<not> is_space c) r)"

lemma numbers_space:
  "length ns = 10 \<Longrightarrow> \<exists>r. concat (map (\<lambda>n. CHR '' '' # show_nat n) ns) = CHR '' '' # r"
  by (cases ns) auto

lemma in_word_cpu_line:
  assumes "cpu_line_ok (k, ns)"
  shows "in_word old (open_in (cpu_line (k, ns) @ t)) =
    (k, open_in (concat (map (\<lambda>n. CHR '' '' # show_nat n) ns) @ CHR 0x0A # t))"
proof -
  obtain r where r: "concat (map (\<lambda>n. CHR '' '' # show_nat n) ns) = CHR '' '' # r"
    using numbers_space assms by (auto simp: cpu_line_ok_def)
  show ?thesis
    using in_word_open [of "[]" k "CHR '' '' # r @ CHR 0x0A # t" old] assms
    by (simp add: cpu_line_def r cpu_line_ok_def)
qed

lemma numbers_no_newline:
  "CHR 0x0A \<notin> set (concat (map (\<lambda>n. CHR '' '' # show_nat n) ns))"
proof -
  have "CHR 0x0A \<notin> set (show_nat n)" for n using show_nat_digits [of n] newline_simps by blast
  then show ?thesis by auto
qed

theorem find_cpu_time_lookup:
  assumes "\<forall>l\<in>set ls. cpu_line_ok l" "other_line w r"
  shows "find_cpu_time (open_in (cpu_text ls @ w @ r)) name time =
    (case map_of ls name of Some ns \<Rightarrow> (True, cpu_time_of ns) | None \<Rightarrow> (False, time))"
  using assms(1)
proof (induction ls)
  case Nil
  have "in_word [] (open_in (w @ r)) = (w, in_left r)"
    using in_word_open [of "[]" w r] assms(2) by (simp add: other_line_def)
  then show ?case
    using assms(2) by (simp add: find_cpu_time.simps [of "open_in (w @ r)"] cpu_text_def other_line_def)
next
  case (Cons l ls)
  obtain k ns where l: "l = (k, ns)" by (cases l)
  let ?n = "concat (map (\<lambda>n. CHR '' '' # show_nat n) ns)" and ?t = "cpu_text ls @ w @ r"
  have ok: "cpu_line_ok (k, ns)" using Cons.prems l by simp
  have t: "cpu_text (l # ls) @ w @ r = cpu_line (k, ns) @ ?t" by (simp add: cpu_text_def l)
  have g: "fst (get_cpu_time (open_in (?n @ CHR 0x0A # ?t)) time) = cpu_time_of ns"
    using get_cpu_time_numbers [of ns ?t time] ok by (simp add: cpu_line_ok_def)
  have i: "in_ignore CHR 0x0A (open_in (?n @ CHR 0x0A # ?t)) = open_in ?t"
    by (rule in_ignore_open [OF numbers_no_newline])
  show ?case
    unfolding t
    by (subst find_cpu_time.simps)
      (use ok Cons in \<open>simp add: in_word_cpu_line [OF ok] g i l cpu_line_ok_def\<close>)
qed

lemma read_cpu_time_stuck:
  assumes "\<not> is_good s" "is_cpu_name name"
  shows "read_cpu_time s name time cores = None"
proof (rule ccontr)
  assume "read_cpu_time s name time cores \<noteq> None"
  then obtain y where y: "read_cpu_time s name time cores = Some y" by auto
  have "is_good s \<or> \<not> is_cpu_name name"
  proof (rule read_cpu_time.raw_induct [where P = "\<lambda>s name time cores y. is_good s \<or> \<not> is_cpu_name name",
        OF _ y], goal_cases)
    case (1 f s name time cores y)
    show ?case
    proof (rule ccontr)
      assume bad: "\<not> (is_good s \<or> \<not> is_cpu_name name)"
      then have "\<exists>t c. f (s\<lparr>is_failed := True\<rparr>) name t c = Some y"
        using 1(2) by (auto simp: not_good_sticky get_cpu_time_def Let_def)
      then show False using 1(1) bad by fastforce
    qed
  qed
  with assms show False by simp
qed

definition add_core :: "string \<times> nat list \<Rightarrow> (string, CPU_Time) omap \<Rightarrow> (string, CPU_Time) omap" where
  "add_core l m = om_set (fst l) (cpu_time_of (snd l)) m"

lemma read_cpu_time_line:
  assumes "blanks b" "cpu_line_ok (k, ns)"
  shows "read_cpu_time (open_in (b @ cpu_line (k, ns) @ x)) name time cores =
    read_cpu_time (open_in ([CHR 0x0A] @ x)) k (cpu_time_of ns) (add_core (k, ns) cores)"
proof -
  let ?n = "concat (map (\<lambda>n. CHR '' '' # show_nat n) ns)"
  obtain q where q: "?n = CHR '' '' # q" using numbers_space assms(2) by (auto simp: cpu_line_ok_def)
  have w: "in_word name (open_in (b @ k @ ?n @ CHR 0x0A # x)) = (k, open_in (?n @ CHR 0x0A # x))"
    using in_word_open [OF assms(1), of k "?n @ CHR 0x0A # x" name] assms(2)
    by (simp add: q cpu_line_ok_def)
  have g: "get_cpu_time (open_in (?n @ CHR 0x0A # x)) time = (cpu_time_of ns, open_in (CHR 0x0A # x))"
    using get_cpu_time_numbers [of ns x time] assms(2) by (simp add: cpu_line_ok_def)
  have t: "b @ cpu_line (k, ns) @ x = b @ k @ ?n @ CHR 0x0A # x" by (simp add: cpu_line_def)
  show ?thesis
    unfolding t
    by (subst read_cpu_time.simps) (use assms(2) in \<open>simp add: w g cpu_line_ok_def add_core_def\<close>)
qed

text \<open>
  All processors are read when another line follows theirs; when the file ends with them
  the loop goes on for ever.
\<close>

lemma read_cpu_time_all:
  assumes "\<forall>l\<in>set ls. cpu_line_ok l" "other_line w r" "blanks b"
  shows "read_cpu_time (open_in (b @ cpu_text ls @ w @ r)) name time cores =
    Some (in_left r, fold add_core ls cores)"
  using assms
proof (induction ls arbitrary: b name time cores)
  case Nil
  then have "in_word name (open_in (b @ w @ r)) = (w, in_left r)"
    using in_word_open [of b w r] by (simp add: other_line_def)
  then show ?case
    using Nil by (subst read_cpu_time.simps) (simp add: cpu_text_def other_line_def)
next
  case (Cons l ls)
  obtain k ns where l: "l = (k, ns)" by (cases l)
  have t: "b @ cpu_text (l # ls) @ w @ r = b @ cpu_line (k, ns) @ cpu_text ls @ w @ r"
    by (simp add: cpu_text_def l)
  show ?case
    unfolding t
    using read_cpu_time_line [of b k ns "cpu_text ls @ w @ r"] Cons.IH [of "[CHR 0x0A]"] Cons.prems
    by (simp add: l)
qed

lemma read_cpu_time_endless:
  assumes "\<forall>l\<in>set ls. cpu_line_ok l" "blanks b" "ls \<noteq> [] \<or> is_cpu_name name"
  shows "read_cpu_time (open_in (b @ cpu_text ls)) name time cores = None"
  using assms
proof (induction ls arbitrary: b name time cores)
  case Nil
  have "\<not> is_good \<lparr>is_rest = [], is_eof = True, is_failed = True\<rparr>" by (simp add: is_good_def)
  then show ?case
    using Nil in_word_blank [of b name]
    by (subst read_cpu_time.simps)
      (simp add: cpu_text_def get_cpu_time_def not_good_sticky read_cpu_time_stuck)
next
  case (Cons l ls)
  obtain k ns where l: "l = (k, ns)" by (cases l)
  have t: "b @ cpu_text (l # ls) = b @ cpu_line (k, ns) @ cpu_text ls"
    by (simp add: cpu_text_def l)
  have "is_cpu_name k" using Cons.prems(1) by (simp add: l cpu_line_ok_def)
  then show ?case
    unfolding t
    using read_cpu_time_line [of b k ns "cpu_text ls"] Cons.IH [of "[CHR 0x0A]"] Cons.prems(1,2)
    by (simp add: l)
qed

section \<open>Memory against the reference\<close>

text \<open>A line of \<open>meminfo\<close>: a key, a space, and a rest that starts with a number.\<close>

definition meminfo_line :: "string \<times> string \<Rightarrow> string" where
  "meminfo_line l = fst l @ CHR '' '' # snd l @ [CHR 0x0A]"

definition meminfo_text :: "(string \<times> string) list \<Rightarrow> string" where
  "meminfo_text ls = concat (map meminfo_line ls)"

definition meminfo_ok :: "string \<times> string \<Rightarrow> bool" where
  "meminfo_ok l = (CHR '' '' \<notin> set (fst l) \<and> CHR 0x0A \<notin> set (fst l) \<and> CHR 0x0A \<notin> set (snd l) \<and>
     number_of_rest (snd l) \<noteq> [] \<and> dec_value (number_of_rest (snd l)) < 2 ^ 64)"

lemma meminfo_text_simps [simp]:
  "meminfo_text [] = []" "meminfo_text (l # ls) = meminfo_line l @ meminfo_text ls"
  "meminfo_text (ls @ ms) = meminfo_text ls @ meminfo_text ms"
  by (simp_all add: meminfo_text_def)

lemma mem_line_open:
  assumes "meminfo_ok l"
  shows "mem_line old (open_in (meminfo_line l @ t)) = (rest_value (snd l), open_in t)"
proof -
  have l: "CHR '' '' \<notin> set (fst l)" "CHR 0x0A \<notin> set (snd l)" "number_of_rest (snd l) \<noteq> []"
    "dec_value (number_of_rest (snd l)) < 2 ^ 64"
    using assms by (simp_all add: meminfo_ok_def)
  obtain s where s: "in_ulong old (open_in (snd l @ CHR 0x0A # t)) = (rest_value (snd l), s)"
    "in_ignore CHR 0x0A s = open_in t" by (rule in_ulong_rest [OF l(2-4)])
  have "in_ignore CHR '' '' (open_in (meminfo_line l @ t)) = open_in (snd l @ CHR 0x0A # t)"
    using in_ignore_open [OF l(1), of "snd l @ CHR 0x0A # t"] by (simp add: meminfo_line_def)
  then show ?thesis by (simp add: mem_line_def s)
qed

lemma ignore_n_meminfo:
  assumes "\<forall>l\<in>set ls. meminfo_ok l"
  shows "ignore_n (length ls) CHR 0x0A (open_in (meminfo_text ls @ t)) = open_in t"
  using assms
proof (induction ls)
  case (Cons l ls)
  then have n: "CHR 0x0A \<notin> set (fst l @ CHR '' '' # snd l)" by (simp add: meminfo_ok_def)
  have "in_ignore CHR 0x0A (open_in (meminfo_line l @ meminfo_text ls @ t)) = open_in (meminfo_text ls @ t)"
    using in_ignore_open [OF n, of "meminfo_text ls @ t"] by (simp add: meminfo_line_def)
  with Cons show ?case by simp
qed simp

lemma length_six: "length xs = 6 \<Longrightarrow> \<exists>a b c d e f. xs = [a, b, c, d, e, f]"
  by (auto simp: numeral_eq_Suc length_Suc_conv)

lemma length_two: "length xs = 2 \<Longrightarrow> \<exists>g h. xs = [g, h]"
  by (auto simp: numeral_eq_Suc length_Suc_conv)

lemma split_16:
  assumes "16 \<le> length ls"
  obtains a b c d e f ms g h rs where "ls = [a, b, c, d, e, f] @ ms @ [g, h] @ rs" "length ms = 8"
proof -
  have "length (take 6 ls) = 6" "length (take 2 (drop 14 ls)) = 2" using assms by simp_all
  then obtain a b c d e f g h where "take 6 ls = [a, b, c, d, e, f]" "take 2 (drop 14 ls) = [g, h]"
    using length_six [of "take 6 ls"] length_two [of "take 2 (drop 14 ls)"] by blast
  moreover have "ls = take 6 ls @ take 8 (drop 6 ls) @ take 2 (drop 14 ls) @ drop 16 ls"
    using append_take_drop_id [of 6 ls] append_take_drop_id [of 8 "drop 6 ls"]
      append_take_drop_id [of 2 "drop 14 ls"] by simp
  moreover have "length (take 8 (drop 6 ls)) = 8" using assms by simp
  ultimately show thesis by (metis that)
qed

theorem hardware_memory_usage_reference:
  assumes "pf_file F ''/proc/meminfo'' = Some (meminfo_text ls)"
    and "16 \<le> length ls" "\<forall>l\<in>set ls. meminfo_ok l" and v: "v = (\<lambda>i. rest_value (snd (ls ! i)))"
  shows "hardware_memory_usage F u = (True, \<lparr>hm_total = v 0, hm_free = v 1, hm_available = v 2,
    hm_buffer = v 3, hm_cached = v 4, hm_swap_cached = v 5, hm_swap_total = v 14, hm_swap_free = v 15\<rparr>)"
proof -
  obtain a b c d e f ms g h rs where ls: "ls = [a, b, c, d, e, f] @ ms @ [g, h] @ rs" and ms: "length ms = 8"
    by (rule split_16 [OF assms(2)])
  have ok: "meminfo_ok l" if "l \<in> {a, b, c, d, e, f, g, h}" for l using that assms(3) ls by auto
  have skip: "ignore_n 8 CHR 0x0A (open_in (meminfo_text ms @ t)) = open_in t" for t
    using ignore_n_meminfo [of ms t] assms(3) ls ms by simp
  show ?thesis
    using assms(1)
    by (simp add: hardware_memory_usage_def ls mem_line_open ok skip v nth_append ms)
qed

end
