(* ===== verification/Monitor_Proc.thy ===== *)
theory Monitor_Proc
  imports Monitor_App Hardware_Info
begin

text \<open>
  The measurements of the monitor: the executor of \<open>src/src/apps/monitor/executor.cpp\<close>
  over the readers of \<open>/proc\<close>, and the document it sends (\<open>json/make.cpp\<close>).  The members
  of the document that are \<open>double\<close>s are an argument; the whole numbers come from the files.
\<close>

section \<open>The document\<close>

record 'j monitor_doubles =
  mv_cpu_time :: 'j
  mv_cpu_percent :: 'j
  mv_cpu_overall :: 'j
  mv_cpu_overall_percent :: 'j
  mv_mem_percent :: 'j
  mv_uptime :: 'j

text \<open>\<open>page_kb\<close> is \<open>PAGE_SIZE_KB\<close>.\<close>

definition pages_to_kb :: "u64 \<Rightarrow> u64 \<Rightarrow> u64" where
  "pages_to_kb page_kb mem_pages = mem_pages * page_kb"

definition make_monitor_message ::
  "('j, 'z) lib_scheme \<Rightarrow> u64 \<Rightarrow> 'j monitor_doubles \<Rightarrow> u32 \<Rightarrow> u32 \<Rightarrow> Memory_Peak_Usage \<Rightarrow> Process_Info \<Rightarrow> 'j"
where
  "make_monitor_message L page_kb v sample num_threads peak start = jd_object L
     [(''cpu_time'', mv_cpu_time v), (''cpup'', mv_cpu_percent v),
      (''cpu_time_all'', mv_cpu_overall v), (''cpup_all'', mv_cpu_overall_percent v),
      (''mem_kb'', jd_uint64 L (pages_to_kb page_kb (mu_rss (pi_usage start)))),
      (''vm_mem_kb'', jd_uint64 L (pages_to_kb page_kb (mu_total (pi_usage start)))),
      (''memp'', mv_mem_percent v), (''up'', mv_uptime v),
      (''n_threads'', jd_uint L num_threads),
      (''peak_mem'', jd_uint64 L (mp_mem_peak peak)),
      (''peak_vm_mem'', jd_uint64 L (mp_virtual_mem_peak peak)),
      (''sample_time'', jd_int L sample)]"

section \<open>The executor over the files\<close>

text \<open>What does not change while the program runs, and the values of unassigned variables.\<close>

record measure_env =
  me_page_kb :: u64
  me_junk :: CPU_Usage
  me_peak :: Memory_Peak_Usage

record measuring =
  ms_executor :: Executor
  ms_start :: Process_Info
  ms_end :: Process_Info

definition proc_uptime_ok :: "proc_fs \<Rightarrow> bool" where
  "proc_uptime_ok F = (pf_file F ''/proc/uptime'' \<noteq> None)"

definition measure_calculate ::
  "('j, 'z) lib_scheme \<Rightarrow> measure_env \<Rightarrow> proc_fs \<Rightarrow> measuring \<Rightarrow> 'f core \<Rightarrow> (measuring \<times> 'f core) option"
where
  "measure_calculate L env F m c = do {
     let m = m\<lparr>ms_start := process_info_clear (ms_start m), ms_end := process_info_clear (ms_end m)\<rparr>;
     (ok, start) \<leftarrow> process_info F (me_junk env) (ms_start m);
     (e, c) \<leftarrow> exec_calculate L ok (proc_uptime_ok F) (ms_executor m) c;
     Some (m\<lparr>ms_executor := e, ms_start := start\<rparr>, c) }"

text \<open>
  \<open>do_wait\<close>: \<open>F\<close> is \<open>/proc\<close> when the handler measures, \<open>F'\<close> when it starts the next
  measurement.
\<close>

definition measure_do_wait ::
  "('j, 'z) lib_scheme \<Rightarrow> measure_env \<Rightarrow> proc_fs \<Rightarrow> proc_fs \<Rightarrow> bool \<Rightarrow> 'j monitor_doubles \<Rightarrow> nat
     \<Rightarrow> measuring \<Rightarrow> 'f core \<Rightarrow> (measuring \<times> 'f core) option" where
  "measure_do_wait L env F F' aborted v shares m c =
     (if aborted
      then Some (m\<lparr>ms_executor := (ms_executor m)\<lparr>ex_is_running := False\<rparr>\<rparr>, c)
      else do {
        (ok, fin) \<leftarrow> process_info F (me_junk env) (ms_end m);
        let m = m\<lparr>ms_end := fin\<rparr>;
        if \<not> ok then do {
          c \<leftarrow> fail_message_all L monitor (make_error_code SERVER_INTERNAL_ERROR) '''' c;
          Some (m, c) }
        else do {
          (_, peak) \<leftarrow> memory_peak_usage F (pf_self F) (me_peak env);
          let doc = make_monitor_message L (me_page_kb env) v (ex_sample (ms_executor m))
            (word_of_nat (length (pi_tcusage (ms_start m)))) peak (ms_start m);
          (msg, c) \<leftarrow> create_data_value L monitor doc c;
          let stop = m\<lparr>ms_executor := (ms_executor m)\<lparr>ex_is_running := False\<rparr>\<rparr>;
          if shares = 0 then Some (stop, c)
          else do {
            let c = emit (Write_All (Byte_Array_of msg) True) c;
            if ex_keep_reading (ms_executor m) then measure_calculate L env F' m c
            else Some (stop, c) } } })"

section \<open>Lemmas\<close>

text \<open>
  The executor over the files is the executor of \<open>Monitor_App\<close> for some answers: its
  invariant and what follows from it hold of it.
\<close>

lemma measure_calculate_refines:
  assumes "measure_calculate L env F m c = Some (m', c')"
  shows "\<exists>ok. exec_calculate L ok (proc_uptime_ok F) (ms_executor m) c = Some (ms_executor m', c')"
  using assms by (auto simp: measure_calculate_def Let_def bind_Some_iff)

theorem measure_do_wait_refines:
  assumes "measure_do_wait L env F F' aborted v shares m c = Some (m', c')"
  shows "\<exists>ok doc info. exec_do_wait L aborted ok doc shares info (proc_uptime_ok F') (ms_executor m) c =
    Some (ms_executor m', c')"
proof (cases aborted)
  case True
  with assms show ?thesis by (auto simp: measure_do_wait_def exec_do_wait_def)
next
  case False
  with assms obtain ok fin where p: "process_info F (me_junk env) (ms_end m) = Some (ok, fin)"
    by (auto simp: measure_do_wait_def bind_Some_iff)
  show ?thesis
  proof (cases ok)
    case False
    with p assms \<open>\<not> aborted\<close> show ?thesis
      by (intro exI [of _ False]) (auto simp: measure_do_wait_def exec_do_wait_def bind_Some_iff)
  next
    case True
    obtain b peak where k: "memory_peak_usage F (pf_self F) (me_peak env) = Some (b, peak)"
      using assms p True \<open>\<not> aborted\<close> by (auto simp: measure_do_wait_def bind_Some_iff Let_def)
    define doc where "doc = make_monitor_message L (me_page_kb env) v (ex_sample (ms_executor m))
        (word_of_nat (length (pi_tcusage (ms_start m)))) peak (ms_start m)"
    obtain msg c1 where d: "create_data_value L monitor doc c = Some (msg, c1)"
      using assms p True \<open>\<not> aborted\<close> k
      by (auto simp: measure_do_wait_def bind_Some_iff Let_def doc_def)
    let ?c = "emit (Write_All (Byte_Array_of msg) True) c1"
    have r: "(if shares = 0 then Some (m\<lparr>ms_end := fin, ms_executor := (ms_executor m)\<lparr>ex_is_running := False\<rparr>\<rparr>, c1)
        else if ex_keep_reading (ms_executor m) then measure_calculate L env F' (m\<lparr>ms_end := fin\<rparr>) ?c
        else Some (m\<lparr>ms_end := fin, ms_executor := (ms_executor m)\<lparr>ex_is_running := False\<rparr>\<rparr>, ?c)) =
        Some (m', c')"
      using assms p True \<open>\<not> aborted\<close> k d
      by (simp add: measure_do_wait_def Let_def doc_def split: if_splits)
    have "\<exists>info. exec_do_wait L False True doc shares info (proc_uptime_ok F') (ms_executor m) c =
        Some (ms_executor m', c')"
    proof (cases "shares = 0 \<or> \<not> ex_keep_reading (ms_executor m)")
      case True
      then show ?thesis using r by (auto simp: exec_do_wait_def d Let_def split: if_splits)
    next
      case False
      with r have "measure_calculate L env F' (m\<lparr>ms_end := fin\<rparr>) ?c = Some (m', c')" by simp
      then obtain info where "exec_calculate L info (proc_uptime_ok F') (ms_executor m) ?c =
          Some (ms_executor m', c')"
        using measure_calculate_refines by fastforce
      then show ?thesis using False by (intro exI [of _ info]) (simp add: exec_do_wait_def d Let_def)
    qed
    then show ?thesis using \<open>\<not> aborted\<close> by auto
  qed
qed

text \<open>A process whose \<open>status\<close> lacks one of the two lines keeps the handler running for ever.\<close>

lemma measure_do_wait_endless:
  assumes "process_info F (me_junk env) (ms_end m) = Some (True, fin)"
    and "pf_file F (proc_path (pf_self F) @ ''/status'') = Some (status_text ls)" "status_ok ls"
    and "\<not> {''VmPeak:'', ''VmHWM:''} \<subseteq> fst ` set ls"
  shows "measure_do_wait L env F F' False v shares m c = None"
proof -
  have "memory_peak_usage F (pf_self F) peak = None" for peak
    using peak_loop_status [OF assms(3), of True True peak] assms(4)
    by (auto simp: memory_peak_usage_def assms(2))
  then show ?thesis by (simp add: measure_do_wait_def assms(1))
qed

text \<open>
  The whole numbers of the document, for a process the kernel shows as \<open>e\<close>: the threads
  are its tasks, the memory its pages in kilobytes.
\<close>

lemma measured_document:
  assumes "proc_shows F (proc_path (pf_self F)) e" "entry_ok e"
    and "process_info F (me_junk env) (process_info_clear info) = Some (True, start)"
  shows "make_monitor_message L page_kb v sample (word_of_nat (length (pi_tcusage start))) peak start =
    jd_object L
     [(''cpu_time'', mv_cpu_time v), (''cpup'', mv_cpu_percent v),
      (''cpu_time_all'', mv_cpu_overall v), (''cpup_all'', mv_cpu_overall_percent v),
      (''mem_kb'', jd_uint64 L (word_of_int (pe_mem e ! 1) * page_kb)),
      (''vm_mem_kb'', jd_uint64 L (word_of_int (pe_mem e ! 0) * page_kb)),
      (''memp'', mv_mem_percent v), (''up'', mv_uptime v),
      (''n_threads'', jd_uint L (word_of_nat (length (pe_tasks e)))),
      (''peak_mem'', jd_uint64 L (mp_mem_peak peak)),
      (''peak_vm_mem'', jd_uint64 L (mp_virtual_mem_peak peak)),
      (''sample_time'', jd_int L sample)]"
  using process_info_shown [OF assms(1,2), of "me_junk env" info] assms(3)
  by (simp add: make_monitor_message_def mem_usage_def pages_to_kb_def)

end
