(* ===== verification/Http_Upgrade.thy ===== *)
theory Http_Upgrade
  imports Ws_Session
begin

text \<open>
  The way of a connection from the listener that takes plain and SSL clients on one port to
  a websocket session, in \<open>src/src/libs/my_async/include/my_async/listener\<close>:
  \<open>listener_dual.hpp\<close> accepts, \<open>detect_protocol_session.hpp\<close> looks whether the client
  speaks SSL, \<open>http_session.hpp\<close> reads an HTTP request and, when it asks for the upgrade,
  makes the websocket session.  The streams, the detector, the HTTP parser and the test for
  an upgrade are libraries: what they complete with is an argument.  \<open>main\<close> of the program
  uses the listener for one kind of session.
\<close>

section \<open>HTTP session\<close>

definition http_end_of_stream :: error_code where
  "http_end_of_stream = Sys_Code ''http_end_of_stream''"

text \<open>
  \<open>hs_limit\<close> is the body limit of the parser, when there is one; \<open>hs_timeout\<close> the timeout
  in seconds of the lowest layer; \<open>hs_log\<close> what \<open>fail\<close> has printed.
\<close>

record http_session =
  hs_ssl :: bool
  hs_buffer :: byte_array
  hs_limit :: "nat option"
  hs_timeout :: "nat option"
  hs_handshakes :: nat
  hs_reads :: nat
  hs_shutdowns :: nat
  hs_eof :: bool
  hs_log :: "(error_code \<times> string) list"

definition http_session_new :: "bool \<Rightarrow> nat option \<Rightarrow> byte_array \<Rightarrow> http_session" where
  "http_session_new use_ssl timeout buffer = \<lparr>hs_ssl = use_ssl, hs_buffer = buffer, hs_limit = None,
     hs_timeout = timeout, hs_handshakes = 0, hs_reads = 0, hs_shutdowns = 0, hs_eof = False,
     hs_log = []\<rparr>"

definition http_fail :: "error_code \<Rightarrow> string \<Rightarrow> http_session \<Rightarrow> http_session" where
  "http_fail ec what s = s\<lparr>hs_log := hs_log s @ [(ec, what)]\<rparr>"

definition http_do_read :: "http_session \<Rightarrow> http_session" where
  "http_do_read s = s\<lparr>hs_limit := Some 10000, hs_timeout := Some 30, hs_reads := hs_reads s + 1\<rparr>"

text \<open>The plain session reads at once; the SSL session first does its handshake.\<close>

definition plain_run :: "http_session \<Rightarrow> http_session" where
  "plain_run s = http_do_read s"

definition ssl_run :: "http_session \<Rightarrow> http_session" where
  "ssl_run s = s\<lparr>hs_timeout := Some 30, hs_handshakes := hs_handshakes s + 1\<rparr>"

definition http_run :: "http_session \<Rightarrow> http_session" where
  "http_run s = (if hs_ssl s then ssl_run s else plain_run s)"

text \<open>The handshake has used the first \<open>bytes_used\<close> of what the detector had read.\<close>

definition http_on_handshake :: "error_code + nat \<Rightarrow> http_session \<Rightarrow> http_session" where
  "http_on_handshake r s =
     (let s = s\<lparr>hs_handshakes := hs_handshakes s - 1\<rparr> in
      case r of Inl ec \<Rightarrow> http_fail ec ''handshake'' s
      | Inr bytes_used \<Rightarrow> http_do_read (s\<lparr>hs_buffer := drop bytes_used (hs_buffer s)\<rparr>))"

text \<open>The plain session shuts its half of the connection down, whatever comes of it.\<close>

definition plain_do_eof :: "http_session \<Rightarrow> http_session" where
  "plain_do_eof s = s\<lparr>hs_eof := True\<rparr>"

definition ssl_do_eof :: "http_session \<Rightarrow> http_session" where
  "ssl_do_eof s = s\<lparr>hs_timeout := Some 30, hs_shutdowns := hs_shutdowns s + 1\<rparr>"

definition http_do_eof :: "http_session \<Rightarrow> http_session" where
  "http_do_eof s = (if hs_ssl s then ssl_do_eof s else plain_do_eof s)"

definition http_on_shutdown :: "error_code option \<Rightarrow> http_session \<Rightarrow> http_session" where
  "http_on_shutdown r s =
     (let s = s\<lparr>hs_shutdowns := hs_shutdowns s - 1\<rparr> in
      case r of Some ec \<Rightarrow> http_fail ec ''shutdown'' s | None \<Rightarrow> s\<lparr>hs_eof := True\<rparr>)"

section \<open>A connection\<close>

record detect_session =
  dt_buffer :: byte_array
  dt_timeout :: "nat option"
  dt_detects :: nat
  dt_log :: "(error_code \<times> string) list"

text \<open>
  A connection is held by one of three objects.  The websocket session gets the stream, with
  its timeout, and the request.
\<close>

datatype 'r connection =
    Detecting detect_session
  | Serving http_session
  | Upgraded ws_session "nat option" 'r

definition make_websocket_session :: "bool \<Rightarrow> bool \<Rightarrow> nat option \<Rightarrow> 'r \<Rightarrow> 'r connection" where
  "make_websocket_session use_ssl dt timeout req =
     Upgraded (ws_run_request (ws_new use_ssl dt)) timeout req"

text \<open>
  \<open>on_read\<close>: a request that is not an upgrade is not answered; nothing keeps the session
  after it.  \<open>rest\<close> is what the parser leaves in the buffer.
\<close>

definition http_on_read ::
  "('r \<Rightarrow> bool) \<Rightarrow> bool \<Rightarrow> error_code + 'r \<Rightarrow> byte_array \<Rightarrow> http_session \<Rightarrow> 'r connection" where
  "http_on_read is_upgrade dt r rest s =
     (let s = s\<lparr>hs_reads := hs_reads s - 1, hs_buffer := rest\<rparr> in
      case r of
        Inl ec \<Rightarrow>
          if ec = http_end_of_stream then Serving (http_do_eof s)
          else Serving (http_fail ec ''read'' s)
      | Inr req \<Rightarrow>
          if is_upgrade req
          then make_websocket_session (hs_ssl s) dt None req
          else Serving s)"

definition detect_new :: detect_session where
  "detect_new = \<lparr>dt_buffer = [], dt_timeout = None, dt_detects = 0, dt_log = []\<rparr>"

definition detect_run :: "detect_session \<Rightarrow> detect_session" where
  "detect_run d = d\<lparr>dt_timeout := Some 30, dt_detects := dt_detects d + 1\<rparr>"

text \<open>\<open>seen\<close> is what the detector has read, for the session that follows.\<close>

definition on_detect ::
  "error_code + bool \<Rightarrow> byte_array \<Rightarrow> detect_session \<Rightarrow> 'r connection" where
  "on_detect r seen d =
     (let d = d\<lparr>dt_detects := dt_detects d - 1, dt_buffer := dt_buffer d @ seen\<rparr> in
      case r of
        Inl ec \<Rightarrow> Detecting (d\<lparr>dt_log := dt_log d @ [(ec, ''detect'')]\<rparr>)
      | Inr result \<Rightarrow> Serving (http_run (http_session_new result (dt_timeout d) (dt_buffer d))))"

section \<open>The listener\<close>

record 'r dual_listener =
  du_open :: bool
  du_accepts :: nat
  du_log :: "(error_code \<times> string) list"
  du_next :: nat
  du_connections :: "nat \<Rightarrow> 'r connection option"

definition dual_fail :: "error_code \<Rightarrow> string \<Rightarrow> 'r dual_listener \<Rightarrow> 'r dual_listener" where
  "dual_fail ec what l = l\<lparr>du_log := du_log l @ [(ec, what)]\<rparr>"

text \<open>The results of open, set_option, bind and listen; a failure is only printed.\<close>

definition dual_init :: "(nat \<Rightarrow> error_code option) \<Rightarrow> 'r dual_listener \<Rightarrow> 'r dual_listener" where
  "dual_init r l =
     (case r 0 of Some ec \<Rightarrow> dual_fail ec ''open'' l | None \<Rightarrow>
      (let l = l\<lparr>du_open := True\<rparr> in
       case r 1 of Some ec \<Rightarrow> dual_fail ec ''set_option'' l | None \<Rightarrow>
      (case r 2 of Some ec \<Rightarrow> dual_fail ec ''bind'' l | None \<Rightarrow>
      (case r 3 of Some ec \<Rightarrow> dual_fail ec ''listen'' l | None \<Rightarrow> l))))"

definition dual_new :: "(nat \<Rightarrow> error_code option) \<Rightarrow> 'r dual_listener" where
  "dual_new r = dual_init r \<lparr>du_open = False, du_accepts = 0, du_log = [], du_next = 0,
     du_connections = (\<lambda>_. None)\<rparr>"

definition make_dual_listener :: "(nat \<Rightarrow> error_code option) \<Rightarrow> 'r dual_listener" where
  "make_dual_listener r = dual_new r"

definition dual_do_accept :: "'r dual_listener \<Rightarrow> 'r dual_listener" where
  "dual_do_accept l = l\<lparr>du_accepts := du_accepts l + 1\<rparr>"

definition dual_run :: "'r dual_listener \<Rightarrow> 'r dual_listener" where
  "dual_run l = dual_do_accept l"

definition dual_on_accept :: "error_code option \<Rightarrow> 'r dual_listener \<Rightarrow> 'r dual_listener" where
  "dual_on_accept r l =
     (let l = l\<lparr>du_accepts := du_accepts l - 1\<rparr>;
          l = (case r of Some ec \<Rightarrow> dual_fail ec ''accept'' l
               | None \<Rightarrow> l\<lparr>du_connections := (du_connections l)
                    (du_next l \<mapsto> Detecting (detect_run detect_new)), du_next := du_next l + 1\<rparr>) in
      dual_do_accept l)"

section \<open>Steps\<close>

inductive conn_step :: "('r \<Rightarrow> bool) \<Rightarrow> bool \<Rightarrow> 'r connection \<Rightarrow> 'r connection \<Rightarrow> bool"
  for is_upgrade :: "'r \<Rightarrow> bool" and dt :: bool where
  h_detect: "dt_detects d > 0 \<Longrightarrow> conn_step is_upgrade dt (Detecting d) (on_detect r1 seen d)"
| h_handshake: "hs_handshakes s > 0 \<Longrightarrow>
    conn_step is_upgrade dt (Serving s) (Serving (http_on_handshake r2 s))"
| h_read: "hs_reads s > 0 \<Longrightarrow>
    conn_step is_upgrade dt (Serving s) (http_on_read is_upgrade dt r3 rest s)"
| h_shutdown: "hs_shutdowns s > 0 \<Longrightarrow>
    conn_step is_upgrade dt (Serving s) (Serving (http_on_shutdown r4 s))"
| h_session: "ws_step s s' \<Longrightarrow> conn_step is_upgrade dt (Upgraded s tm req) (Upgraded s' tm req)"

inductive conn_reach :: "('r \<Rightarrow> bool) \<Rightarrow> bool \<Rightarrow> 'r connection \<Rightarrow> bool"
  for is_upgrade :: "'r \<Rightarrow> bool" and dt :: bool where
  h_start: "conn_reach is_upgrade dt (Detecting (detect_run detect_new))"
| h_step: "\<lbrakk>conn_reach is_upgrade dt x; conn_step is_upgrade dt x y\<rbrakk> \<Longrightarrow> conn_reach is_upgrade dt y"

inductive dual_step :: "('r \<Rightarrow> bool) \<Rightarrow> bool \<Rightarrow> 'r dual_listener \<Rightarrow> 'r dual_listener \<Rightarrow> bool"
  for is_upgrade :: "'r \<Rightarrow> bool" and dt :: bool where
  l_accept: "\<lbrakk>du_accepts l > 0; r = None \<longrightarrow> du_open l\<rbrakk> \<Longrightarrow>
    dual_step is_upgrade dt l (dual_on_accept r l)"
| l_connection: "\<lbrakk>du_connections l k = Some x; conn_step is_upgrade dt x y\<rbrakk> \<Longrightarrow>
    dual_step is_upgrade dt l (l\<lparr>du_connections := (du_connections l)(k \<mapsto> y)\<rparr>)"

section \<open>Lemmas\<close>

lemmas http_defs =
  http_session_new_def http_fail_def http_do_read_def plain_run_def ssl_run_def http_run_def
  http_on_handshake_def plain_do_eof_def ssl_do_eof_def
  http_do_eof_def http_on_shutdown_def http_on_read_def make_websocket_session_def Let_def

text \<open>
  At most one operation of a connection is outstanding, a timeout of thirty seconds runs
  with it until the upgrade and none after it, and a parser that reads has its limit.
\<close>

fun conn_inv :: "('r \<Rightarrow> bool) \<Rightarrow> bool \<Rightarrow> 'r connection \<Rightarrow> bool" where
  "conn_inv is_upgrade dt (Detecting d) \<longleftrightarrow> dt_detects d \<le> 1 \<and> dt_timeout d = Some 30"
| "conn_inv is_upgrade dt (Serving s) \<longleftrightarrow>
     hs_handshakes s + hs_reads s + hs_shutdowns s \<le> 1 \<and> hs_timeout s = Some 30 \<and>
     (hs_reads s > 0 \<longrightarrow> hs_limit s = Some 10000) \<and>
     (\<not> hs_ssl s \<longrightarrow> hs_handshakes s = 0 \<and> hs_shutdowns s = 0)"
| "conn_inv is_upgrade dt (Upgraded s tm req) \<longleftrightarrow>
     is_upgrade req \<and> tm = None \<and> (\<exists>use_ssl. ws_reach use_ssl dt s)"

lemma conn_inv_step:
  assumes "conn_step is_upgrade dt x y" "conn_inv is_upgrade dt x"
  shows "conn_inv is_upgrade dt y"
  using assms(1)
proof cases
  case (h_detect d r1 seen)
  then show ?thesis using assms(2) by (cases r1) (auto simp: on_detect_def http_defs)
next
  case (h_handshake s r2)
  then show ?thesis using assms(2) by (cases r2) (auto simp: http_defs)
next
  case (h_read s r3 rest)
  have "ws_reach use_ssl dt (ws_run_request (ws_new use_ssl dt))" for use_ssl
    by (rule ws_reach.k_request)
  then show ?thesis using h_read assms(2) by (cases r3) (auto simp: http_defs)
next
  case (h_shutdown s r4)
  then show ?thesis using assms(2) by (cases r4) (auto simp: http_defs)
next
  case (h_session s s' tm req)
  then show ?thesis using assms(2) ws_reach.k_step by fastforce
qed

lemma conn_reach_inv: "conn_reach is_upgrade dt x \<Longrightarrow> conn_inv is_upgrade dt x"
proof (induction rule: conn_reach.induct)
  case h_start
  then show ?case by (simp add: detect_run_def detect_new_def)
next
  case (h_step x y)
  then show ?case using conn_inv_step by blast
qed

text \<open>Nothing the client sent before the request is lost between the sessions.\<close>

lemma detect_passes_on:
  "on_detect (Inr use_ssl) seen (detect_run detect_new) =
     Serving (http_run (http_session_new use_ssl (Some 30) seen))"
  by (simp add: on_detect_def detect_run_def detect_new_def Let_def)

lemma handshake_passes_on:
  "hs_buffer (http_on_handshake (Inr n) s) = drop n (hs_buffer s)"
  by (simp add: http_defs)

section \<open>Properties of the listener\<close>

lemma dual_accept_sel [simp]:
  "du_accepts (dual_on_accept r l) = du_accepts l - 1 + 1"
  "du_open (dual_on_accept r l) = du_open l"
  by (simp_all add: dual_on_accept_def dual_do_accept_def dual_fail_def Let_def split: option.splits)

definition dual_inv :: "('r \<Rightarrow> bool) \<Rightarrow> bool \<Rightarrow> 'r dual_listener \<Rightarrow> bool" where
  "dual_inv is_upgrade dt l \<longleftrightarrow> du_accepts l = 1 \<and>
     (\<forall>k x. du_connections l k = Some x \<longrightarrow> k < du_next l \<and> conn_reach is_upgrade dt x)"

lemma dual_inv_step:
  assumes "dual_step is_upgrade dt l l'" "dual_inv is_upgrade dt l"
  shows "dual_inv is_upgrade dt l'"
  using assms(1)
proof cases
  case (l_accept r)
  have "conn_reach is_upgrade dt (Detecting (detect_run detect_new))" by (rule conn_reach.h_start)
  then show ?thesis
    using l_accept assms(2)
    by (cases r) (auto simp: dual_inv_def dual_on_accept_def dual_do_accept_def dual_fail_def Let_def
        less_SucI)
next
  case (l_connection k x y)
  then have x: "conn_reach is_upgrade dt x" using assms(2) by (simp add: dual_inv_def)
  have "conn_reach is_upgrade dt y" by (rule conn_reach.h_step [OF x l_connection(3)])
  then show ?thesis using l_connection assms(2) by (auto simp: dual_inv_def)
qed

lemma dual_inv_start: "dual_inv is_upgrade dt (dual_run (make_dual_listener r))"
  by (auto simp: dual_inv_def dual_run_def dual_do_accept_def make_dual_listener_def dual_new_def
      dual_init_def dual_fail_def Let_def split: option.splits)

lemma dual_steps_inv:
  assumes "(dual_step is_upgrade dt)\<^sup>*\<^sup>* (dual_run (make_dual_listener r)) l"
  shows "dual_inv is_upgrade dt l"
  using assms
proof (induction rule: rtranclp_induct)
  case base
  show ?case by (rule dual_inv_start)
next
  case (step l l')
  then show ?case using dual_inv_step by blast
qed

text \<open>
  A listener whose acceptor could not be opened accepts all the same: every accept fails at
  once and starts the next one, for as long as the program runs.
\<close>

lemma dual_spins:
  assumes "r 0 = Some ec"
  shows "\<exists>l. (dual_step is_upgrade dt)\<^sup>*\<^sup>* (dual_run (make_dual_listener r)) l \<and>
    length (du_log l) = Suc n \<and> du_accepts l = 1 \<and> du_connections l = (\<lambda>_. None) \<and> \<not> du_open l"
proof (induction n)
  case 0
  show ?case
    by (intro exI [of _ "dual_run (make_dual_listener r)"])
      (use assms in \<open>simp add: dual_run_def dual_do_accept_def make_dual_listener_def dual_new_def
        dual_init_def dual_fail_def\<close>)
next
  case (Suc n)
  then obtain l where l: "(dual_step is_upgrade dt)\<^sup>*\<^sup>* (dual_run (make_dual_listener r)) l"
    "length (du_log l) = Suc n" "du_accepts l = 1" "du_connections l = (\<lambda>_. None)" "\<not> du_open l"
    by blast
  let ?l' = "dual_on_accept (Some bad_descriptor) l"
  have "dual_step is_upgrade dt l ?l'" by (rule dual_step.l_accept) (use l in simp_all)
  with l(1) have "(dual_step is_upgrade dt)\<^sup>*\<^sup>* (dual_run (make_dual_listener r)) ?l'" by simp
  moreover have "length (du_log ?l') = Suc (Suc n)" "du_accepts ?l' = 1"
    "du_connections ?l' = (\<lambda>_. None)" "\<not> du_open ?l'"
    using l by (simp_all add: dual_on_accept_def dual_do_accept_def dual_fail_def Let_def)
  ultimately show ?case by blast
qed


definition dual_demo :: "nat dual_listener" where
  "dual_demo = dual_on_accept None (dual_run (make_dual_listener (\<lambda>_. None)))"


end
