(* ===== verification/Percent.thy ===== *)
theory Percent
  imports Complex_Main Hardware_Info
begin

text \<open>
  The functions of \<open>src/src/libs/system_info/src\<close> over \<open>double\<close>: uptimes and percentages of
  processor time and memory.  What a \<open>double\<close> is stays open: its conversions and its
  arithmetic are the record \<open>double_ops\<close>, an argument of every function, and the order of
  the operations is the code's.  \<open>exact\<close> is the arithmetic without rounding, in which the
  percentages can be said to add up.
\<close>

section \<open>Doubles\<close>

text \<open>\<open>d_read\<close> is the extraction from a stream into a variable that holds the first argument.\<close>

record 'd double_ops =
  d_int :: "int \<Rightarrow> 'd"
  d_sub :: "'d \<Rightarrow> 'd \<Rightarrow> 'd"
  d_mul :: "'d \<Rightarrow> 'd \<Rightarrow> 'd"
  d_div :: "'d \<Rightarrow> 'd \<Rightarrow> 'd"
  d_lround :: "'d \<Rightarrow> int"
  d_read :: "'d \<Rightarrow> istream \<Rightarrow> 'd \<times> istream"

record 'd Uptime =
  up_total :: 'd
  up_idle :: 'd

section \<open>Uptime\<close>

definition uptime :: "'d double_ops \<Rightarrow> proc_fs \<Rightarrow> 'd Uptime \<Rightarrow> bool \<times> 'd Uptime" where
  "uptime D F up =
     (case pf_file F ''/proc/uptime'' of
        None \<Rightarrow> (False, up)
      | Some t \<Rightarrow>
          (let (total, s) = d_read D (up_total up) (open_in t);
               (idle, s) = d_read D (up_idle up) s
           in (True, \<lparr>up_total = total, up_idle = idle\<rparr>)))"

text \<open>
  \<open>TICKS_PER_SEC\<close> is a \<open>long\<close> of the system; the start of the process is divided by it as an
  integer.  \<open>junk\<close> is what the variables hold before they are assigned.
\<close>

definition process_uptime ::
  "'d double_ops \<Rightarrow> u64 \<Rightarrow> proc_fs \<Rightarrow> 'd Uptime \<Rightarrow> Process_Info \<Rightarrow> 'd option" where
  "process_uptime D ticks F junk info =
     (case uptime D F junk of (ok, up) \<Rightarrow>
        if \<not> ok then None
        else Some (d_sub D (up_total up) (d_int D (uint (cu_starttime (pi_cusage info) div ticks)))))"

text \<open>
  The overload for a process identifier stores it and calls the overload of \<open>process_info\<close>
  that overwrites it with the own process.
\<close>

definition process_uptime_pid ::
  "'d double_ops \<Rightarrow> u64 \<Rightarrow> proc_fs \<Rightarrow> CPU_Usage \<Rightarrow> 'd Uptime \<Rightarrow> Process_Info \<Rightarrow> u32 \<Rightarrow> 'd option option"
where
  "process_uptime_pid D ticks F cjunk junk info pid = do {
     (ok, info) \<leftarrow> process_info F cjunk (info\<lparr>pi_pid := pid\<rparr>);
     Some (if \<not> ok then None else process_uptime D ticks F junk info) }"

definition process_uptime_self ::
  "'d double_ops \<Rightarrow> u64 \<Rightarrow> proc_fs \<Rightarrow> CPU_Usage \<Rightarrow> 'd Uptime \<Rightarrow> Process_Info \<Rightarrow> 'd option option" where
  "process_uptime_self D ticks F cjunk junk info =
     process_uptime_pid D ticks F cjunk junk info (pf_self F)"

section \<open>Processor time of a process\<close>

definition cpu_usage_during_self ::
  "proc_fs \<Rightarrow> proc_fs \<Rightarrow> CPU_Usage \<Rightarrow> Process_Info \<Rightarrow> u32 \<Rightarrow> bool \<Rightarrow> u64 option" where
  "cpu_usage_during_self F F' junk info duration use_child_time =
     cpu_usage_during F F' junk info (pf_self F) duration use_child_time"

definition cpu_usage_self :: "proc_fs \<Rightarrow> CPU_Usage \<Rightarrow> Process_Info \<Rightarrow> bool \<Rightarrow> u64 option" where
  "cpu_usage_self F junk info use_child_time = cpu_usage_pid F junk info (pf_self F) use_child_time"

text \<open>
  \<open>seconds\<close> is a \<open>long\<close> minus an \<open>unsigned long\<close>, which is unsigned.
\<close>

definition cpu_usage_percent ::
  "'d double_ops \<Rightarrow> u64 \<Rightarrow> proc_fs \<Rightarrow> 'd Uptime \<Rightarrow> Process_Info \<Rightarrow> bool \<Rightarrow> 'd" where
  "cpu_usage_percent D ticks F junk info use_child_time =
     (case uptime D F junk of (ok, up) \<Rightarrow>
        if \<not> ok then d_int D (- 1)
        else
          (let total_time = cpu_usage_total info use_child_time;
               seconds = word_of_int (d_lround D (up_total up)) -
                 cu_starttime (pi_cusage info) div ticks in
           if seconds \<noteq> 0
           then d_div D (d_mul D (d_int D 100) (d_div D (d_int D (uint total_time)) (d_int D (sint ticks))))
             (d_int D (uint seconds))
           else d_int D 0))"

definition cpu_usage_percent_pid ::
  "'d double_ops \<Rightarrow> u64 \<Rightarrow> proc_fs \<Rightarrow> CPU_Usage \<Rightarrow> 'd Uptime \<Rightarrow> Process_Info \<Rightarrow> u32 \<Rightarrow> bool \<Rightarrow> 'd option"
where
  "cpu_usage_percent_pid D ticks F cjunk junk info pid use_child_time = do {
     (ok, info) \<leftarrow> process_info_of F cjunk pid info;
     Some (if \<not> ok then d_int D (- 1) else cpu_usage_percent D ticks F junk info use_child_time) }"

definition cpu_usage_percent_self ::
  "'d double_ops \<Rightarrow> u64 \<Rightarrow> proc_fs \<Rightarrow> CPU_Usage \<Rightarrow> 'd Uptime \<Rightarrow> Process_Info \<Rightarrow> bool \<Rightarrow> 'd option" where
  "cpu_usage_percent_self D ticks F cjunk junk info use_child_time = do {
     (ok, info) \<leftarrow> process_info F cjunk info;
     Some (if \<not> ok then d_int D (- 1) else cpu_usage_percent D ticks F junk info use_child_time) }"

text \<open>What a difference of times is of a duration, in seconds.\<close>

definition percent_of_duration :: "'d double_ops \<Rightarrow> u64 \<Rightarrow> u64 \<Rightarrow> u32 \<Rightarrow> 'd" where
  "percent_of_duration D ticks total_time duration =
     d_div D (d_div D (d_mul D (d_int D 100) (d_int D (uint total_time))) (d_int D (sint ticks)))
       (d_int D (sint duration))"

definition cpu_usage_percent_during ::
  "'d double_ops \<Rightarrow> u64 \<Rightarrow> proc_fs \<Rightarrow> proc_fs \<Rightarrow> CPU_Usage \<Rightarrow> Process_Info \<Rightarrow> u32 \<Rightarrow> u32 \<Rightarrow> bool
     \<Rightarrow> 'd option" where
  "cpu_usage_percent_during D ticks F F' junk info pid duration use_child_time =
     (if duration = 0 then Some (d_int D (- 1))
      else do {
        (ok, start) \<leftarrow> process_info_of F junk pid info;
        if \<not> ok then Some (d_int D (- 1)) else do {
        (ok, fin) \<leftarrow> process_info_of F' junk pid info;
        Some (if \<not> ok then d_int D (- 1)
          else percent_of_duration D ticks
            (cpu_usage_diff (pi_cusage start) (pi_cusage fin) use_child_time) duration) } })"

definition cpu_usage_percent_during_self ::
  "'d double_ops \<Rightarrow> u64 \<Rightarrow> proc_fs \<Rightarrow> proc_fs \<Rightarrow> CPU_Usage \<Rightarrow> Process_Info \<Rightarrow> u32 \<Rightarrow> bool \<Rightarrow> 'd option" where
  "cpu_usage_percent_during_self D ticks F F' junk info duration use_child_time =
     cpu_usage_percent_during D ticks F F' junk info (pf_self F) duration use_child_time"

definition cpu_usage_percent_between ::
  "'d double_ops \<Rightarrow> u64 \<Rightarrow> Process_Info \<Rightarrow> Process_Info \<Rightarrow> u32 \<Rightarrow> bool \<Rightarrow> 'd" where
  "cpu_usage_percent_between D ticks start fin duration use_child_time =
     (if duration = 0 then d_int D (- 1)
      else percent_of_duration D ticks
        (cpu_usage_diff (pi_cusage start) (pi_cusage fin) use_child_time) duration)"

section \<open>Memory\<close>

text \<open>\<open>rss\<close> and the size of a page are \<open>long\<close>s, the product is converted as one.\<close>

definition memory_usage_percent ::
  "'d double_ops \<Rightarrow> u64 \<Rightarrow> Process_Info \<Rightarrow> Hardware_Memory_Usage \<Rightarrow> 'd" where
  "memory_usage_percent D page_kb info mem =
     d_div D (d_int D (sint (100 * mu_rss (pi_usage info) * page_kb))) (d_int D (uint (hm_total mem)))"

definition memory_usage_percent_pid ::
  "'d double_ops \<Rightarrow> u64 \<Rightarrow> proc_fs \<Rightarrow> CPU_Usage \<Rightarrow> Hardware_Memory_Usage \<Rightarrow> Process_Info \<Rightarrow> u32
     \<Rightarrow> 'd option" where
  "memory_usage_percent_pid D page_kb F junk mjunk info pid = do {
     (ok, info) \<leftarrow> process_info_of F junk pid info;
     if \<not> ok then Some (d_int D (- 1))
     else (case hardware_memory_usage F mjunk of (ok, mem) \<Rightarrow>
       Some (if \<not> ok then d_int D (- 1) else memory_usage_percent D page_kb info mem)) }"

definition memory_usage_percent_self ::
  "'d double_ops \<Rightarrow> u64 \<Rightarrow> proc_fs \<Rightarrow> CPU_Usage \<Rightarrow> Hardware_Memory_Usage \<Rightarrow> Process_Info \<Rightarrow> 'd option"
where
  "memory_usage_percent_self D page_kb F junk mjunk info =
     memory_usage_percent_pid D page_kb F junk mjunk info (pf_self F)"

definition memory_peak_usage_self ::
  "proc_fs \<Rightarrow> Memory_Peak_Usage \<Rightarrow> (bool \<times> Memory_Peak_Usage) option" where
  "memory_peak_usage_self F peak = memory_peak_usage F (pf_self F) peak"

section \<open>Processor times of the machine\<close>

record 'd CPU_Percent =
  cp_user :: 'd
  cp_nice :: 'd
  cp_system :: 'd
  cp_idle :: 'd
  cp_iowait :: 'd
  cp_irq :: 'd
  cp_soft_irq :: 'd
  cp_steal :: 'd
  cp_guest :: 'd
  cp_guest_nice :: 'd

text \<open>\<open>CONVERT_PERCENT\<close> for every field; without any time nothing is assigned.\<close>

definition convert_percent :: "'d double_ops \<Rightarrow> u64 \<Rightarrow> u64 \<Rightarrow> 'd" where
  "convert_percent D total_time field =
     d_mul D (d_int D 100) (d_div D (d_int D (uint field)) (d_int D (uint total_time)))"

definition hardware_cpu_time_percent ::
  "'d double_ops \<Rightarrow> CPU_Time \<Rightarrow> 'd CPU_Percent \<Rightarrow> 'd CPU_Percent" where
  "hardware_cpu_time_percent D t percent =
     (let total_time = total_cpu_time t; conv = convert_percent D total_time in
      if total_time = 0 then percent
      else \<lparr>cp_user = conv (ct_user t), cp_nice = conv (ct_nice t), cp_system = conv (ct_system t),
            cp_idle = conv (ct_idle t), cp_iowait = conv (ct_iowait t), cp_irq = conv (ct_irq t),
            cp_soft_irq = conv (ct_soft_irq t), cp_steal = conv (ct_steal t),
            cp_guest = conv (ct_guest t), cp_guest_nice = conv (ct_guest_nice t)\<rparr>)"

definition hardware_cpu_percent_of ::
  "'d double_ops \<Rightarrow> proc_fs \<Rightarrow> string \<Rightarrow> CPU_Time \<Rightarrow> 'd CPU_Percent \<Rightarrow> bool \<times> 'd CPU_Percent" where
  "hardware_cpu_percent_of D F cpu junk percent =
     (case check_get_cpu_time F cpu junk of (ok, time) \<Rightarrow>
        if \<not> ok then (False, percent) else (True, hardware_cpu_time_percent D time percent))"

definition hardware_cpu_percent_during ::
  "'d double_ops \<Rightarrow> proc_fs \<Rightarrow> proc_fs \<Rightarrow> string \<Rightarrow> CPU_Time \<Rightarrow> 'd CPU_Percent
     \<Rightarrow> bool \<times> 'd CPU_Percent" where
  "hardware_cpu_percent_during D F F' cpu junk percent =
     (case check_get_cpu_time F cpu junk of (ok, start) \<Rightarrow>
        if \<not> ok then (False, percent)
        else (case check_get_cpu_time F' cpu junk of (ok, fin) \<Rightarrow>
          if \<not> ok then (False, percent)
          else (True, hardware_cpu_time_percent D (cpu_time_diff start fin) percent)))"

section \<open>Without rounding\<close>

definition exact :: "(rat \<Rightarrow> istream \<Rightarrow> rat \<times> istream) \<Rightarrow> rat double_ops" where
  "exact rd = \<lparr>d_int = of_int, d_sub = (-), d_mul = (*), d_div = (/), d_lround = round, d_read = rd\<rparr>"

definition cpu_fields :: "CPU_Time \<Rightarrow> u64 list" where
  "cpu_fields t = [ct_user t, ct_nice t, ct_system t, ct_idle t, ct_iowait t, ct_irq t, ct_soft_irq t,
     ct_steal t, ct_guest t, ct_guest_nice t]"

definition percent_fields :: "'d CPU_Percent \<Rightarrow> 'd list" where
  "percent_fields p = [cp_user p, cp_nice p, cp_system p, cp_idle p, cp_iowait p, cp_irq p,
     cp_soft_irq p, cp_steal p, cp_guest p, cp_guest_nice p]"

lemma uint_sum_list:
  "sum_list (map uint ws) < 2 ^ 64 \<Longrightarrow> uint (sum_list (ws :: u64 list)) = sum_list (map uint ws)"
proof (induction ws)
  case (Cons w ws)
  have nn: "0 \<le> sum_list (map uint ws)" by (induction ws) simp_all
  have "sum_list (map uint ws) < 2 ^ 64"
    using Cons.prems uint_ge_0 [of w] by (simp del: uint_ge_0, linarith)
  then have "uint (sum_list ws) = sum_list (map uint ws)" by (rule Cons.IH)
  then show ?case
    using Cons.prems by (simp add: uint_word_ariths mod_pos_pos_trivial nn)
qed simp

lemma percent_fields_eq:
  assumes "total_cpu_time t \<noteq> 0"
  shows "percent_fields (hardware_cpu_time_percent D t p) =
    map (convert_percent D (total_cpu_time t)) (cpu_fields t)"
  using assms by (simp add: hardware_cpu_time_percent_def percent_fields_def cpu_fields_def Let_def)

lemma sum_list_scaled:
  "sum_list (map (\<lambda>w. 100 * (of_int (uint w) / s)) ws) =
     100 * (of_int (sum_list (map uint ws)) / (s :: rat))"
  by (induction ws) (simp_all add: add_divide_distrib distrib_left)

text \<open>
  The percentages of a processor add up: when its times do not overflow together, each is
  its part of the whole, and without rounding the ten are 100 in sum, none below 0 and none
  above 100.
\<close>

theorem percent_adds_up:
  assumes "sum_list (map uint (cpu_fields t)) < 2 ^ 64" "total_cpu_time t \<noteq> 0"
  shows "sum_list (percent_fields (hardware_cpu_time_percent (exact rd) t p)) = 100 \<and>
    (\<forall>x\<in>set (percent_fields (hardware_cpu_time_percent (exact rd) t p)). 0 \<le> x \<and> x \<le> 100)"
proof -
  let ?T = "of_int (uint (total_cpu_time t)) :: rat"
  have sum: "total_cpu_time t = sum_list (cpu_fields t)"
    by (simp add: total_cpu_time_def cpu_fields_def)
  have u: "uint (total_cpu_time t) = sum_list (map uint (cpu_fields t))"
    unfolding sum by (rule uint_sum_list [OF assms(1)])
  have pos: "0 < ?T" using assms(2) uint_ge_0 [of "total_cpu_time t"]
    by (metis of_int_0_less_iff order_le_neq_trans uint_0_iff)
  have f: "percent_fields (hardware_cpu_time_percent (exact rd) t p) =
      map (\<lambda>w. 100 * (of_int (uint w) / ?T)) (cpu_fields t)"
    unfolding percent_fields_eq [OF assms(2)] by (simp add: convert_percent_def exact_def)
  have "uint w \<le> uint (total_cpu_time t)" if "w \<in> set (cpu_fields t)" for w
    unfolding u using that by (intro member_le_sum_list) auto
  then have "0 \<le> 100 * (of_int (uint w) / ?T) \<and> 100 * (of_int (uint w) / ?T) \<le> 100"
    if "w \<in> set (cpu_fields t)" for w
  proof -
    have "0 \<le> (of_int (uint w) :: rat)" "(of_int (uint w) :: rat) \<le> ?T"
      using \<open>\<And>w. w \<in> set (cpu_fields t) \<Longrightarrow> uint w \<le> uint (total_cpu_time t)\<close> [OF that]
      by (simp_all only: of_int_0_le_iff of_int_le_iff uint_ge_0)
    then have "0 \<le> of_int (uint w) / ?T" "of_int (uint w) / ?T \<le> 1"
      using pos by (simp_all only: zero_le_divide_iff divide_le_eq_1_pos less_imp_le simp_thms)
    then show ?thesis by linarith
  qed
  moreover have "sum_list (map (\<lambda>w. 100 * (of_int (uint w) / ?T)) (cpu_fields t)) = 100 * (?T / ?T)"
    using sum_list_scaled [of ?T "cpu_fields t"] unfolding u [symmetric] .
  moreover have "?T / ?T = 1" using pos by simp
  ultimately show ?thesis unfolding f by fastforce
qed

text \<open>
  A machine that is asked twice within one tick has had no time at all: the percentages are
  then what the variable held before, although the function reports success.
\<close>

lemma percent_no_time:
  assumes "check_get_cpu_time F cpu junk = (True, t)"
  shows "hardware_cpu_percent_during D F F cpu junk p = (True, p)"
  using assms by (simp add: hardware_cpu_percent_during_def hardware_cpu_time_percent_def
      cpu_time_diff_def total_cpu_time_def)

end
