(* ===== verification/Print_System.thy ===== *)
theory Print_System
  imports Hardware_Info
begin

text \<open>
  What \<open>src/src/libs/system_info/src/print_system.cpp\<close> prints: each function is the text it
  sends to the standard output.  \<open>tab\<close> and \<open>nl\<close> are the characters of the literals.
\<close>

section \<open>Numbers and columns\<close>

definition tab :: string where "tab = [CHR 0x09]"
definition nl :: string where "nl = [CHR 0x0A]"

definition show_u64 :: "u64 \<Rightarrow> string" where
  "show_u64 w = show_int (uint w)"

definition show_u32 :: "u32 \<Rightarrow> string" where
  "show_u32 w = show_int (sint w)"

section \<open>A process\<close>

definition print_memory_usage :: "Memory_Usage \<Rightarrow> string" where
  "print_memory_usage u =
     tab @ ''total:'' @ tab @ show_u64 (mu_total u) @ nl @
     tab @ ''rss:'' @ tab @ show_int (sint (mu_rss u)) @ nl @
     tab @ ''shared:'' @ tab @ show_u64 (mu_shared u) @ nl @
     tab @ ''text:'' @ tab @ show_u64 (mu_text u) @ nl @
     tab @ ''data:'' @ tab @ show_u64 (mu_data u) @ nl"

definition print_cpu_usage :: "CPU_Usage \<Rightarrow> string" where
  "print_cpu_usage u =
     tab @ ''utime:'' @ tab @ show_u64 (cu_utime u) @ nl @
     tab @ ''stime:'' @ tab @ show_u64 (cu_stime u) @ nl @
     tab @ ''cutime:'' @ tab @ show_u64 (cu_cutime u) @ nl @
     tab @ ''cstime:'' @ tab @ show_u64 (cu_cstime u) @ nl @
     tab @ ''starttime:'' @ tab @ show_u64 (cu_starttime u) @ nl"

definition print_cpu_usage_header :: string where
  "print_cpu_usage_header = ''name'' @ tab @ ''ut'' @ tab @ ''st'' @ tab @ ''cut'' @ tab @ ''cst'' @ nl"

definition print_cpu_usage_short :: "string \<Rightarrow> CPU_Usage \<Rightarrow> string" where
  "print_cpu_usage_short name u =
     name @ tab @ show_u64 (cu_utime u) @ tab @ show_u64 (cu_stime u) @ tab @
     show_u64 (cu_cutime u) @ tab @ show_u64 (cu_cstime u) @ tab @ show_u64 (cu_starttime u) @ nl"

text \<open>
  The loop takes the times of the threads by position; a position that does not exist is
  outside the vector.
\<close>

fun print_threads :: "u32 list \<Rightarrow> CPU_Usage list \<Rightarrow> string option" where
  "print_threads [] us = Some ''''"
| "print_threads (p # ps) [] = None"
| "print_threads (p # ps) (u # us) = do {
     rest \<leftarrow> print_threads ps us; Some (print_cpu_usage_short (show_u32 p) u @ rest) }"

definition print_all_cpu_usage :: "Process_Info \<Rightarrow> string option" where
  "print_all_cpu_usage info = do {
     threads \<leftarrow> print_threads (pi_tpid info) (pi_tcusage info);
     Some (print_cpu_usage_header @ print_cpu_usage_short ''main'' (pi_cusage info) @ threads) }"

definition print_all_cpu_usage_pid ::
  "proc_fs \<Rightarrow> CPU_Usage \<Rightarrow> Process_Info \<Rightarrow> u32 \<Rightarrow> string option" where
  "print_all_cpu_usage_pid F junk info pid = do {
     (ok, info) \<leftarrow> process_info_of F junk pid info;
     if \<not> ok then Some '''' else print_all_cpu_usage info }"

definition print_all_cpu_usage_self :: "proc_fs \<Rightarrow> CPU_Usage \<Rightarrow> Process_Info \<Rightarrow> string option" where
  "print_all_cpu_usage_self F junk info = do {
     (ok, info) \<leftarrow> process_info F junk info;
     if \<not> ok then Some '''' else print_all_cpu_usage info }"

definition print_process_info :: "Process_Info \<Rightarrow> string" where
  "print_process_info info =
     ''PID/P:'' @ tab @ tab @ show_u32 (pi_pid info) @ '' / '' @ show_u32 (pi_ppid info) @ nl @
     ''Command:'' @ tab @ concat (map (\<lambda>a. a @ '' '') (pi_cmd info)) @
     nl @ ''Memory usage:'' @ nl @ print_memory_usage (pi_usage info) @
     nl @ ''CPU usage:'' @ nl @ print_cpu_usage (pi_cusage info) @
     nl @ ''Threads:'' @ tab @ concat (map (\<lambda>p. show_u32 p @ '' '') (pi_tpid info)) @ nl"

definition process_info_error :: string where
  "process_info_error = ''Error getting process info'' @ nl"

definition print_process_info_pid ::
  "proc_fs \<Rightarrow> CPU_Usage \<Rightarrow> Process_Info \<Rightarrow> u32 \<Rightarrow> string option" where
  "print_process_info_pid F junk info pid = do {
     (ok, info) \<leftarrow> process_info_of F junk pid info;
     Some (if \<not> ok then process_info_error else print_process_info info) }"

definition print_process_info_self :: "proc_fs \<Rightarrow> CPU_Usage \<Rightarrow> Process_Info \<Rightarrow> string option" where
  "print_process_info_self F junk info = do {
     (ok, info) \<leftarrow> process_info F junk info;
     Some (if \<not> ok then process_info_error else print_process_info info) }"

section \<open>The machine\<close>

definition print_hardware_memory_usage :: "Hardware_Memory_Usage \<Rightarrow> string" where
  "print_hardware_memory_usage u =
     ''MemTotal:'' @ tab @ show_u64 (hm_total u) @ tab @ ''kB'' @ nl @
     ''MemFree:'' @ tab @ show_u64 (hm_free u) @ tab @ ''kB'' @ nl @
     ''MemAvailable:'' @ tab @ show_u64 (hm_available u) @ tab @ ''kB'' @ nl @
     ''Buffers:'' @ tab @ show_u64 (hm_buffer u) @ tab @ ''kB'' @ nl @
     ''Cached:'' @ tab @ tab @ show_u64 (hm_cached u) @ tab @ ''kB'' @ nl @
     ''SwapCached:'' @ tab @ show_u64 (hm_swap_cached u) @ tab @ ''kB'' @ nl @
     ''SwapTotal:'' @ tab @ show_u64 (hm_swap_total u) @ tab @ ''kB'' @ nl @
     ''SwapFree:'' @ tab @ show_u64 (hm_swap_free u) @ tab @ ''kB'' @ nl"

definition print_hardware_cpu_time :: "string \<Rightarrow> CPU_Time \<Rightarrow> string" where
  "print_hardware_cpu_time name t =
     name @ tab @ show_u64 (ct_user t) @ tab @ show_u64 (ct_nice t) @ tab @ show_u64 (ct_system t) @ tab @
     show_u64 (ct_idle t) @ tab @ show_u64 (ct_iowait t) @ tab @ show_u64 (ct_irq t) @ tab @
     show_u64 (ct_soft_irq t) @ tab @ show_u64 (ct_steal t) @ tab @ show_u64 (ct_guest t) @ tab @
     show_u64 (ct_guest_nice t) @ nl"

definition print_hardware_cpu_usage :: "Hardware_CPU_Usage \<Rightarrow> string" where
  "print_hardware_cpu_usage usage =
     ''Process/running/blocked: '' @ show_u64 (hc_processes usage) @ '' / '' @
     show_u64 (hc_process_running usage) @ '' / '' @ show_u64 (hc_process_blocked usage) @ nl @
     ''name'' @ tab @ ''user'' @ tab @ ''nice'' @ tab @ ''system'' @ tab @ ''idle'' @ tab @ tab @
     ''iowait'' @ tab @ ''irq'' @ tab @ ''softirq'' @ tab @ ''steal'' @ tab @ ''guest'' @ tab @
     ''guest_nice'' @ nl @
     concat (map (\<lambda>(name, t). print_hardware_cpu_time name t) (hc_cores usage))"

section \<open>Columns\<close>

text \<open>
  The table of processor times has one column less in its first line than in every other:
  the start time has no title.
\<close>

definition columns :: "string \<Rightarrow> nat" where
  "columns line = Suc (length (filter (\<lambda>c. c = CHR 0x09) line))"

lemma tabs_show_nat [simp]: "filter (\<lambda>c. c = CHR 0x09) (show_nat n) = []"
proof -
  have "\<not> is_digit CHR 0x09" by (simp add: is_digit_def)
  then show ?thesis using show_nat_digits [of n] by (auto simp: filter_empty_conv)
qed

lemma tabs_show_u64 [simp]: "filter (\<lambda>c. c = CHR 0x09) (show_u64 w) = []"
  by (simp add: show_u64_def show_int_def not_less)

lemma header_lacks_column:
  assumes "CHR 0x09 \<notin> set name"
  shows "columns (print_cpu_usage_short name usage) = Suc (columns print_cpu_usage_header)"
proof -
  have "filter (\<lambda>c. c = CHR 0x09) name = []" using assms by (auto simp: filter_empty_conv)
  then show ?thesis
    by (simp add: columns_def print_cpu_usage_short_def print_cpu_usage_header_def tab_def nl_def)
qed

end
