(* ===== verification/Console_Text.thy ===== *)
theory Console_Text
  imports Arguments Print_System Json_Dom
begin

text \<open>
  The texts the program writes for its user: the help of \<open>src/src/arguments.cpp\<close>, the message
  of \<open>main\<close> for a start that failed, and the JSON texts of
  \<open>src/src/libs/utility/src/json_helper.cpp\<close>.
\<close>

section \<open>Help\<close>

definition make_command_line_help :: "string \<Rightarrow> string" where
  "make_command_line_help name = name @ '' [options...] <port>''"

definition make_error_help :: "string \<Rightarrow> string" where
  "make_error_help name =
     ''Usage:'' @ nl @ tab @ make_command_line_help name @ nl @
     ''Example:'' @ nl @
     tab @ name @ '' 8080'' @ nl @
     tab @ name @ '' --addr 127.0.0.1 --threads 5 8080'' @ nl @
     tab @ name @ '' --key domain.key --cert domain.crt 8080'' @ nl @
     ''More options use: -h''"

definition help_lines :: "string list" where
  "help_lines =
     [''Required:'',
      tab @ ''<port>: socket port.'',
      ''Required when compiled with SSL support:'',
      tab @ ''-k, --key=<path_key_file>'',
      tab @ tab @ ''PEM file with the SSL private key.'',
      tab @ ''-c, --cert=<path_cert_file>'',
      tab @ tab @ ''PEM file with SSL certificate'',
      ''Options:'',
      tab @ ''-h, --help'',
      tab @ tab @ ''This help message.'',
      tab @ ''-a, --addr=<addr> | Default: 0.0.0.0 (all interfaces)'',
      tab @ tab @ ''IP address that will be listened.'',
      tab @ ''-t, --threads=<num> | Default: 1'',
      tab @ tab @ ''Number of threads that will share the work. '' @
        ''<num> must be a number equal or greater 1.'',
      tab @ ''-o, --config [config_file]'',
      tab @ tab @ ''Read/write config file. If no argument provided, prints the configuration '' @
        ''passed at command line (to be redirected to a file). If a argument is provided, reads '' @
        ''configuration from this file (inline attributes overwrite file attributes).  '',
      '' '' @ tab @ ''-s, --ssl'',
      tab @ tab @ ''Print 'true' if compiled with SSL support (otherwise 'false').'',
      tab @ ''-p, --apps'',
      tab @ tab @ ''Prints compiled apps name.'',
      tab @ ''-v, --version'',
      tab @ tab @ ''Prints version infomartion'']"

definition make_help :: "string \<Rightarrow> string" where
  "make_help name = make_command_line_help name @ concat (map (\<lambda>l. nl @ l) help_lines)"

definition print_help :: "string \<Rightarrow> string" where
  "print_help name = make_help name @ nl"

definition print_args :: "bool \<Rightarrow> arguments \<Rightarrow> string" where
  "print_args use_ssl a =
     ''--addr='' @ ar_addr a @ nl @ ''--threads='' @ show_u32 (ar_threads a) @ nl @
     (if use_ssl then ''--key='' @ ar_key a @ nl @ ''--cert='' @ ar_cert a @ nl else []) @
     ''Port='' @ show_u32 (ar_port a) @ nl"

text \<open>The text on the error stream and the exit status, which is 1; the reason is not shown.\<close>

definition fail_program :: "string \<Rightarrow> string \<Rightarrow> string \<times> nat" where
  "fail_program program reason = (make_error_help program @ nl, 1)"

section \<open>JSON\<close>

text \<open>\<open>pretty_write\<close> is the text of RapidJSON's \<open>PrettyWriter\<close>; both end at the first NUL.\<close>

definition json_2_string ::
  "('j, 'z) lib_scheme \<Rightarrow> ('j \<Rightarrow> string) \<Rightarrow> 'j \<Rightarrow> bool \<Rightarrow> string" where
  "json_2_string L pretty_write d pretty = c_str (if pretty then pretty_write d else jd_write L d)"

definition print_json ::
  "('j, 'z) lib_scheme \<Rightarrow> ('j \<Rightarrow> string) \<Rightarrow> 'j \<Rightarrow> bool \<Rightarrow> string" where
  "print_json L pretty_write d pretty = json_2_string L pretty_write d pretty"

section \<open>Lemmas\<close>

text \<open>
  What is printed of the arguments shows them: two programs built alike whose addresses and
  files have no line ends print the same text only when their arguments are the same.
\<close>

lemma line_inj:
  assumes "CHR 0x0A \<notin> set a" "CHR 0x0A \<notin> set b" "a @ nl @ x = b @ nl @ y"
  shows "a = b \<and> x = y"
proof -
  have t: "takeWhile (\<lambda>c. c \<noteq> CHR 0x0A) (s @ nl @ z) = s" if "CHR 0x0A \<notin> set s" for s z
    using that by (induction s) (auto simp: nl_def)
  have "a = b" using t [OF assms(1), of x] t [OF assms(2), of y] assms(3) by metis
  then show ?thesis using assms(3) by simp
qed

lemma show_int_no_newline: "CHR 0x0A \<notin> set (show_int n)"
  using show_nat_digits [of "nat (- n)"] show_nat_digits [of "nat n"] newline_simps
  by (auto simp: show_int_def)

lemma show_u32_inj: "show_u32 (a :: u32) = show_u32 b \<Longrightarrow> a = b"
proof -
  assume "show_u32 a = show_u32 b"
  then have "in_int 0 (open_in (show_int (sint a) @ [CHR 0x0A])) =
      in_int 0 (open_in (show_int (sint b) @ [CHR 0x0A]))" by (simp add: show_u32_def)
  then show ?thesis using in_int_value [of 0 a "[]"] in_int_value [of 0 b "[]"] by simp
qed

definition one_line_args :: "arguments \<Rightarrow> bool" where
  "one_line_args a \<longleftrightarrow>
     CHR 0x0A \<notin> set (ar_addr a) \<and> CHR 0x0A \<notin> set (ar_key a) \<and> CHR 0x0A \<notin> set (ar_cert a)"

lemma field_inj:
  assumes "k @ x @ nl @ r = k @ y @ nl @ r'" "CHR 0x0A \<notin> set x" "CHR 0x0A \<notin> set y"
  shows "x = y" "r = r'"
proof -
  have "x @ nl @ r = y @ nl @ r'" using assms(1) by (simp only: same_append_eq)
  then have "x = y \<and> r = r'" by (rule line_inj [OF assms(2,3)])
  then show "x = y" "r = r'" by (rule conjunct1, rule conjunct2)
qed

theorem print_args_shows:
  assumes "one_line_args a" "one_line_args b" "print_args True a = print_args True b"
  shows "a = b"
proof -
  define P :: "arguments \<Rightarrow> string" where "P c = ''Port='' @ show_u32 (ar_port c) @ nl @ []" for c
  define C :: "arguments \<Rightarrow> string" where "C c = ''--cert='' @ ar_cert c @ nl @ P c" for c
  define K :: "arguments \<Rightarrow> string" where "K c = ''--key='' @ ar_key c @ nl @ C c" for c
  define T :: "arguments \<Rightarrow> string" where "T c = ''--threads='' @ show_u32 (ar_threads c) @ nl @ K c" for c
  have eq: "print_args True c = ''--addr='' @ ar_addr c @ nl @ T c" for c
    unfolding print_args_def T_def K_def C_def P_def by (simp only: if_True append_assoc append_Nil2)
  have n: "CHR 0x0A \<notin> set (show_u32 w)" for w by (simp only: show_u32_def show_int_no_newline not_False_eq_True)
  have l: "CHR 0x0A \<notin> set (ar_addr c)" "CHR 0x0A \<notin> set (ar_key c)" "CHR 0x0A \<notin> set (ar_cert c)"
    if "c \<in> {a, b}" for c
    using that assms(1,2) by (auto simp only: one_line_args_def)
  note 0 = field_inj [OF assms(3) [unfolded eq] l(1) l(1)]
  note 1 = field_inj [OF 0(2) [unfolded T_def] n n]
  note 2 = field_inj [OF 1(2) [unfolded K_def] l(2) l(2)]
  note 3 = field_inj [OF 2(2) [unfolded C_def] l(3) l(3)]
  note 4 = field_inj [OF 3(2) [unfolded P_def] n n]
  show ?thesis
    by (intro arguments.equality show_u32_inj 0(1) 1(1) 2(1) 3(1) 4(1)) simp_all
qed

end
