(* ===== verification/Locks.thy ===== *)
theory Locks
  imports Prelude
begin

text \<open>
  The locks of \<open>src/src/libs/utility/src/handler_helper.cpp\<close> (the branch for Unix).
  \<open>fcntl\<close> is a function of the system and an argument of every definition: it takes the
  state of the system and gives the result, the structure it has filled in and the state
  after it.  \<open>posix_fcntl\<close> is what POSIX says of it for locks of whole files.
\<close>

section \<open>The call of the system\<close>

datatype lock_type = F_RDLCK | F_WRLCK | F_UNLCK
datatype lock_cmd = F_GETLK | F_SETLK

text \<open>\<open>struct flock\<close>; the members the code leaves 0 are the whole file from its start.\<close>

record flock =
  l_type :: lock_type
  l_whence :: int
  l_start :: int
  l_len :: int
  l_pid :: int

definition flock_zero :: flock where
  "flock_zero = \<lparr>l_type = F_RDLCK, l_whence = 0, l_start = 0, l_len = 0, l_pid = 0\<rparr>"

definition whole_file :: "lock_type \<Rightarrow> flock" where
  "whole_file t = flock_zero\<lparr>l_type := t, l_whence := 0\<rparr>"

type_synonym 'k fcntl_fn = "int \<Rightarrow> lock_cmd \<Rightarrow> flock \<Rightarrow> 'k \<Rightarrow> int \<times> flock \<times> 'k"

datatype lock_error = bad_file_descriptor | no_lock_available | operation_not_permitted

section \<open>Operations\<close>

text \<open>
  The result of \<open>F_GETLK\<close> is not looked at: a call that fails leaves the structure as it
  was, of type \<open>F_WRLCK\<close>.
\<close>

definition check_lock_handler :: "'k fcntl_fn \<Rightarrow> int \<Rightarrow> 'k \<Rightarrow> bool \<times> 'k" where
  "check_lock_handler fcntl handler k =
     (if handler \<le> 0 then (False, k)
      else (case fcntl handler F_GETLK (whole_file F_WRLCK) k of
        (_, fl, k) \<Rightarrow> (l_type fl \<noteq> F_UNLCK, k)))"

text \<open>\<open>ec\<close> is the argument of the caller; success leaves it as it is.\<close>

definition lock_handler_ec ::
  "'k fcntl_fn \<Rightarrow> int \<Rightarrow> lock_error option \<Rightarrow> 'k \<Rightarrow> lock_error option \<times> 'k" where
  "lock_handler_ec fcntl handler ec k =
     (if handler \<le> 0 then (Some bad_file_descriptor, k)
      else (case fcntl handler F_SETLK (whole_file F_WRLCK) k of
        (err, _, k) \<Rightarrow> (if err = - 1 then Some no_lock_available else ec, k)))"

definition lock_handler :: "'k fcntl_fn \<Rightarrow> int \<Rightarrow> 'k \<Rightarrow> bool \<times> 'k" where
  "lock_handler fcntl handler k =
     (case lock_handler_ec fcntl handler None k of (ec, k) \<Rightarrow> (ec = None, k))"

definition unlock_handler_ec ::
  "'k fcntl_fn \<Rightarrow> int \<Rightarrow> lock_error option \<Rightarrow> 'k \<Rightarrow> lock_error option \<times> 'k" where
  "unlock_handler_ec fcntl handler ec k =
     (if handler \<le> 0 then (Some bad_file_descriptor, k)
      else (case fcntl handler F_SETLK (whole_file F_UNLCK) k of
        (err, _, k) \<Rightarrow> (if err = - 1 then Some operation_not_permitted else ec, k)))"

definition unlock_handler :: "'k fcntl_fn \<Rightarrow> int \<Rightarrow> 'k \<Rightarrow> bool \<times> 'k" where
  "unlock_handler fcntl handler k =
     (case unlock_handler_ec fcntl handler None k of (ec, k) \<Rightarrow> (ec = None, k))"

definition lock_handler_if_not :: "'k fcntl_fn \<Rightarrow> int \<Rightarrow> 'k \<Rightarrow> bool \<times> 'k" where
  "lock_handler_if_not fcntl handler k =
     (case check_lock_handler fcntl handler k of (locked, k) \<Rightarrow>
        if \<not> locked then lock_handler fcntl handler k else (False, k))"

section \<open>What POSIX says\<close>

text \<open>
  \<open>file k p fd\<close> is the file a descriptor of process \<open>p\<close> is open for, to read and to write,
  \<open>holders k f\<close> the processes with a write lock on the whole of it.  A lock of the
  process itself never stands in its way.
\<close>

record ('k, 'f) lock_view =
  lv_file :: "'k \<Rightarrow> nat \<Rightarrow> int \<Rightarrow> 'f option"
  lv_holders :: "'k \<Rightarrow> 'f \<Rightarrow> nat set"

definition same_but :: "('k, 'f) lock_view \<Rightarrow> 'f \<Rightarrow> nat set \<Rightarrow> 'k \<Rightarrow> 'k \<Rightarrow> bool" where
  "same_but V f hs k k' \<longleftrightarrow> lv_file V k' = lv_file V k \<and>
     lv_holders V k' = (lv_holders V k)(f := hs)"

definition posix_fcntl :: "('k, 'f) lock_view \<Rightarrow> (nat \<Rightarrow> 'k fcntl_fn) \<Rightarrow> bool" where
  "posix_fcntl V fcntl \<longleftrightarrow> (\<forall>p fd k.
     (case lv_file V k p fd of
        None \<Rightarrow> (\<forall>cmd fl. fcntl p fd cmd fl k = (- 1, fl, k))
      | Some f \<Rightarrow>
          (let other = \<not> lv_holders V k f \<subseteq> {p} in
           (\<exists>fl. fcntl p fd F_GETLK (whole_file F_WRLCK) k = (0, fl, k) \<and>
              (l_type fl = F_UNLCK \<longleftrightarrow> \<not> other)) \<and>
           (if other then (\<exists>fl. fcntl p fd F_SETLK (whole_file F_WRLCK) k = (- 1, fl, k))
            else (\<exists>fl k'. fcntl p fd F_SETLK (whole_file F_WRLCK) k = (0, fl, k') \<and>
              same_but V f {p} k k')) \<and>
           (\<exists>fl k'. fcntl p fd F_SETLK (whole_file F_UNLCK) k = (0, fl, k') \<and>
              same_but V f (lv_holders V k f - {p}) k k'))))"

section \<open>One call\<close>

lemma posix_closed:
  "\<lbrakk>posix_fcntl V fcntl; lv_file V k p fd = None\<rbrakk> \<Longrightarrow> fcntl p fd cmd fl k = (- 1, fl, k)"
  unfolding posix_fcntl_def by (drule spec [of _ p], drule spec [of _ fd], drule spec [of _ k]) simp

lemma posix_open:
  assumes "posix_fcntl V fcntl" "lv_file V k p fd = Some f"
  shows "(\<exists>fl. fcntl p fd F_GETLK (whole_file F_WRLCK) k = (0, fl, k) \<and>
      (l_type fl = F_UNLCK \<longleftrightarrow> lv_holders V k f \<subseteq> {p})) \<and>
    (if \<not> lv_holders V k f \<subseteq> {p}
     then (\<exists>fl. fcntl p fd F_SETLK (whole_file F_WRLCK) k = (- 1, fl, k))
     else (\<exists>fl k'. fcntl p fd F_SETLK (whole_file F_WRLCK) k = (0, fl, k') \<and>
       same_but V f {p} k k')) \<and>
    (\<exists>fl k'. fcntl p fd F_SETLK (whole_file F_UNLCK) k = (0, fl, k') \<and>
      same_but V f (lv_holders V k f - {p}) k k')"
proof -
  note assms(1) [unfolded posix_fcntl_def Let_def, THEN spec [of _ p], THEN spec [of _ fd], THEN spec [of _ k]]
  then show ?thesis using assms(2) by simp
qed

lemma check_lock_posix:
  assumes "posix_fcntl V fcntl" "0 < fd"
  shows "check_lock_handler (fcntl p) fd k =
    (case lv_file V k p fd of None \<Rightarrow> True | Some f \<Rightarrow> \<not> lv_holders V k f \<subseteq> {p}, k)"
proof (cases "lv_file V k p fd")
  case None
  then have "fcntl p fd F_GETLK (whole_file F_WRLCK) k = (- 1, whole_file F_WRLCK, k)"
    using posix_closed [OF assms(1)] by blast
  then show ?thesis using assms(2) None by (simp add: check_lock_handler_def whole_file_def)
next
  case (Some f)
  then obtain fl where "fcntl p fd F_GETLK (whole_file F_WRLCK) k = (0, fl, k)"
    "l_type fl = F_UNLCK \<longleftrightarrow> lv_holders V k f \<subseteq> {p}"
    using posix_open [OF assms(1) Some] by blast
  then show ?thesis using assms(2) Some by (simp add: check_lock_handler_def)
qed

lemma lock_posix:
  assumes "posix_fcntl V fcntl" "0 < fd"
  shows "case lv_file V k p fd of None \<Rightarrow> lock_handler (fcntl p) fd k = (False, k)
    | Some f \<Rightarrow>
        if lv_holders V k f \<subseteq> {p}
        then \<exists>k'. lock_handler (fcntl p) fd k = (True, k') \<and> same_but V f {p} k k'
        else lock_handler (fcntl p) fd k = (False, k)"
proof (cases "lv_file V k p fd")
  case None
  then have "fcntl p fd F_SETLK (whole_file F_WRLCK) k = (- 1, whole_file F_WRLCK, k)"
    using posix_closed [OF assms(1)] by blast
  then show ?thesis using assms(2) None by (simp add: lock_handler_def lock_handler_ec_def)
next
  case (Some f)
  have P: "if \<not> lv_holders V k f \<subseteq> {p}
      then (\<exists>fl. fcntl p fd F_SETLK (whole_file F_WRLCK) k = (- 1, fl, k))
      else (\<exists>fl k'. fcntl p fd F_SETLK (whole_file F_WRLCK) k = (0, fl, k') \<and> same_but V f {p} k k')"
    using posix_open [OF assms(1) Some] by blast
  show ?thesis using P assms(2) Some
    by (cases "lv_holders V k f \<subseteq> {p}") (auto simp: lock_handler_def lock_handler_ec_def)
qed

lemma unlock_posix:
  assumes "posix_fcntl V fcntl" "0 < fd"
  shows "case lv_file V k p fd of None \<Rightarrow> unlock_handler (fcntl p) fd k = (False, k)
    | Some f \<Rightarrow> \<exists>k'. unlock_handler (fcntl p) fd k = (True, k') \<and>
        same_but V f (lv_holders V k f - {p}) k k'"
proof (cases "lv_file V k p fd")
  case None
  then have "fcntl p fd F_SETLK (whole_file F_UNLCK) k = (- 1, whole_file F_UNLCK, k)"
    using posix_closed [OF assms(1)] by blast
  then show ?thesis using assms(2) None by (simp add: unlock_handler_def unlock_handler_ec_def)
next
  case (Some f)
  have P: "\<exists>fl k'. fcntl p fd F_SETLK (whole_file F_UNLCK) k = (0, fl, k') \<and>
      same_but V f (lv_holders V k f - {p}) k k'"
    using posix_open [OF assms(1) Some] by blast
  show ?thesis using P assms(2) Some by (auto simp: unlock_handler_def unlock_handler_ec_def)
qed

text \<open>Asking first changes nothing: locking refuses what the question would have found.\<close>

lemma lock_if_not_posix:
  assumes "posix_fcntl V fcntl"
  shows "lock_handler_if_not (fcntl p) fd k = lock_handler (fcntl p) fd k"
proof (cases "0 < fd")
  case True
  show ?thesis
    using check_lock_posix [OF assms True, of p k] lock_posix [OF assms True, of p k]
    by (cases "lv_file V k p fd") (auto simp: lock_handler_if_not_def split: if_splits)
qed (simp add: lock_handler_if_not_def check_lock_handler_def)

text \<open>A descriptor that is not open is reported as locked, although no process has it.\<close>

lemma closed_descriptor_locked:
  assumes "posix_fcntl V fcntl" "0 < fd" "lv_file V k p fd = None"
  shows "fst (check_lock_handler (fcntl p) fd k)"
  using check_lock_posix [OF assms(1,2), of p k] assms(3) by simp

lemma lock_keeps_error:
  assumes "fcntl fd F_SETLK (whole_file F_WRLCK) k = (0, fl, k')" "0 < fd"
  shows "lock_handler_ec fcntl fd (Some e) k = (Some e, k')"
  using assms by (simp add: lock_handler_ec_def)

section \<open>Any processes, any calls\<close>

datatype lock_call = Lock nat int | Lock_If_Not nat int | Unlock nat int | Check nat int

fun lock_do :: "(nat \<Rightarrow> 'k fcntl_fn) \<Rightarrow> lock_call \<Rightarrow> 'k \<Rightarrow> bool \<times> 'k" where
  "lock_do fcntl (Lock p fd) k = lock_handler (fcntl p) fd k"
| "lock_do fcntl (Lock_If_Not p fd) k = lock_handler_if_not (fcntl p) fd k"
| "lock_do fcntl (Unlock p fd) k = unlock_handler (fcntl p) fd k"
| "lock_do fcntl (Check p fd) k = check_lock_handler (fcntl p) fd k"

fun lock_run :: "(nat \<Rightarrow> 'k fcntl_fn) \<Rightarrow> lock_call list \<Rightarrow> 'k \<Rightarrow> 'k" where
  "lock_run fcntl [] k = k"
| "lock_run fcntl (c # cs) k = lock_run fcntl cs (snd (lock_do fcntl c k))"

definition one_holder :: "('k, 'f) lock_view \<Rightarrow> 'k \<Rightarrow> bool" where
  "one_holder V k \<longleftrightarrow> (\<forall>f. \<exists>p. lv_holders V k f \<subseteq> {p})"

lemma same_but_one_holder:
  "\<lbrakk>same_but V f hs k k'; one_holder V k; hs \<subseteq> {p}\<rbrakk> \<Longrightarrow> one_holder V k'"
  by (auto simp: same_but_def one_holder_def)

lemma lock_handler_one:
  assumes "posix_fcntl V fcntl" "one_holder V k"
  shows "one_holder V (snd (lock_handler (fcntl p) fd k))"
proof (cases "0 < fd")
  case True
  show ?thesis using lock_posix [OF assms(1) True, of p k] assms(2)
    by (auto split: option.splits if_splits intro: same_but_one_holder)
qed (use assms(2) in \<open>simp add: lock_handler_def lock_handler_ec_def\<close>)

lemma unlock_handler_one:
  assumes "posix_fcntl V fcntl" "one_holder V k"
  shows "one_holder V (snd (unlock_handler (fcntl p) fd k))"
proof (cases "0 < fd")
  case True
  show ?thesis
  proof (cases "lv_file V k p fd")
    case (Some f)
    then obtain k' where k': "unlock_handler (fcntl p) fd k = (True, k')"
      "same_but V f (lv_holders V k f - {p}) k k'"
      using unlock_posix [OF assms(1) True, of p k] by auto
    obtain q where "lv_holders V k f \<subseteq> {q}" using assms(2) by (auto simp: one_holder_def)
    then show ?thesis using same_but_one_holder [OF k'(2) assms(2), of q] k'(1) by auto
  qed (use unlock_posix [OF assms(1) True, of p k] assms(2) in simp)
qed (use assms(2) in \<open>simp add: unlock_handler_def unlock_handler_ec_def\<close>)

lemma lock_do_one:
  assumes "posix_fcntl V fcntl" "one_holder V k"
  shows "one_holder V (snd (lock_do fcntl c k))"
proof (cases c)
  case (Check p fd)
  then show ?thesis using check_lock_posix [OF assms(1), of fd p k] assms(2)
    by (cases "0 < fd") (simp_all add: check_lock_handler_def)
qed (simp_all add: lock_handler_one [OF assms] unlock_handler_one [OF assms]
  lock_if_not_posix [OF assms(1)])

text \<open>
  Whatever calls processes make on their descriptors, a file never has two holders, and
  whoever has just been told that it has the lock is the only one.
\<close>

theorem locks_exclusive:
  assumes V: "posix_fcntl V fcntl" and k: "one_holder V k"
    and k1: "k1 = lock_run fcntl cs k" and l: "lock_do fcntl (Lock_If_Not p fd) k1 = (True, k2)"
  shows "one_holder V k2 \<and> (\<exists>f. lv_file V k1 p fd = Some f \<and> lv_holders V k2 f = {p})"
proof -
  have "one_holder V (lock_run fcntl cs k)" using k
    by (induction cs arbitrary: k) (simp_all add: lock_do_one [OF V])
  then have "one_holder V k2" using lock_do_one [OF V, of k1 "Lock_If_Not p fd"] l k1 by simp
  moreover have "0 < fd"
    using l by (cases "0 < fd") (auto simp: lock_handler_if_not_def check_lock_handler_def
        lock_handler_def lock_handler_ec_def)
  moreover from this have "\<exists>f. lv_file V k1 p fd = Some f \<and> lv_holders V k2 f = {p}"
    using lock_posix [OF V, of fd p k1] l
    by (auto simp: lock_if_not_posix [OF V] same_but_def split: option.splits if_splits)
  ultimately show ?thesis by blast
qed

section \<open>A system\<close>

text \<open>A system with these laws: a table of open files and the holder of each.\<close>

record small_system =
  sy_open :: "nat \<Rightarrow> int \<Rightarrow> nat option"
  sy_owner :: "nat \<Rightarrow> nat option"

definition small_fcntl :: "nat \<Rightarrow> small_system fcntl_fn" where
  "small_fcntl p fd cmd fl k =
     (case sy_open k p fd of
        None \<Rightarrow> (- 1, fl, k)
      | Some f \<Rightarrow>
          (case (cmd, l_type fl) of
             (F_GETLK, _) \<Rightarrow>
               (0, if sy_owner k f \<in> {None, Some p} then fl\<lparr>l_type := F_UNLCK\<rparr> else fl, k)
           | (F_SETLK, F_UNLCK) \<Rightarrow>
               (0, fl, if sy_owner k f = Some p then k\<lparr>sy_owner := (sy_owner k)(f := None)\<rparr> else k)
           | (F_SETLK, _) \<Rightarrow>
               (if sy_owner k f \<in> {None, Some p}
                then (0, fl, k\<lparr>sy_owner := (sy_owner k)(f \<mapsto> p)\<rparr>) else (- 1, fl, k))))"

definition small_view :: "(small_system, nat) lock_view" where
  "small_view = \<lparr>lv_file = sy_open, lv_holders = (\<lambda>k f. set_option (sy_owner k f))\<rparr>"

lemma small_posix: "posix_fcntl small_view small_fcntl"
proof -
  have s: "set_option x \<subseteq> {p} \<longleftrightarrow> x \<in> {None, Some p}" for x and p :: nat by (cases x) auto
  show ?thesis
    by (auto simp: posix_fcntl_def small_view_def small_fcntl_def whole_file_def flock_zero_def
        same_but_def s Let_def fun_eq_iff split: option.splits if_splits)
qed

definition two_descriptors :: small_system where
  "two_descriptors = \<lparr>sy_open = (\<lambda>p fd. if fd = 3 then Some 0 else None), sy_owner = (\<lambda>_. None)\<rparr>"

lemma locks_exclusive_witness:
  "\<exists>k2. lock_do small_fcntl (Lock_If_Not 2 3)
      (lock_run small_fcntl [Lock 1 3, Unlock 1 3] two_descriptors) = (True, k2) \<and>
    lv_holders small_view k2 0 = {2}"
proof -
  note defs = lock_handler_def lock_handler_ec_def unlock_handler_def unlock_handler_ec_def
    lock_handler_if_not_def check_lock_handler_def small_fcntl_def whole_file_def flock_zero_def
  let ?k1 = "lock_run small_fcntl [Lock 1 3, Unlock 1 3] two_descriptors"
  have k1: "?k1 = two_descriptors\<lparr>sy_owner := (\<lambda>_. None)(0 := None)\<rparr>"
    by (simp add: defs two_descriptors_def)
  obtain k2 where k2: "lock_do small_fcntl (Lock_If_Not 2 3) ?k1 = (True, k2)"
    unfolding k1 by (simp add: defs two_descriptors_def)
  have "one_holder small_view two_descriptors"
    by (auto simp: one_holder_def small_view_def two_descriptors_def)
  from locks_exclusive [OF small_posix this refl k2]
  have "lv_holders small_view k2 0 = {2}"
    unfolding k1 by (auto simp: small_view_def two_descriptors_def)
  then show ?thesis using k2 by blast
qed

end
