(* ===== verification/Listener_Variants.thy ===== *)
theory Listener_Variants
  imports Listener Callbacks Tcp_Client_App
begin

text \<open>
  The two listeners of \<open>src/src/libs/my_async/include/my_async/listener\<close> the program does
  not use.  \<open>simple_container.hpp\<close> with \<open>impl/simple_container_impl.hpp\<close> holds listeners of
  one kind; it does what the container for both kinds does.  \<open>listener_share.hpp\<close> gives
  its sessions a registry, which the sessions of \<open>session_share_static_callback.hpp\<close> join
  and leave; its constructor for SSL makes none.
\<close>

section \<open>The container of one kind\<close>

text \<open>\<open>use_ssl\<close> is the kind of the listeners, \<open>r\<close> the results of making one.\<close>

definition simple_is_open :: "('a :: linorder) endpoint \<Rightarrow> 'a ts_world \<Rightarrow> bool" where
  "simple_is_open ep w \<longleftrightarrow> om_find (tv_servers w) ep \<noteq> None"

definition simple_open ::
  "bool \<Rightarrow> ('a :: linorder) endpoint \<Rightarrow> (nat \<Rightarrow> error_code option) \<Rightarrow> 'a ts_world
     \<Rightarrow> bool \<times> error_code option \<times> 'a ts_world" where
  "simple_open use_ssl ep r w =
     (if simple_is_open ep w then (False, Some address_in_use, w)
      else (case make_listener r use_ssl of (ec, server) \<Rightarrow>
        if ec \<noteq> None then (False, ec, w)
        else (True, None, w\<lparr>tv_next := tv_next w + 1,
                tv_listeners := (tv_listeners w)(tv_next w \<mapsto> server),
                tv_servers := om_set ep (tv_next w) (tv_servers w)\<rparr>)))"

definition simple_close ::
  "('a :: linorder) endpoint \<Rightarrow> 'a ts_world \<Rightarrow> (error_code option \<times> 'a ts_world) option" where
  "simple_close ep w =
     (case om_find (tv_servers w) ep of
        None \<Rightarrow> Some (Some not_connected, w)
      | Some l \<Rightarrow> do {
          w \<leftarrow> listener_close_all True l w;
          Some (None, w\<lparr>tv_servers := om_erase ep (tv_servers w)\<rparr>) })"

definition simple_write ::
  "('a :: linorder) endpoint \<Rightarrow> 'a endpoint list \<Rightarrow> byte_array \<Rightarrow> 'a ts_world
     \<Rightarrow> (error_code option \<times> 'a ts_world) option" where
  "simple_write from to data w =
     (case om_find (tv_servers w) from of
        None \<Rightarrow> Some (Some not_connected, w)
      | Some l \<Rightarrow> map_option (Pair None) (ts_write_loop to data l w))"

definition simple_clients ::
  "('a :: linorder) endpoint \<Rightarrow> 'a ts_world \<Rightarrow> (error_code option \<times> 'a endpoint list) option" where
  "simple_clients ep w =
     (case om_find (tv_servers w) ep of
        None \<Rightarrow> Some (Some not_connected, [])
      | Some l \<Rightarrow> map_option (Pair None) (listener_clients l w))"

text \<open>Every listener is of the kind of the container.\<close>

definition simple_endpoints :: "bool \<Rightarrow> 'a ts_world \<Rightarrow> (bool \<times> 'a endpoint) list" where
  "simple_endpoints use_ssl w = map (\<lambda>(key, value). (use_ssl, key)) (tv_servers w)"

definition simple_count :: "'a ts_world \<Rightarrow> u64" where
  "simple_count w = of_nat (length (tv_servers w))"

text \<open>
  A simple container stands for a container that is only ever asked for one kind: as long
  as its listeners are of that kind the two give the same answers and the same states.
\<close>

definition one_kind :: "bool \<Rightarrow> 'a ts_world \<Rightarrow> bool" where
  "one_kind use_ssl w \<longleftrightarrow> (\<forall>(key, l) \<in> set (tv_servers w).
     \<exists>li. tv_listeners w l = Some li \<and> li_ssl li = use_ssl)"

lemma make_listener_kind: "make_listener r use_ssl = (ec, li) \<Longrightarrow> li_ssl li = use_ssl"
  by (auto simp: make_listener_def listener_init_def listener_new_def listener_do_accept_def Let_def
      split: option.splits)

lemma simple_open_eq:
  "snd (simple_open use_ssl ep r w) = ts_open True ep (make_listener r use_ssl) w"
  "fst (simple_open use_ssl ep r w) \<longleftrightarrow> fst (snd (simple_open use_ssl ep r w)) = None"
  by (auto simp: simple_open_def simple_is_open_def ts_open_def ts_is_open_def split: prod.splits)

lemma simple_endpoints_eq:
  assumes "one_kind use_ssl w"
  shows "ts_endpoints w = Some (simple_endpoints use_ssl w)"
proof -
  have "map_opt (\<lambda>(key, l). do { li \<leftarrow> tv_listeners w l; Some (li_ssl li, key) }) xs =
      Some (map (\<lambda>(key, l). (use_ssl, key)) xs)"
    if "\<forall>(key, l) \<in> set xs. \<exists>li. tv_listeners w l = Some li \<and> li_ssl li = use_ssl" for xs
    using that by (induction xs) auto
  then show ?thesis using assms by (simp add: one_kind_def ts_endpoints_def simple_endpoints_def)
qed

lemma simple_others_eq:
  "simple_is_open ep w = ts_is_open ep w" "simple_close ep w = ts_close ep w"
  "simple_write ep to data w = ts_write ep to data w" "simple_clients ep w = ts_clients ep w"
  by (simp_all add: simple_is_open_def ts_is_open_def simple_close_def ts_close_def simple_write_def
      ts_write_def simple_clients_def ts_clients_def)

lemma simple_open_kind:
  assumes k: "one_kind use_ssl w" and fresh: "tv_listeners w (tv_next w) = None"
  shows "one_kind use_ssl (snd (snd (simple_open use_ssl ep r w)))"
proof -
  obtain ec li where m: "make_listener r use_ssl = (ec, li)" by fastforce
  have "one_kind use_ssl (w\<lparr>tv_next := tv_next w + 1,
      tv_listeners := (tv_listeners w)(tv_next w \<mapsto> li),
      tv_servers := om_set ep (tv_next w) (tv_servers w)\<rparr>)"
    using k fresh set_om_set [of ep "tv_next w" "tv_servers w"] make_listener_kind [OF m]
    unfolding one_kind_def by fastforce
  then show ?thesis using k m by (auto simp: simple_open_def)
qed

section \<open>The listener with a registry\<close>

text \<open>
  \<open>sl_share\<close> is the shared pointer, \<open>None\<close> when it is null.  \<open>sl_sessions\<close> are the sessions
  made so far; the executor runs their handlers.
\<close>

record 'd shared_listener =
  sl_ssl :: bool
  sl_open :: bool
  sl_accepts :: nat
  sl_next :: nat
  sl_share :: "(nat, 'd) share option"
  sl_sessions :: "nat \<Rightarrow> tcp_session option"
  sl_log :: "(error_code \<times> string) list"

definition shared_new_plain :: "'d \<Rightarrow> 'd shared_listener" where
  "shared_new_plain d = \<lparr>sl_ssl = False, sl_open = False, sl_accepts = 0, sl_next = 0,
     sl_share = Some (share_new d), sl_sessions = (\<lambda>_. None), sl_log = []\<rparr>"

definition shared_new_ssl :: "'d shared_listener" where
  "shared_new_ssl = \<lparr>sl_ssl = True, sl_open = False, sl_accepts = 0, sl_next = 0,
     sl_share = None, sl_sessions = (\<lambda>_. None), sl_log = []\<rparr>"

definition shared_fail :: "error_code \<Rightarrow> string \<Rightarrow> 'd shared_listener \<Rightarrow> 'd shared_listener" where
  "shared_fail ec what l = l\<lparr>sl_log := sl_log l @ [(ec, what)]\<rparr>"

definition shared_close ::
  "error_code option \<Rightarrow> error_code option \<Rightarrow> 'd shared_listener
     \<Rightarrow> error_code option \<times> 'd shared_listener" where
  "shared_close canc closed l =
     (case canc of Some ec \<Rightarrow> (Some ec, shared_fail ec ''cancel'' l)
      | None \<Rightarrow>
         (let l = l\<lparr>sl_open := False\<rparr> in
          case closed of Some ec \<Rightarrow> (Some ec, shared_fail ec ''close'' l) | None \<Rightarrow> (None, l)))"

definition shared_do_accept :: "'d shared_listener \<Rightarrow> 'd shared_listener" where
  "shared_do_accept l = l\<lparr>sl_accepts := sl_accepts l + 1\<rparr>"

text \<open>\<open>r\<close>: the results of open, set_option, bind and listen.\<close>

definition shared_init ::
  "(nat \<Rightarrow> error_code option) \<Rightarrow> 'd shared_listener \<Rightarrow> error_code option \<times> 'd shared_listener" where
  "shared_init r l =
     (case r 0 of Some ec \<Rightarrow> (Some ec, shared_fail ec ''open'' l) | None \<Rightarrow>
      (let l = l\<lparr>sl_open := True\<rparr> in
       case r 1 of Some ec \<Rightarrow> (Some ec, shared_fail ec ''set_option'' l) | None \<Rightarrow>
      (case r 2 of Some ec \<Rightarrow> (Some ec, shared_fail ec ''bind'' l) | None \<Rightarrow>
      (case r 3 of Some ec \<Rightarrow> (Some ec, shared_fail ec ''listen'' l)
       | None \<Rightarrow> (None, shared_do_accept l)))))"

text \<open>
  What a session does on an event; \<open>share_\<close> is dereferenced when it opens and when it
  closes, and the assigned functions do not touch the registry.
\<close>

fun shared_notices ::
  "nat \<Rightarrow> callback list \<Rightarrow> 'f ws_callbacks \<Rightarrow> (nat, 'd) share option \<Rightarrow> (nat, 'd) share option option"
where
  "shared_notices p [] cbs share_ptr = Some share_ptr"
| "shared_notices p (e # es) cbs share_ptr =
     (case share_ptr of
        Some sh \<Rightarrow> shared_notices p es cbs (Some (snd (share_session_event p e cbs sh)))
      | None \<Rightarrow>
          (case e of
             On_Open \<Rightarrow> None
           | On_Close ec \<Rightarrow> None
           | _ \<Rightarrow> shared_notices p es cbs None))"

text \<open>A handler of session \<open>p\<close> has taken it from \<open>s\<close> to \<open>s'\<close>.\<close>

definition shared_session_ran ::
  "'f ws_callbacks \<Rightarrow> nat \<Rightarrow> tcp_session \<Rightarrow> tcp_session \<Rightarrow> 'd shared_listener
     \<Rightarrow> 'd shared_listener option" where
  "shared_session_ran cbs p s s' l = do {
     sh \<leftarrow> shared_notices p (drop (length (ss_log s)) (ss_log s')) cbs (sl_share l);
     Some (l\<lparr>sl_share := sh, sl_sessions := (sl_sessions l)(p \<mapsto> s')\<rparr>) }"

definition shared_on_accept ::
  "'f ws_callbacks \<Rightarrow> error_code option \<Rightarrow> 'd shared_listener \<Rightarrow> 'd shared_listener option" where
  "shared_on_accept cbs r l =
     (let l = l\<lparr>sl_accepts := sl_accepts l - 1\<rparr> in
      case r of Some ec \<Rightarrow> Some (shared_fail ec ''accept'' l)
      | None \<Rightarrow> do {
          let s = tcp_session_new (sl_ssl l);
          l \<leftarrow> shared_session_ran cbs (sl_next l) s (tcp_session_on_run s)
            (l\<lparr>sl_next := sl_next l + 1\<rparr>);
          Some (shared_do_accept l) })"

section \<open>Steps\<close>

text \<open>A step has \<open>None\<close> as its result when it dereferences the null pointer.\<close>

inductive shared_step ::
  "'f ws_callbacks \<Rightarrow> 'd shared_listener \<Rightarrow> 'd shared_listener option \<Rightarrow> bool" where
  sl_accepted: "sl_accepts l > 0 \<Longrightarrow> shared_step cbs l (shared_on_accept cbs r l)"
| sl_session: "\<lbrakk>sl_sessions l p = Some s; tcp_session_step s s'\<rbrakk> \<Longrightarrow>
    shared_step cbs l (shared_session_ran cbs p s s' l)"
| sl_closed: "shared_step cbs l (Some (snd (shared_close canc closed l)))"

inductive shared_reach :: "'f ws_callbacks \<Rightarrow> 'd shared_listener \<Rightarrow> 'd shared_listener \<Rightarrow> bool"
  for cbs :: "'f ws_callbacks" and l0 :: "'d shared_listener" where
  sl_start: "shared_reach cbs l0 (snd (shared_init r l0))"
| sl_step: "\<lbrakk>shared_reach cbs l0 l; shared_step cbs l (Some l')\<rbrakk> \<Longrightarrow> shared_reach cbs l0 l'"

section \<open>Lemmas\<close>

text \<open>A session is open between the two events.\<close>

fun joined :: "callback list \<Rightarrow> bool \<Rightarrow> bool" where
  "joined [] b = b"
| "joined (On_Open # es) b = joined es True"
| "joined (On_Close ec # es) b = joined es False"
| "joined (e # es) b = joined es b"

lemma joined_append: "joined (xs @ ys) b = joined ys (joined xs b)"
  by (induction xs b rule: joined.induct) simp_all

lemma event_joined:
  "q \<in> set (sh_set (snd (share_session_event p e cbs sh))) \<longleftrightarrow>
     (if q = p then joined [e] (p \<in> set (sh_set sh)) else q \<in> set (sh_set sh))"
  by (cases e) (auto simp: share_session_event_def share_join_def share_leave_def Let_def)

lemma event_distinct:
  "distinct (sh_set sh) \<Longrightarrow> distinct (sh_set (snd (share_session_event p e cbs sh)))"
  by (cases e) (auto simp: share_session_event_def share_join_def share_leave_def Let_def
      distinct_removeAll)

lemma shared_notices_some:
  "\<exists>sh'. shared_notices p es cbs (Some sh) = Some (Some sh') \<and>
    (\<forall>q. q \<in> set (sh_set sh') \<longleftrightarrow>
      (if q = p then joined es (p \<in> set (sh_set sh)) else q \<in> set (sh_set sh))) \<and>
    (distinct (sh_set sh) \<longrightarrow> distinct (sh_set sh'))"
proof (induction es arbitrary: sh)
  case (Cons e es)
  let ?sh = "snd (share_session_event p e cbs sh)"
  obtain sh' where sh': "shared_notices p es cbs (Some ?sh) = Some (Some sh')"
    "\<And>q. q \<in> set (sh_set sh') \<longleftrightarrow>
      (if q = p then joined es (p \<in> set (sh_set ?sh)) else q \<in> set (sh_set ?sh))"
    "distinct (sh_set ?sh) \<longrightarrow> distinct (sh_set sh')"
    using Cons.IH [of ?sh] by blast
  have "q \<in> set (sh_set sh') \<longleftrightarrow>
      (if q = p then joined (e # es) (p \<in> set (sh_set sh)) else q \<in> set (sh_set sh))" for q
    unfolding sh'(2) event_joined using joined_append [of "[e]" es] by simp
  moreover have "shared_notices p (e # es) cbs (Some sh) = Some (Some sh')" using sh'(1) by simp
  moreover have "distinct (sh_set sh) \<longrightarrow> distinct (sh_set sh')"
    using sh'(3) event_distinct [of sh p e cbs] by simp
  ultimately show ?case by (intro exI [of _ sh'] conjI allI) assumption+
qed simp

definition shared_ok :: "'d shared_listener \<Rightarrow> bool" where
  "shared_ok l \<longleftrightarrow> (\<forall>p s. sl_sessions l p = Some s \<longrightarrow> p < sl_next l) \<and>
     (\<exists>sh. sl_share l = Some sh \<and> distinct (sh_set sh) \<and>
       (\<forall>p. p \<in> set (sh_set sh) \<longleftrightarrow> (\<exists>s. sl_sessions l p = Some s \<and> joined (ss_log s) False)))"

lemma tcp_session_log_grows:
  "tcp_session_step s s' \<Longrightarrow> \<exists>es. ss_log s' = ss_log s @ es"
  by (induction rule: tcp_session_step.induct)
    (auto simp: tcp_session_defs split: option.splits)

lemma shared_ran_ok:
  assumes ok: "shared_ok l" and s: "ss_log s' = ss_log s @ es" "p < sl_next l"
    and p: "joined (ss_log s) False \<longleftrightarrow> (\<exists>t. sl_sessions l p = Some t \<and> joined (ss_log t) False)"
  shows "\<exists>l'. shared_session_ran cbs p s s' l = Some l' \<and> shared_ok l'"
proof -
  obtain sh where sh: "sl_share l = Some sh" "distinct (sh_set sh)"
    "\<And>p. p \<in> set (sh_set sh) \<longleftrightarrow> (\<exists>s. sl_sessions l p = Some s \<and> joined (ss_log s) False)"
    using ok by (auto simp: shared_ok_def)
  obtain sh' where sh': "shared_notices p es cbs (Some sh) = Some (Some sh')"
    "\<forall>q. q \<in> set (sh_set sh') \<longleftrightarrow>
      (if q = p then joined es (p \<in> set (sh_set sh)) else q \<in> set (sh_set sh))" "distinct (sh_set sh')"
    using shared_notices_some [of p es cbs sh] sh(2) by blast
  have "joined es (p \<in> set (sh_set sh)) = joined (ss_log s') False"
    unfolding sh(3) p [symmetric] s(1) joined_append ..
  then have "\<forall>q. q \<in> set (sh_set sh') \<longleftrightarrow>
      (\<exists>t. ((sl_sessions l)(p \<mapsto> s')) q = Some t \<and> joined (ss_log t) False)"
    using sh'(2) sh(3) by simp
  moreover have "\<forall>q t. ((sl_sessions l)(p \<mapsto> s')) q = Some t \<longrightarrow> q < sl_next l"
    using ok s(2) by (auto simp: shared_ok_def)
  ultimately show ?thesis using sh(1) sh'(1,3) s(1)
    by (simp add: shared_session_ran_def shared_ok_def)
qed

lemma shared_simple_ok:
  "shared_ok l \<Longrightarrow> shared_ok (snd (shared_close canc closed l))"
  "shared_ok l \<Longrightarrow> shared_ok (snd (shared_init r l))"
  by (auto simp: shared_ok_def shared_close_def shared_fail_def shared_init_def shared_do_accept_def
      Let_def split: option.splits)

lemma shared_step_ok:
  assumes "shared_step cbs l x" "shared_ok l"
  shows "\<exists>l'. x = Some l' \<and> shared_ok l'"
  using assms(1)
proof cases
  case (sl_accepted r)
  show ?thesis
  proof (cases r)
    case None
    let ?l = "l\<lparr>sl_accepts := sl_accepts l - 1, sl_next := sl_next l + 1\<rparr>"
    let ?s = "tcp_session_new (sl_ssl l)"
    have n: "sl_sessions l (sl_next l) = None"
      using assms(2) by (cases "sl_sessions l (sl_next l)") (auto simp: shared_ok_def)
    have "shared_ok ?l" using assms(2) less_SucI by (fastforce simp: shared_ok_def)
    then obtain l' where "shared_session_ran cbs (sl_next l) ?s (tcp_session_on_run ?s) ?l = Some l'"
      "shared_ok l'"
      using shared_ran_ok [of ?l "tcp_session_on_run ?s" ?s "ss_log (tcp_session_on_run ?s)" "sl_next l" cbs] n
      by (auto simp: tcp_session_new_def)
    then show ?thesis using sl_accepted(1) None
      by (auto simp: shared_on_accept_def Let_def shared_ok_def shared_do_accept_def)
  next
    case (Some ec)
    then show ?thesis using sl_accepted(1) assms(2)
      by (simp add: shared_on_accept_def Let_def shared_fail_def shared_ok_def)
  qed
next
  case (sl_session p s s')
  obtain es where "ss_log s' = ss_log s @ es" using tcp_session_log_grows [OF sl_session(3)] by blast
  then show ?thesis using shared_ran_ok [OF assms(2), of s' s es p cbs] sl_session(1,2) assms(2)
    by (auto simp: shared_ok_def)
next
  case sl_closed
  then show ?thesis using shared_simple_ok(1) [OF assms(2)] by blast
qed

text \<open>
  The listener of plain sessions never leaves the contracts it relies on, and its registry
  holds exactly the sessions that have opened and not closed since, each once.
\<close>

theorem shared_plain_registry:
  assumes "shared_reach cbs (shared_new_plain d) l"
  shows "(\<exists>sh. sl_share l = Some sh \<and> distinct (sh_set sh) \<and>
      (\<forall>p. p \<in> set (sh_set sh) \<longleftrightarrow> (\<exists>s. sl_sessions l p = Some s \<and> joined (ss_log s) False))) \<and>
    \<not> shared_step cbs l None"
proof -
  have new: "shared_ok (shared_new_plain d)"
    by (simp add: shared_ok_def shared_new_plain_def share_new_def)
  from assms have "shared_ok l"
  proof (induction rule: shared_reach.induct)
    case (sl_start r)
    show ?case using shared_simple_ok(2) [OF new] .
  next
    case (sl_step l l')
    then show ?case using shared_step_ok [OF sl_step.hyps(2)] by blast
  qed
  then show ?thesis using shared_step_ok [of cbs l None] by (auto simp: shared_ok_def)
qed

lemma shared_ran_none:
  assumes "shared_session_ran cbs p s s' l = Some l'" "sl_share l = None"
  shows "sl_share l' = None"
proof -
  have none: "shared_notices p es cbs (None :: (nat, 'a) share option) = Some sh \<Longrightarrow> sh = None" for es sh
    by (induction es) (auto split: callback.splits)
  show ?thesis using assms by (auto simp: shared_session_ran_def bind_Some_iff dest: none)
qed

lemma shared_accept_none:
  assumes "shared_on_accept cbs r l = Some l'" "sl_share l = None"
  shows "sl_share l' = None"
proof (cases r)
  case None
  let ?l = "l\<lparr>sl_accepts := sl_accepts l - 1, sl_next := sl_next l + 1\<rparr>"
  let ?s = "tcp_session_new (sl_ssl l)"
  obtain k where "shared_session_ran cbs (sl_next l) ?s (tcp_session_on_run ?s) ?l = Some k"
    "l' = shared_do_accept k"
    using assms(1) None by (auto simp: shared_on_accept_def Let_def bind_Some_iff)
  then show ?thesis using shared_ran_none [of cbs _ _ _ ?l k] assms(2)
    by (simp add: shared_do_accept_def)
next
  case (Some ec)
  then show ?thesis using assms by (auto simp: shared_on_accept_def shared_fail_def Let_def)
qed

lemma shared_ssl_none: "shared_reach cbs shared_new_ssl l \<Longrightarrow> sl_share l = None"
proof (induction rule: shared_reach.induct)
  case (sl_start r)
  then show ?case by (simp add: shared_init_def shared_new_ssl_def shared_fail_def shared_do_accept_def
        Let_def split: option.splits)
next
  case (sl_step l l')
  obtain x where x: "shared_step cbs l x" "x = Some l'" using sl_step.hyps(2) by blast
  from x(1) show ?case
  proof cases
    case (sl_accepted r)
    then show ?thesis using sl_step.IH x(2) shared_accept_none by blast
  next
    case (sl_session p s s')
    then show ?thesis using sl_step.IH x(2) shared_ran_none by metis
  next
    case (sl_closed canc closed)
    then show ?thesis using sl_step.IH x(2)
      by (simp add: shared_close_def shared_fail_def Let_def split: option.splits)
  qed
qed

text \<open>
  The constructor for SSL leaves the shared pointer null: the first handshake that
  completes, with or without an error, joins or leaves through the null pointer.
\<close>

theorem shared_ssl_null:
  assumes "shared_reach cbs shared_new_ssl l" "sl_sessions l p = Some s"
  shows "shared_session_ran cbs p s (tcp_session_on_handshake r s) l = None"
  using shared_ssl_none [OF assms(1)]
  by (cases r) (auto simp: shared_session_ran_def tcp_session_on_handshake_def Let_def tcp_session_fail_def
      tcp_session_do_accept_def tcp_session_do_read_def tcp_session_call_def tcp_session_close_def)

section \<open>The container of TCP clients of one class\<close>

text \<open>
  \<open>tcp_client/impl/simple_container_impl.hpp\<close>: the members that can be compiled.  \<open>open\<close> and
  \<open>endpoints\<close> are not among them, so nothing ever gets into such a container.
\<close>

definition simple_client_close ::
  "('a :: linorder) endpoint \<Rightarrow> 'a tc_world \<Rightarrow> error_code option \<times> 'a tc_world" where
  "simple_client_close local_ep w =
     (case om_find (tw_clients w) local_ep of
        None \<Rightarrow> (Some not_connected, w)
      | Some n \<Rightarrow>
          (let w = tw_update n (\<lambda>k. k\<lparr>ca_socket := tcp_client_close (ca_socket k)\<rparr>) w in
           (None, w\<lparr>tw_clients := om_erase local_ep (tw_clients w)\<rparr>)))"

definition simple_client_write ::
  "('a :: linorder) endpoint \<Rightarrow> byte_array \<Rightarrow> 'a tc_world \<Rightarrow> error_code option \<times> 'a tc_world" where
  "simple_client_write ep data w =
     (case om_find (tw_clients w) ep of
        None \<Rightarrow> (Some not_connected, w)
      | Some n \<Rightarrow>
          (None, tw_update n (\<lambda>k. k\<lparr>ca_socket := tcp_client_write data (ca_socket k)\<rparr>) w))"

definition simple_client :: "('a :: linorder) endpoint \<Rightarrow> 'a tc_world \<Rightarrow> nat option" where
  "simple_client local_ep w = om_find (tw_clients w) local_ep"

definition simple_client_size :: "'a tc_world \<Rightarrow> nat" where
  "simple_client_size w = length (tw_clients w)"

lemma simple_client_empty:
  assumes "tw_clients w = []"
  shows "simple_client_close ep w = (Some not_connected, w)"
    "simple_client_write ep d w = (Some not_connected, w)"
    "simple_client ep w = None" "simple_client_size w = 0"
  using assms by (simp_all add: simple_client_close_def simple_client_write_def simple_client_def
      simple_client_size_def)

end
