(* ===== verification/Concepts.thy ===== *)
theory Concepts
  imports Tcp_Client_App Listener
begin

text \<open>
  The objects the two TCP containers really hold:
  \<open>tcp_client/impl/client_concept_impl.hpp\<close> and \<open>listener/impl/listener_concept_impl.hpp\<close> of
  \<open>src/src/libs/my_async/include/my_async\<close>.  A concept points to a model, which points to
  a client or a listener of one class and forwards every call to it; the class is known
  only to the model, as the static member \<open>use_ssl\<close>.  The containers of
  \<open>tcp_client/impl/container_impl.hpp\<close> and \<open>listener/impl/container_impl.hpp\<close> are given
  here over concepts; they refine those of \<open>Tcp_Client_App\<close> and \<open>Listener\<close>, which hold the
  clients and listeners themselves.
\<close>

section \<open>Client concepts\<close>

text \<open>\<open>Client_Model s n\<close> is a model of the class with \<open>use_ssl = s\<close>, for the client at \<open>n\<close>.\<close>

datatype client_model = Client_Model (cm_use_ssl: bool) (cm_client: nat)

record client_concept =
  cc_client :: client_model

definition Client_Concept_of :: "bool \<Rightarrow> nat \<Rightarrow> client_concept" where
  "Client_Concept_of use_ssl n = \<lparr>cc_client = Client_Model use_ssl n\<rparr>"

text \<open>
  \<open>ch_clients\<close> is the map of the container; the store of the clients and what keep-alive
  has set on their sockets are beside it.
\<close>

record 'a client_heap =
  ch_world :: "'a tc_world"
  ch_sockopts :: "nat \<Rightarrow> socket_keepalive"
  ch_clients :: "('a endpoint, client_concept) omap"

definition ch_socket ::
  "nat \<Rightarrow> (tcp_client_socket \<Rightarrow> tcp_client_socket) \<Rightarrow> 'a client_heap \<Rightarrow> 'a client_heap" where
  "ch_socket n f h = h\<lparr>ch_world := tw_update n (\<lambda>k. k\<lparr>ca_socket := f (ca_socket k)\<rparr>) (ch_world h)\<rparr>"

section \<open>Options of a client\<close>

text \<open>Asking or setting an option of a socket that is closed throws.\<close>

definition client_open_socket :: "nat \<Rightarrow> 'a client_heap \<Rightarrow> bool" where
  "client_open_socket n h =
     (case tw_store (ch_world h) n of None \<Rightarrow> False | Some k \<Rightarrow> cs_open (ca_socket k))"

definition tcp_client_get_keep_alive :: "nat \<Rightarrow> 'a client_heap \<Rightarrow> bool option" where
  "tcp_client_get_keep_alive n h = do {
     require (client_open_socket n h);
     Some (sk_enabled (ch_sockopts h n)) }"

definition tcp_client_keep_alive_enable :: "nat \<Rightarrow> bool \<Rightarrow> 'a client_heap \<Rightarrow> 'a client_heap option" where
  "tcp_client_keep_alive_enable n enable h = do {
     require (client_open_socket n h);
     Some (h\<lparr>ch_sockopts := (ch_sockopts h)(n := (ch_sockopts h n)\<lparr>sk_enabled := enable\<rparr>)\<rparr>) }"

definition tcp_client_keep_alive ::
  "nat \<Rightarrow> u32 \<Rightarrow> u32 \<Rightarrow> u32 \<Rightarrow> bool \<Rightarrow> 'a client_heap \<Rightarrow> 'a client_heap option" where
  "tcp_client_keep_alive n idl cnt intvl enable h = do {
     h \<leftarrow> tcp_client_keep_alive_enable n enable h;
     Some (h\<lparr>ch_sockopts := (ch_sockopts h)(n := keepalive_sockopts idl cnt intvl (ch_sockopts h n)),
             ch_world := tw_update n (\<lambda>k. k\<lparr>ca_keepalive :=
               Some \<lparr>keep_alive = enable, idle = idl, interval = intvl, count = cnt\<rparr>\<rparr>) (ch_world h)\<rparr>) }"

section \<open>What a model forwards\<close>

fun model_open :: "client_model \<Rightarrow> 'a client_heap \<Rightarrow> 'a client_heap" where
  "model_open (Client_Model s n) h = ch_socket n tcp_client_open h"

fun model_close :: "client_model \<Rightarrow> 'a client_heap \<Rightarrow> 'a client_heap" where
  "model_close (Client_Model s n) h = ch_socket n tcp_client_close h"

fun model_write :: "client_model \<Rightarrow> byte_array \<Rightarrow> 'a client_heap \<Rightarrow> 'a client_heap" where
  "model_write (Client_Model s n) data h = ch_socket n (tcp_client_write data) h"

fun model_get_keep_alive :: "client_model \<Rightarrow> 'a client_heap \<Rightarrow> bool option" where
  "model_get_keep_alive (Client_Model s n) h = tcp_client_get_keep_alive n h"

fun model_keep_alive_enable :: "client_model \<Rightarrow> bool \<Rightarrow> 'a client_heap \<Rightarrow> 'a client_heap option" where
  "model_keep_alive_enable (Client_Model s n) enable h = tcp_client_keep_alive_enable n enable h"

text \<open>The last argument of \<open>keep_alive\<close> has the default \<open>true\<close>.\<close>

fun model_keep_alive ::
  "client_model \<Rightarrow> u32 \<Rightarrow> u32 \<Rightarrow> u32 \<Rightarrow> 'a client_heap \<Rightarrow> 'a client_heap option" where
  "model_keep_alive (Client_Model s n) idl cnt intvl h = tcp_client_keep_alive n idl cnt intvl True h"

fun model_endpoint :: "client_model \<Rightarrow> 'a client_heap \<Rightarrow> 'a endpoint option" where
  "model_endpoint (Client_Model s n) h = tw_store (ch_world h) n \<bind> tc_remote_endpoint"

fun model_local_endpoint :: "client_model \<Rightarrow> 'a client_heap \<Rightarrow> 'a endpoint option" where
  "model_local_endpoint (Client_Model s n) h = tw_store (ch_world h) n \<bind> tc_local_endpoint"

fun model_use_ssl :: "client_model \<Rightarrow> bool" where
  "model_use_ssl (Client_Model s n) = s"

section \<open>What a concept forwards\<close>

definition concept_open :: "client_concept \<Rightarrow> 'a client_heap \<Rightarrow> 'a client_heap" where
  "concept_open c h = model_open (cc_client c) h"

definition concept_close :: "client_concept \<Rightarrow> 'a client_heap \<Rightarrow> 'a client_heap" where
  "concept_close c h = model_close (cc_client c) h"

definition concept_write :: "client_concept \<Rightarrow> byte_array \<Rightarrow> 'a client_heap \<Rightarrow> 'a client_heap" where
  "concept_write c data h = model_write (cc_client c) data h"

definition concept_get_keep_alive :: "client_concept \<Rightarrow> 'a client_heap \<Rightarrow> bool option" where
  "concept_get_keep_alive c h = model_get_keep_alive (cc_client c) h"

definition concept_keep_alive_enable ::
  "client_concept \<Rightarrow> bool \<Rightarrow> 'a client_heap \<Rightarrow> 'a client_heap option" where
  "concept_keep_alive_enable c enable h = model_keep_alive_enable (cc_client c) enable h"

definition concept_keep_alive ::
  "client_concept \<Rightarrow> u32 \<Rightarrow> u32 \<Rightarrow> u32 \<Rightarrow> 'a client_heap \<Rightarrow> 'a client_heap option" where
  "concept_keep_alive c idl cnt intvl h = model_keep_alive (cc_client c) idl cnt intvl h"

definition concept_endpoint :: "client_concept \<Rightarrow> 'a client_heap \<Rightarrow> 'a endpoint option" where
  "concept_endpoint c h = model_endpoint (cc_client c) h"

definition concept_local_endpoint :: "client_concept \<Rightarrow> 'a client_heap \<Rightarrow> 'a endpoint option" where
  "concept_local_endpoint c h = model_local_endpoint (cc_client c) h"

definition concept_use_ssl :: "client_concept \<Rightarrow> bool" where
  "concept_use_ssl c = model_use_ssl (cc_client c)"

section \<open>The container of clients over concepts\<close>

text \<open>The callback of \<open>open\<close>, after a connect without error.\<close>

definition concept_clients_insert ::
  "bool \<Rightarrow> nat \<Rightarrow> ('a :: linorder) client_heap \<Rightarrow> 'a client_heap option" where
  "concept_clients_insert use_ssl n h = do {
     k \<leftarrow> tw_store (ch_world h) n;
     local \<leftarrow> tc_local_endpoint k;
     Some (h\<lparr>ch_clients := om_set local (Client_Concept_of use_ssl n) (ch_clients h)\<rparr>) }"

definition concept_clients_close ::
  "('a :: linorder) endpoint \<Rightarrow> 'a client_heap \<Rightarrow> error_code option \<times> 'a client_heap" where
  "concept_clients_close local_ep h =
     (case om_find (ch_clients h) local_ep of
        None \<Rightarrow> (Some not_connected, h)
      | Some c \<Rightarrow>
          (let h = concept_close c h in (None, h\<lparr>ch_clients := om_erase local_ep (ch_clients h)\<rparr>)))"

definition concept_clients_write ::
  "('a :: linorder) endpoint \<Rightarrow> byte_array \<Rightarrow> 'a client_heap \<Rightarrow> error_code option \<times> 'a client_heap"
where
  "concept_clients_write ep data h =
     (case om_find (ch_clients h) ep of
        None \<Rightarrow> (Some not_connected, h)
      | Some c \<Rightarrow> (None, concept_write c data h))"

definition concept_clients_endpoints ::
  "'a client_heap \<Rightarrow> (bool \<times> 'a endpoint \<times> 'a endpoint) list option" where
  "concept_clients_endpoints h = map_opt (\<lambda>(key, value). do {
     l \<leftarrow> concept_local_endpoint value h;
     r \<leftarrow> concept_endpoint value h;
     Some (concept_use_ssl value, l, r) }) (ch_clients h)"

definition concept_clients_size :: "'a client_heap \<Rightarrow> nat" where
  "concept_clients_size h = length (ch_clients h)"

section \<open>The concepts are transparent\<close>

text \<open>The world of \<open>Tcp_Client_App\<close> a heap stands for: the pointers followed.\<close>

definition client_abs :: "'a client_heap \<Rightarrow> 'a tc_world" where
  "client_abs h = (ch_world h)\<lparr>tw_clients := om_map (cm_client \<circ> cc_client) (ch_clients h)\<rparr>"

text \<open>Every concept was made for a client of its class.\<close>

definition client_kinds :: "'a client_heap \<Rightarrow> bool" where
  "client_kinds h \<longleftrightarrow> (\<forall>(ep, c)\<in>set (ch_clients h).
     \<exists>k. tw_store (ch_world h) (cm_client (cc_client c)) = Some k \<and>
       cs_ssl (ca_socket k) = concept_use_ssl c)"

lemma ch_socket_sel [simp]:
  "ch_clients (ch_socket n f h) = ch_clients h"
  "ch_world (ch_socket n f h) = tw_update n (\<lambda>k. k\<lparr>ca_socket := f (ca_socket k)\<rparr>) (ch_world h)"
  by (simp_all add: ch_socket_def)

lemma concept_socket:
  "concept_close c h = ch_socket (cm_client (cc_client c)) tcp_client_close h"
  "concept_write c d h = ch_socket (cm_client (cc_client c)) (tcp_client_write d) h"
  "concept_open c h = ch_socket (cm_client (cc_client c)) tcp_client_open h"
  by (cases "cc_client c"; simp add: concept_close_def concept_write_def concept_open_def)+

lemma client_kinds_socket:
  assumes "client_kinds h" "\<And>s. cs_ssl (f s) = cs_ssl s"
  shows "client_kinds (ch_socket n f h)"
  using assms by (fastforce simp: client_kinds_def tw_update_def)

lemma client_kinds_keep:
  assumes h: "client_kinds h"
  shows "client_kinds (snd (concept_clients_close ep h))"
    "client_kinds (snd (concept_clients_write ep d h))"
    "\<lbrakk>concept_clients_insert use_ssl n h = Some h'; tw_store (ch_world h) n = Some k;
      cs_ssl (ca_socket k) = use_ssl\<rbrakk> \<Longrightarrow> client_kinds h'"
proof -
  have post: "client_kinds (ch_socket n tcp_client_close h)"
    "client_kinds (ch_socket n (tcp_client_write d) h)" for n
    by (rule client_kinds_socket [OF h]; simp add: tcp_client_close_def tcp_client_write_def)+
  show "client_kinds (snd (concept_clients_write ep d h))"
    using h post(2) by (simp add: concept_clients_write_def concept_socket split: option.splits)
  show "client_kinds (snd (concept_clients_close ep h))"
  proof (cases "om_find (ch_clients h) ep")
    case (Some c)
    then show ?thesis
      using post(1) [of "cm_client (cc_client c)"] set_om_erase [of ep "ch_clients h"]
      by (fastforce simp: concept_clients_close_def concept_socket Let_def client_kinds_def)
  qed (use h in \<open>simp add: concept_clients_close_def\<close>)
  show "client_kinds h'" if ins: "concept_clients_insert use_ssl n h = Some h'"
    and k: "tw_store (ch_world h) n = Some k" "cs_ssl (ca_socket k) = use_ssl"
  proof -
    obtain local where h': "h' = h\<lparr>ch_clients := om_set local (Client_Concept_of use_ssl n) (ch_clients h)\<rparr>"
      using ins by (auto simp: concept_clients_insert_def bind_Some_iff)
    have "concept_use_ssl (Client_Concept_of use_ssl n) = use_ssl"
      by (simp add: concept_use_ssl_def Client_Concept_of_def)
    then show ?thesis
      using h k set_om_set [of local "Client_Concept_of use_ssl n" "ch_clients h"]
      unfolding h' by (fastforce simp: client_kinds_def Client_Concept_of_def)
  qed
qed

text \<open>
  The container over concepts does what the container over clients does: with the same
  error and the same list, and the worlds after it stand for each other.
\<close>

theorem client_concepts_refine:
  assumes "client_kinds h"
  shows "tcp_clients_close ep (client_abs h) = map_prod id client_abs (concept_clients_close ep h) \<and>
    tcp_clients_write ep d (client_abs h) = map_prod id client_abs (concept_clients_write ep d h) \<and>
    tcp_clients_endpoints (client_abs h) =
      map_option (map (\<lambda>(s, l, r). \<lparr>tci_secure = s, tci_local = l, tci_remote = r\<rparr>))
        (concept_clients_endpoints h) \<and>
    tcp_clients_size (client_abs h) = concept_clients_size h"
proof -
  have list: "map_opt (\<lambda>(key, n). do {
       k \<leftarrow> tw_store (ch_world h) n; l \<leftarrow> tc_local_endpoint k; r \<leftarrow> tc_remote_endpoint k;
       Some \<lparr>tci_secure = cs_ssl (ca_socket k), tci_local = l, tci_remote = r\<rparr> })
       (om_map (cm_client \<circ> cc_client) m) =
     map_option (map (\<lambda>(s, l, r). \<lparr>tci_secure = s, tci_local = l, tci_remote = r\<rparr>))
       (map_opt (\<lambda>(key, value). do {
          l \<leftarrow> concept_local_endpoint value h; r \<leftarrow> concept_endpoint value h;
          Some (concept_use_ssl value, l, r) }) m)"
    if "\<forall>(ep, c)\<in>set m. \<exists>k. tw_store (ch_world h) (cm_client (cc_client c)) = Some k \<and>
       cs_ssl (ca_socket k) = concept_use_ssl c" for m
    using that
  proof (induction m)
    case (Cons x m)
    obtain ep c k where x: "x = (ep, c)" "tw_store (ch_world h) (cm_client (cc_client c)) = Some k"
      "cs_ssl (ca_socket k) = concept_use_ssl c" using Cons.prems by (cases x) auto
    have "concept_local_endpoint c h = tc_local_endpoint k" "concept_endpoint c h = tc_remote_endpoint k"
      using x(2) by (cases "cc_client c"; simp add: concept_local_endpoint_def concept_endpoint_def)+
    then show ?case using Cons x by (auto simp: option.map_comp split: bind_splits option.splits)
  qed simp
  then show ?thesis
    using assms list [of "ch_clients h"]
    by (auto simp: tcp_clients_close_def tcp_clients_write_def concept_clients_close_def
        concept_clients_write_def client_abs_def om_find_map om_erase_map concept_socket
        tw_update_def Let_def tcp_clients_endpoints_def concept_clients_endpoints_def client_kinds_def
        tcp_clients_size_def concept_clients_size_def split: option.splits)
qed

lemma client_insert_abs:
  assumes "concept_clients_insert use_ssl n h = Some h'"
  shows "\<exists>k local. tw_store (client_abs h) n = Some k \<and> tc_local_endpoint k = Some local \<and>
    client_abs h' = (client_abs h)\<lparr>tw_clients := om_set local n (tw_clients (client_abs h))\<rparr>"
  using assms om_set_map [of _ "cm_client \<circ> cc_client" "Client_Concept_of use_ssl n" "ch_clients h"]
  by (auto simp: concept_clients_insert_def bind_Some_iff client_abs_def Client_Concept_of_def)

section \<open>Listener concepts\<close>

datatype listener_model = Listener_Model (lm_use_ssl: bool) (lm_listener: nat)

record listener_concept =
  lc_listener :: listener_model

definition Listener_Concept_of :: "bool \<Rightarrow> nat \<Rightarrow> listener_concept" where
  "Listener_Concept_of use_ssl n = \<lparr>lc_listener = Listener_Model use_ssl n\<rparr>"

fun model_clients :: "listener_model \<Rightarrow> 'a ts_world \<Rightarrow> 'a endpoint list option" where
  "model_clients (Listener_Model s n) w = listener_clients n w"

fun model_close_listener :: "listener_model \<Rightarrow> 'a ts_world \<Rightarrow> 'a ts_world" where
  "model_close_listener (Listener_Model s n) w = tv_listener n listener_close w"

fun model_close_all :: "listener_model \<Rightarrow> bool \<Rightarrow> 'a ts_world \<Rightarrow> 'a ts_world option" where
  "model_close_all (Listener_Model s n) close_clients w = listener_close_all close_clients n w"

fun model_close_clients :: "listener_model \<Rightarrow> 'a endpoint list \<Rightarrow> 'a ts_world \<Rightarrow> 'a ts_world option"
where
  "model_close_clients (Listener_Model s n) eps w = listener_close_clients eps n w"

fun model_write_to ::
  "listener_model \<Rightarrow> 'a endpoint \<Rightarrow> byte_array \<Rightarrow> 'a ts_world \<Rightarrow> 'a ts_world option" where
  "model_write_to (Listener_Model s n) client data w = listener_write client data n w"

text \<open>\<open>r\<close>: the results of open, set_option, bind and listen.\<close>

fun model_init ::
  "listener_model \<Rightarrow> (nat \<Rightarrow> error_code option) \<Rightarrow> 'a ts_world \<Rightarrow> (error_code option \<times> 'a ts_world) option"
where
  "model_init (Listener_Model s n) r w = do {
     li \<leftarrow> tv_listeners w n;
     Some (fst (listener_init r li), tv_listener n (\<lambda>l. snd (listener_init r l)) w) }"

fun model_listener_ssl :: "listener_model \<Rightarrow> bool" where
  "model_listener_ssl (Listener_Model s n) = s"

definition concept_clients :: "listener_concept \<Rightarrow> 'a ts_world \<Rightarrow> 'a endpoint list option" where
  "concept_clients c w = model_clients (lc_listener c) w"

definition concept_close_listener :: "listener_concept \<Rightarrow> 'a ts_world \<Rightarrow> 'a ts_world" where
  "concept_close_listener c w = model_close_listener (lc_listener c) w"

definition concept_close_all :: "listener_concept \<Rightarrow> bool \<Rightarrow> 'a ts_world \<Rightarrow> 'a ts_world option" where
  "concept_close_all c close_clients w = model_close_all (lc_listener c) close_clients w"

definition concept_close_clients ::
  "listener_concept \<Rightarrow> 'a endpoint list \<Rightarrow> 'a ts_world \<Rightarrow> 'a ts_world option" where
  "concept_close_clients c eps w = model_close_clients (lc_listener c) eps w"

definition concept_write_to ::
  "listener_concept \<Rightarrow> 'a endpoint \<Rightarrow> byte_array \<Rightarrow> 'a ts_world \<Rightarrow> 'a ts_world option" where
  "concept_write_to c client data w = model_write_to (lc_listener c) client data w"

definition concept_init ::
  "listener_concept \<Rightarrow> (nat \<Rightarrow> error_code option) \<Rightarrow> 'a ts_world
     \<Rightarrow> (error_code option \<times> 'a ts_world) option" where
  "concept_init c r w = model_init (lc_listener c) r w"

definition concept_listener_ssl :: "listener_concept \<Rightarrow> bool" where
  "concept_listener_ssl c = model_listener_ssl (lc_listener c)"

section \<open>The container of listeners over concepts\<close>

record 'a listener_heap =
  lh_world :: "'a ts_world"
  lh_servers :: "('a endpoint, listener_concept) omap"

text \<open>\<open>made\<close> is what the function given to \<open>open\<close> makes, of the class with \<open>use_ssl\<close>.\<close>

definition concept_servers_open ::
  "bool \<Rightarrow> bool \<Rightarrow> ('a :: linorder) endpoint \<Rightarrow> error_code option \<times> ts_listener \<Rightarrow> 'a listener_heap
     \<Rightarrow> error_code option \<times> 'a listener_heap" where
  "concept_servers_open support use_ssl ep made h =
     (if om_find (lh_servers h) ep \<noteq> None then (Some address_in_use, h)
      else if \<not> support then (Some (Sys_Code ''wrong_protocol_type''), h)
      else (case made of (ec, l) \<Rightarrow>
        if ec \<noteq> None then (ec, h)
        else
          (let w = lh_world h; n = tv_next w in
           (None, \<lparr>lh_world = w\<lparr>tv_next := n + 1, tv_listeners := (tv_listeners w)(n \<mapsto> l)\<rparr>,
                   lh_servers = om_set ep (Listener_Concept_of use_ssl n) (lh_servers h)\<rparr>))))"

definition concept_servers_close ::
  "('a :: linorder) endpoint \<Rightarrow> 'a listener_heap \<Rightarrow> (error_code option \<times> 'a listener_heap) option" where
  "concept_servers_close ep h =
     (case om_find (lh_servers h) ep of
        None \<Rightarrow> Some (Some not_connected, h)
      | Some c \<Rightarrow> do {
          w \<leftarrow> concept_close_all c True (lh_world h);
          Some (None, \<lparr>lh_world = w, lh_servers = om_erase ep (lh_servers h)\<rparr>) })"

fun concept_write_loop ::
  "'a endpoint list \<Rightarrow> byte_array \<Rightarrow> listener_concept \<Rightarrow> 'a ts_world \<Rightarrow> 'a ts_world option" where
  "concept_write_loop [] data c w = Some w"
| "concept_write_loop (t # to) data c w = do {
     w \<leftarrow> concept_write_to c t data w; concept_write_loop to data c w }"

definition concept_servers_write ::
  "('a :: linorder) endpoint \<Rightarrow> 'a endpoint list \<Rightarrow> byte_array \<Rightarrow> 'a listener_heap
     \<Rightarrow> (error_code option \<times> 'a listener_heap) option" where
  "concept_servers_write from to data h =
     (case om_find (lh_servers h) from of
        None \<Rightarrow> Some (Some not_connected, h)
      | Some c \<Rightarrow> do {
          w \<leftarrow> concept_write_loop to data c (lh_world h); Some (None, h\<lparr>lh_world := w\<rparr>) })"

definition concept_servers_clients ::
  "('a :: linorder) endpoint \<Rightarrow> 'a listener_heap \<Rightarrow> (error_code option \<times> 'a endpoint list) option" where
  "concept_servers_clients ep h =
     (case om_find (lh_servers h) ep of
        None \<Rightarrow> Some (Some not_connected, [])
      | Some c \<Rightarrow> map_option (Pair None) (concept_clients c (lh_world h)))"

definition concept_servers_close_clients ::
  "('a :: linorder) endpoint \<Rightarrow> 'a endpoint list \<Rightarrow> 'a listener_heap
     \<Rightarrow> (error_code option \<times> 'a listener_heap) option" where
  "concept_servers_close_clients ep clients h =
     (case om_find (lh_servers h) ep of
        None \<Rightarrow> Some (Some not_connected, h)
      | Some c \<Rightarrow> do {
          w \<leftarrow> concept_close_clients c clients (lh_world h); Some (None, h\<lparr>lh_world := w\<rparr>) })"

definition concept_servers_endpoints :: "'a listener_heap \<Rightarrow> (bool \<times> 'a endpoint) list" where
  "concept_servers_endpoints h = map (\<lambda>(key, value). (concept_listener_ssl value, key)) (lh_servers h)"

section \<open>Listeners do not look into the container\<close>

definition with_servers :: "('a endpoint, nat) omap \<Rightarrow> 'a ts_world \<Rightarrow> 'a ts_world" where
  "with_servers m w = w\<lparr>tv_servers := m\<rparr>"

lemma with_servers_sel [simp]:
  "tv_listeners (with_servers m w) = tv_listeners w" "tv_sessions (with_servers m w) = tv_sessions w"
  "tv_servers (with_servers m w) = m" "tv_next (with_servers m w) = tv_next w"
  "tv_session p f (with_servers m w) = with_servers m (tv_session p f w)"
  "tv_listener l g (with_servers m w) = with_servers m (tv_listener l g w)"
  by (simp_all add: with_servers_def tv_session_def tv_listener_def)

definition blind :: "(nat \<Rightarrow> 'a ts_session \<Rightarrow> 'x \<times> 'a ts_world \<Rightarrow> ('x \<times> 'a ts_world) option) \<Rightarrow> bool" where
  "blind func \<longleftrightarrow> (\<forall>p s x w m. func p s (x, with_servers m w) =
     map_option (apsnd (with_servers m)) (func p s (x, w)))"

lemma share_exec_blind:
  assumes "blind func"
  shows "share_exec True ts_lock (ts_visit func) v (map_option (apsnd (with_servers m)) st) =
    map_option (apsnd (with_servers m)) (share_exec True ts_lock (ts_visit func) v st)"
proof (induction v arbitrary: st)
  case (Cons p v)
  have l: "ts_lock p (map_option (apsnd (with_servers m)) st) = ts_lock p st"
    by (cases st) (auto simp: ts_lock_def)
  have "ts_visit func p (map_option (apsnd (with_servers m)) st) =
      map_option (apsnd (with_servers m)) (ts_visit func p st)"
  proof (cases st)
    case (Some y)
    obtain x w where "y = (x, w)" by force
    then show ?thesis using Some assms
      by (cases "tv_sessions w p") (simp_all add: ts_visit_def blind_def)
  qed (simp add: ts_visit_def)
  then show ?case using Cons.IH by (simp add: l)
qed simp

lemma ts_exec_blind:
  assumes "blind func"
  shows "ts_exec_to_all func l (x, with_servers m w) =
    map_option (apsnd (with_servers m)) (ts_exec_to_all func l (x, w))"
  using share_exec_blind [OF assms, of _ m "Some (x, w)"]
  by (cases "tv_listeners w l") (simp_all add: ts_exec_to_all_def share_exec_to_all_def)

lemma ts_post_servers:
  "ts_post c f p s (x, with_servers m w) = map_option (apsnd (with_servers m)) (ts_post c f p s (x, w))"
  by (auto simp: ts_post_def split: bind_splits)

lemma blind_post: "blind (ts_post c f)"
  by (simp add: blind_def ts_post_servers)

lemma listener_blind:
  fixes w :: "'a ts_world"
  shows "listener_write t d l (with_servers m w) = map_option (with_servers m) (listener_write t d l w)"
  "listener_close_clients eps l (with_servers m w) = map_option (with_servers m) (listener_close_clients eps l w)"
  "listener_close_all b l (with_servers m w) = map_option (with_servers m) (listener_close_all b l w)"
  "listener_clients l (with_servers m w) = listener_clients l w"
proof -
  show "listener_write t d l (with_servers m w) = map_option (with_servers m) (listener_write t d l w)"
    by (simp add: listener_write_def ts_exec_blind [OF blind_post] option.map_comp comp_def)
  have "blind (\<lambda>p s (u :: unit, w). if eps = [] then Some (u, w)
      else ts_post (\<lambda>e. e \<in> set eps) (\<lambda>s. s\<lparr>se_sock := tcp_session_close (se_sock s)\<rparr>) p s (u, w))"
    by (simp add: blind_def ts_post_servers)
  then show "listener_close_clients eps l (with_servers m w) =
      map_option (with_servers m) (listener_close_clients eps l w)"
    by (simp add: listener_close_clients_def ts_exec_blind option.map_comp comp_def)
  have "blind (\<lambda>p s (u :: unit, w). Some (u, ts_close_session p w))"
    by (simp add: blind_def ts_close_session_def)
  from ts_exec_blind [OF this, of l "()" m w]
  show "listener_close_all b l (with_servers m w) =
      map_option (with_servers m) (listener_close_all b l w)"
    by (cases "ts_exec_to_all (\<lambda>p s (u :: unit, w). Some (u, ts_close_session p w)) l ((), w)")
      (auto simp: listener_close_all_def)
  have "blind (\<lambda>p (s :: 'a ts_session) (v, w). do { e \<leftarrow> ts_endpoint s; Some (v @ [e], w) })"
    by (auto simp: blind_def split: bind_splits)
  then show "listener_clients l (with_servers m w) = listener_clients l w"
    by (simp add: listener_clients_def ts_exec_blind option.map_comp comp_def)
qed

section \<open>Listener concepts are transparent\<close>

definition listener_abs :: "'a listener_heap \<Rightarrow> 'a ts_world" where
  "listener_abs h = with_servers (om_map (lm_listener \<circ> lc_listener) (lh_servers h)) (lh_world h)"

definition listener_kinds :: "'a listener_heap \<Rightarrow> bool" where
  "listener_kinds h \<longleftrightarrow> (\<forall>(ep, c)\<in>set (lh_servers h).
     \<exists>li. tv_listeners (lh_world h) (lm_listener (lc_listener c)) = Some li \<and>
       li_ssl li = concept_listener_ssl c)"

lemma concept_listener:
  "concept_clients c = listener_clients (lm_listener (lc_listener c))"
  "concept_close_all c b = listener_close_all b (lm_listener (lc_listener c))"
  "concept_close_clients c eps = listener_close_clients eps (lm_listener (lc_listener c))"
  "concept_write_to c t d = listener_write t d (lm_listener (lc_listener c))"
  by (cases "lc_listener c"; simp add: fun_eq_iff concept_clients_def concept_close_all_def
      concept_close_clients_def concept_write_to_def)+

lemma write_loop_blind:
  "ts_write_loop to d (lm_listener (lc_listener c)) (with_servers m w) =
    map_option (with_servers m) (concept_write_loop to d c w)"
proof (induction to arbitrary: w)
  case (Cons t to)
  then show ?case
    by (cases "listener_write t d (lm_listener (lc_listener c)) w")
      (simp_all add: concept_listener listener_blind)
qed simp

lemma with_servers_idem [simp]: "with_servers m (with_servers m' w) = with_servers m w"
  by (simp add: with_servers_def)

lemma ts_world_servers: "w\<lparr>tv_servers := m\<rparr> = with_servers m w"
  by (simp add: with_servers_def)

lemma servers_endpoints:
  assumes "listener_kinds h"
  shows "ts_endpoints (listener_abs h) = Some (concept_servers_endpoints h)"
proof -
  have "map_opt (\<lambda>(key, l). do { li \<leftarrow> tv_listeners (lh_world h) l; Some (li_ssl li, key) })
      (om_map (lm_listener \<circ> lc_listener) m) = Some (map (\<lambda>(key, v). (concept_listener_ssl v, key)) m)"
    if "\<forall>(ep, c)\<in>set m. \<exists>li. tv_listeners (lh_world h) (lm_listener (lc_listener c)) = Some li \<and>
       li_ssl li = concept_listener_ssl c" for m
    using that by (induction m) auto
  then show ?thesis using assms
    by (simp add: ts_endpoints_def listener_abs_def concept_servers_endpoints_def listener_kinds_def)
qed

lemma servers_open:
  "ts_open support ep made (listener_abs h) =
    map_prod id listener_abs (concept_servers_open support use_ssl ep made h)"
  using om_set_map [of ep "lm_listener \<circ> lc_listener" "Listener_Concept_of use_ssl (tv_next (lh_world h))"
      "lh_servers h"]
  by (auto simp: ts_open_def ts_is_open_def concept_servers_open_def listener_abs_def om_find_map
      Listener_Concept_of_def Let_def with_servers_def split: prod.splits)

text \<open>
  Nor does it make a difference for the listeners: the container over concepts gives the
  same errors, clients and lists, calls what leaves its contract exactly when the container
  over listeners does, and the worlds after it stand for each other.
\<close>

theorem listener_concepts_refine:
  assumes "listener_kinds h"
  shows "ts_open support ep made (listener_abs h) =
      map_prod id listener_abs (concept_servers_open support use_ssl ep made h) \<and>
    ts_close ep (listener_abs h) = map_option (map_prod id listener_abs) (concept_servers_close ep h) \<and>
    ts_write ep to d (listener_abs h) =
      map_option (map_prod id listener_abs) (concept_servers_write ep to d h) \<and>
    ts_clients ep (listener_abs h) = concept_servers_clients ep h \<and>
    ts_close_clients ep eps (listener_abs h) =
      map_option (map_prod id listener_abs) (concept_servers_close_clients ep eps h) \<and>
    ts_endpoints (listener_abs h) = Some (concept_servers_endpoints h)"
proof (intro conjI servers_open servers_endpoints [OF assms])
  show "ts_close ep (listener_abs h) = map_option (map_prod id listener_abs) (concept_servers_close ep h)"
  proof (cases "om_find (lh_servers h) ep")
    case (Some c)
    then show ?thesis
      by (cases "listener_close_all True (lm_listener (lc_listener c)) (lh_world h)")
        (simp_all add: ts_close_def concept_servers_close_def listener_abs_def om_find_map om_erase_map
          concept_listener listener_blind ts_world_servers)
  qed (simp add: ts_close_def concept_servers_close_def listener_abs_def om_find_map)
  show "ts_write ep to d (listener_abs h) =
      map_option (map_prod id listener_abs) (concept_servers_write ep to d h)"
  proof (cases "om_find (lh_servers h) ep")
    case (Some c)
    then show ?thesis
      by (cases "concept_write_loop to d c (lh_world h)")
        (simp_all add: ts_write_def concept_servers_write_def listener_abs_def om_find_map
          write_loop_blind)
  qed (simp add: ts_write_def concept_servers_write_def listener_abs_def om_find_map)
  show "ts_clients ep (listener_abs h) = concept_servers_clients ep h"
    by (auto simp: ts_clients_def concept_servers_clients_def listener_abs_def om_find_map
        concept_listener listener_blind split: option.splits)
  show "ts_close_clients ep eps (listener_abs h) =
      map_option (map_prod id listener_abs) (concept_servers_close_clients ep eps h)"
  proof (cases "om_find (lh_servers h) ep")
    case (Some c)
    then show ?thesis
      by (cases "listener_close_clients eps (lm_listener (lc_listener c)) (lh_world h)")
        (simp_all add: ts_close_clients_def concept_servers_close_clients_def listener_abs_def
          om_find_map concept_listener listener_blind)
  qed (simp add: ts_close_clients_def concept_servers_close_clients_def listener_abs_def om_find_map)
qed

text \<open>No operation changes the class of a listener that is there.\<close>

definition same_kinds :: "'a ts_world \<Rightarrow> 'a ts_world \<Rightarrow> bool" where
  "same_kinds w w' \<longleftrightarrow> (\<forall>l. map_option li_ssl (tv_listeners w' l) = map_option li_ssl (tv_listeners w l))"

lemma same_kinds_simps [simp]:
  "same_kinds w w" "same_kinds w (tv_session p f w') = same_kinds w w'"
  "same_kinds w (tv_listener l listener_close w') = same_kinds w w'"
  by (auto simp: same_kinds_def tv_listener_def option.map_comp comp_def listener_close_def)

lemma ts_post_kinds:
  "\<lbrakk>ts_post c f p s (x, w1) = Some (x', w2); same_kinds w w1\<rbrakk> \<Longrightarrow> same_kinds w w2"
  by (auto simp: ts_post_def bind_Some_iff split: if_splits)

lemma listener_kinds_world:
  assumes "listener_kinds h" "same_kinds (lh_world h) w" "set m \<subseteq> set (lh_servers h)"
  shows "listener_kinds \<lparr>lh_world = w, lh_servers = m\<rparr>"
  unfolding listener_kinds_def
proof (clarsimp)
  fix ep c assume "(ep, c) \<in> set m"
  then have "(ep, c) \<in> set (lh_servers h)" using assms(3) by blast
  then obtain li where li: "tv_listeners (lh_world h) (lm_listener (lc_listener c)) = Some li"
    "li_ssl li = concept_listener_ssl c"
    using assms(1) by (fastforce simp: listener_kinds_def)
  then have "map_option li_ssl (tv_listeners w (lm_listener (lc_listener c))) = Some (concept_listener_ssl c)"
    using assms(2) by (simp add: same_kinds_def)
  then show "\<exists>li. tv_listeners w (lm_listener (lc_listener c)) = Some li \<and> li_ssl li = concept_listener_ssl c"
    by (auto simp: map_option_eq_Some)
qed

lemma listener_ops_kinds:
  "listener_write t d l w = Some w' \<Longrightarrow> same_kinds w w'"
  "listener_close_clients eps l w = Some w' \<Longrightarrow> same_kinds w w'"
  "listener_close_all b l w = Some w' \<Longrightarrow> same_kinds w w'"
proof -
  show "same_kinds w w'" if ran: "listener_write t d l w = Some w'"
  proof -
    obtain u where "ts_exec_to_all (ts_post (\<lambda>e. t = e)
        (\<lambda>s. s\<lparr>se_sock := tcp_session_write d (se_sock s)\<rparr>)) l ((), w) = Some (u, w')"
      using ran by (auto simp: listener_write_def)
    then show ?thesis by (rule ts_exec_invariant) (auto intro: ts_post_kinds)
  qed
  show "same_kinds w w'" if ran: "listener_close_clients eps l w = Some w'"
  proof -
    obtain u where "ts_exec_to_all (\<lambda>p s (u, w). if eps = [] then Some (u, w)
        else ts_post (\<lambda>e. e \<in> set eps) (\<lambda>s. s\<lparr>se_sock := tcp_session_close (se_sock s)\<rparr>) p s (u, w))
        l ((), w) = Some (u, w')"
      using ran by (auto simp: listener_close_clients_def)
    then show ?thesis
      by (rule ts_exec_invariant) (auto intro: ts_post_kinds split: if_splits)
  qed
  show "same_kinds w w'" if ran: "listener_close_all b l w = Some w'"
  proof -
    obtain w1 where w1: "(if b then ts_exec_to_all (\<lambda>p s (u, w). Some (u, ts_close_session p w)) l ((), w)
        else Some ((), w)) = Some ((), w1)" "w' = tv_listener l listener_close w1"
      using ran by (auto simp: listener_close_all_def bind_Some_iff)
    have "same_kinds w w1"
    proof (cases b)
      case True
      then have "ts_exec_to_all (\<lambda>p s (u, w). Some (u, ts_close_session p w)) l ((), w) = Some ((), w1)"
        using w1(1) by simp
      then show ?thesis by (rule ts_exec_invariant) (auto simp: ts_close_session_def)
    qed (use w1(1) in simp)
    then show ?thesis using w1(2) by simp
  qed
qed

lemma write_loop_kinds: "concept_write_loop to d c w = Some w' \<Longrightarrow> same_kinds w w'"
proof (induction to arbitrary: w)
  case (Cons t to)
  then obtain w1 where "concept_write_to c t d w = Some w1" "concept_write_loop to d c w1 = Some w'"
    by (auto simp: bind_Some_iff)
  then have "same_kinds w w1" "same_kinds w1 w'"
    using Cons.IH listener_ops_kinds(1) by (auto simp: concept_listener)
  then show ?case by (simp add: same_kinds_def)
qed simp

lemma listener_kinds_keep:
  assumes h: "listener_kinds h"
  shows "concept_servers_close ep h = Some (ec, h') \<Longrightarrow> listener_kinds h'"
    "concept_servers_write ep to d h = Some (ec, h') \<Longrightarrow> listener_kinds h'"
    "concept_servers_close_clients ep eps h = Some (ec, h') \<Longrightarrow> listener_kinds h'"
    "\<lbrakk>concept_servers_open support use_ssl ep made h = (ec, h'); li_ssl (snd made) = use_ssl;
      tv_listeners (lh_world h) (tv_next (lh_world h)) = None\<rbrakk> \<Longrightarrow> listener_kinds h'"
proof -
  have upd: "h\<lparr>lh_world := w\<rparr> = \<lparr>lh_world = w, lh_servers = lh_servers h\<rparr>" for w by simp
  show "listener_kinds h'" if "concept_servers_close ep h = Some (ec, h')"
    using that h set_om_erase [of ep "lh_servers h"]
    by (auto simp: concept_servers_close_def bind_Some_iff concept_listener split: option.splits
        dest!: listener_ops_kinds(3) intro: listener_kinds_world)
  show "listener_kinds h'" if "concept_servers_write ep to d h = Some (ec, h')"
    using that h
    by (auto simp: concept_servers_write_def bind_Some_iff upd split: option.splits
        dest!: write_loop_kinds intro: listener_kinds_world)
  show "listener_kinds h'" if "concept_servers_close_clients ep eps h = Some (ec, h')"
    using that h
    by (auto simp: concept_servers_close_clients_def bind_Some_iff concept_listener upd split: option.splits
        dest!: listener_ops_kinds(2) intro: listener_kinds_world)
  show "listener_kinds h'" if op: "concept_servers_open support use_ssl ep made h = (ec, h')"
    and made: "li_ssl (snd made) = use_ssl" and fresh: "tv_listeners (lh_world h) (tv_next (lh_world h)) = None"
  proof -
    let ?n = "tv_next (lh_world h)"
    have "listener_kinds \<lparr>lh_world = (lh_world h)\<lparr>tv_next := ?n + 1,
          tv_listeners := (tv_listeners (lh_world h))(?n \<mapsto> snd made)\<rparr>,
        lh_servers = om_set ep (Listener_Concept_of use_ssl ?n) (lh_servers h)\<rparr>"
      using h made fresh set_om_set [of ep "Listener_Concept_of use_ssl ?n" "lh_servers h"]
      unfolding listener_kinds_def
      by (fastforce simp: Listener_Concept_of_def concept_listener_ssl_def)
    then show ?thesis using op h
      by (cases made) (auto simp: concept_servers_open_def Let_def split: if_splits)
  qed
qed

end
