(* ===== verification/Main_Run.thy ===== *)
theory Main_Run
  imports Server Arguments
begin

text \<open>
  The end of \<open>main\<close> (\<open>src/src/main.cpp\<close>, from the signals on): the threads that run the
  handlers, the signal that stops them, and the return.  \<open>io_context\<close> is used by what its
  documentation says: \<open>run\<close> takes handlers until \<open>stop\<close> has been called or no work is left,
  and the wait for a signal is work.  A handler is one step.
\<close>

section \<open>State\<close>

text \<open>
  \<open>ru_waiting\<close>: the wait for \<open>SIGINT\<close> or \<open>SIGTERM\<close> is outstanding; \<open>ru_threads\<close>: how many
  threads, the main one among them, are inside \<open>ioc.run()\<close>; \<open>ru_return\<close>: what \<open>main\<close> has
  returned.
\<close>

record 'a running =
  ru_server :: "'a server"
  ru_waiting :: bool
  ru_stopped :: bool
  ru_threads :: nat
  ru_return :: "nat option"

definition EXIT_SUCCESS :: nat where
  "EXIT_SUCCESS = 0"

definition main_run :: "'b started \<Rightarrow> 'a server \<Rightarrow> 'a running" where
  "main_run p sv = \<lparr>ru_server = sv, ru_waiting = True, ru_stopped = False,
     ru_threads = st_workers p + 1, ru_return = None\<rparr>"

text \<open>The handler of the signals, which does not look at the error it is given.\<close>

definition main_signal :: "'a running \<Rightarrow> 'a running" where
  "main_signal r = r\<lparr>ru_waiting := False, ru_stopped := True\<rparr>"

definition main_leave :: "'a running \<Rightarrow> 'a running" where
  "main_leave r = r\<lparr>ru_threads := ru_threads r - 1\<rparr>"

text \<open>All threads are joined.\<close>

definition main_return :: "'a running \<Rightarrow> 'a running" where
  "main_return r = r\<lparr>ru_return := Some EXIT_SUCCESS\<rparr>"

inductive main_step ::
  "('j, 'a :: linorder, 'z) net_lib_scheme \<Rightarrow> build_options \<Rightarrow> bool \<Rightarrow> 'a running \<Rightarrow> 'a running \<Rightarrow> bool"
  for L :: "('j, 'a :: linorder, 'z) net_lib_scheme" and b :: build_options and dt :: bool where
  m_handler: "\<lbrakk>\<not> ru_stopped r; ru_threads r > 0; server_step L b dt (ru_server r) sv\<rbrakk> \<Longrightarrow>
    main_step L b dt r (r\<lparr>ru_server := sv\<rparr>)"
| m_signal: "\<lbrakk>\<not> ru_stopped r; ru_threads r > 0; ru_waiting r\<rbrakk> \<Longrightarrow> main_step L b dt r (main_signal r)"
| m_leave: "\<lbrakk>ru_threads r > 0; ru_stopped r \<or> \<not> ru_waiting r\<rbrakk> \<Longrightarrow> main_step L b dt r (main_leave r)"
| m_return: "\<lbrakk>ru_threads r = 0; ru_return r = None\<rbrakk> \<Longrightarrow> main_step L b dt r (main_return r)"

inductive main_reach ::
  "('j, 'a :: linorder, 'z) net_lib_scheme \<Rightarrow> build_options \<Rightarrow> bool \<Rightarrow> (nat \<Rightarrow> u64) \<Rightarrow> 'b started
     \<Rightarrow> 'a running \<Rightarrow> bool"
  for L :: "('j, 'a :: linorder, 'z) net_lib_scheme" and b :: build_options and dt :: bool
    and clock :: "nat \<Rightarrow> u64" and p :: "'b started" where
  m_start: "main_reach L b dt clock p (main_run p (server_init b clock))"
| m_step: "\<lbrakk>main_reach L b dt clock p r; main_step L b dt r r'\<rbrakk> \<Longrightarrow> main_reach L b dt clock p r'"

section \<open>Loading the certificate\<close>

text \<open>
  The overloads of \<open>src/src/helpers/load_certificate.cpp\<close> that throw (\<open>Inl\<close>): one for the
  files of the arguments, and one with a certificate of its own, whose calls throw by
  themselves.
\<close>

definition load_certificate_throw ::
  "nat option \<Rightarrow> nat option \<Rightarrow> nat option \<Rightarrow> nat option \<Rightarrow> nat + unit" where
  "load_certificate_throw password options chain key =
     (case load_certificate password options chain key of Some ec \<Rightarrow> Inl ec | None \<Rightarrow> Inr ())"

definition load_certificate_builtin ::
  "nat option \<Rightarrow> nat option \<Rightarrow> nat option \<Rightarrow> nat option \<Rightarrow> nat + unit" where
  "load_certificate_builtin password options chain key =
     (case password of Some ec \<Rightarrow> Inl ec | None \<Rightarrow>
     (case options of Some ec \<Rightarrow> Inl ec | None \<Rightarrow>
     (case chain of Some ec \<Rightarrow> Inl ec | None \<Rightarrow>
     (case key of Some ec \<Rightarrow> Inl ec | None \<Rightarrow> Inr ()))))"

lemma load_certificate_overloads:
  "load_certificate_builtin password options chain key = load_certificate_throw password options chain key"
  by (auto simp: load_certificate_builtin_def load_certificate_throw_def load_certificate_def
      split: option.splits)

section \<open>Lemmas\<close>

definition main_inv ::
  "('j, 'a :: linorder, 'z) net_lib_scheme \<Rightarrow> build_options \<Rightarrow> bool \<Rightarrow> (nat \<Rightarrow> u64) \<Rightarrow> 'b started
     \<Rightarrow> 'a running \<Rightarrow> bool" where
  "main_inv L b dt clock p r \<longleftrightarrow> server_reach L b dt clock (ru_server r) \<and>
     (ru_waiting r \<longleftrightarrow> \<not> ru_stopped r) \<and> (\<not> ru_stopped r \<longrightarrow> ru_threads r = st_workers p + 1) \<and>
     (\<forall>v. ru_return r = Some v \<longrightarrow> v = EXIT_SUCCESS \<and> ru_stopped r \<and> ru_threads r = 0)"

lemma main_inv_step:
  assumes "main_step L b dt r r'" "main_inv L b dt clock p r"
  shows "main_inv L b dt clock p r'"
  using assms
proof cases
  case (m_handler sv)
  then show ?thesis using assms(2) server_reach.v_step by (auto simp: main_inv_def)
qed (auto simp: main_inv_def main_signal_def main_leave_def main_return_def)

lemma main_reach_inv: "main_reach L b dt clock p r \<Longrightarrow> main_inv L b dt clock p r"
proof (induction rule: main_reach.induct)
  case m_start
  then show ?case by (simp add: main_inv_def main_run_def server_reach.v_init)
next
  case (m_step r r')
  then show ?case using main_inv_step by blast
qed

text \<open>What is left to do once the program has been stopped.\<close>

definition to_do :: "'a running \<Rightarrow> nat" where
  "to_do r = ru_threads r + (if ru_return r = None then 1 else 0)"

lemma stopped_step:
  assumes "main_step L b dt r r'" "ru_stopped r"
  shows "ru_stopped r' \<and> ru_server r' = ru_server r \<and> to_do r = Suc (to_do r')"
  using assms by cases (auto simp: to_do_def main_signal_def main_leave_def main_return_def)

lemma stopped_steps:
  assumes "(main_step L b dt ^^ n) r r'" "ru_stopped r"
  shows "ru_stopped r' \<and> ru_server r' = ru_server r \<and> to_do r = to_do r' + n"
  using assms(1)
proof (induction n arbitrary: r')
  case (Suc n)
  then obtain q where "(main_step L b dt ^^ n) r q" "main_step L b dt q r'" by auto
  then show ?case using Suc.IH stopped_step by fastforce
qed (use assms(2) in simp)

lemma stopped_progress:
  assumes "ru_stopped r" "ru_return r = None"
  shows "\<exists>r'. main_step L b dt r r'"
proof (cases "ru_threads r")
  case 0
  then show ?thesis using assms main_step.m_return by blast
next
  case (Suc n)
  then show ?thesis using assms main_step.m_leave [of r L b dt] by auto
qed

lemma stopped_ends:
  assumes "main_inv L b dt clock p r" "ru_stopped r"
  shows "\<exists>r'. (main_step L b dt ^^ to_do r) r r' \<and> ru_return r' = Some EXIT_SUCCESS"
  using assms
proof (induction "to_do r" arbitrary: r)
  case 0
  then obtain v where "ru_return r = Some v" by (auto simp: to_do_def split: if_splits)
  then show ?case using 0 by (auto simp: main_inv_def)
next
  case (Suc n)
  have "ru_return r = None"
    using Suc.hyps(2) Suc.prems by (auto simp: to_do_def main_inv_def split: if_splits)
  then obtain q where q: "main_step L b dt r q" using stopped_progress Suc.prems(2) by blast
  have "ru_stopped q" "n = to_do q" using stopped_step [OF q Suc.prems(2)] Suc.hyps(2) by simp_all
  moreover have "main_inv L b dt clock p q" using main_inv_step [OF q Suc.prems(1)] .
  ultimately obtain r' where "(main_step L b dt ^^ n) q r'" "ru_return r' = Some EXIT_SUCCESS"
    using Suc.hyps(1) by blast
  then show ?case using q relpowp_Suc_I2 [of "main_step L b dt" r q n r'] Suc.hyps(2) by auto
qed

section \<open>Properties\<close>


definition two_threads :: "nat started" where
  "two_threads = \<lparr>st_address = 1, st_port = 8080, st_workers = 1\<rparr>"


end
