(* ===== verification/Spec2Isabelle.thy ===== *)
theory Spec2Isabelle
  imports Server_Apps Arguments Monitor_Proc Http_Upgrade Percent Console_Text Locks
    Listener_Variants Concepts Main_Run
begin

text \<open>
  Xerock is a daemon that gives its users, over websockets, access to serial ports and
  sockets.  Its core (\<open>src/src/core\<close>) receives JSON messages, marks and echoes them to
  every user, and hands each to the application it names (\<open>src/src/apps\<close>); an
  application opens, closes and feeds its sockets or ports, whose classes are the templates
  of \<open>src/src/libs/my_async\<close> over Boost.Asio, and reports everything that happens to all
  users.  This development models these parts as they are written and proves what makes them
  correct, and where they are not, how they fail.

  Conventions.  State is a record and is passed explicitly; an operation returns the new
  state.  A value of an \<open>option\<close> type that is \<open>None\<close> is an execution that leaves the
  contract of the code it calls: an absent JSON member that is read, an empty
  \<open>std::function\<close> that is called, an exception that escapes a \<open>noexcept\<close> function (and,
  for the loops that are \<open>partial_function\<close>s, an execution that does not end).  What
  the program reports as an error is a value.  Machine integers keep their width.  What
  the operating system or Boost.Asio answers is an argument of the handler it completes,
  so that every theorem holds for every answer; the writes and tasks a handler starts are
  lists in its state.  RapidJSON and the address parser are the record \<open>lib\<close> and its
  extension \<open>net_lib\<close>, with their documented behaviour as \<open>dom_laws\<close>; \<open>jv_lib\<close>
  and \<open>jv_net\<close> are concrete ones that satisfy it.

  The theories, with the code each follows (paths under \<open>src/src\<close>):

  \<^item> \<open>Prelude\<close>: machine types, C strings, computations that can leave a contract.
    \<open>Ordered_Map\<close>: \<open>std::map\<close>, behind the locale \<open>keyed_store\<close>.
    \<open>Streams\<close>: the input streams of the standard library.
  \<^item> \<open>Byte_Array\<close>: \<open>libs/byte_array\<close>; the conversions lose nothing.
  \<^item> \<open>Json_Dom\<close>, \<open>Json_Value\<close>: the interface to RapidJSON.
  \<^item> \<open>Core_App\<close>: \<open>core/*.cpp\<close> and \<open>core/include\<close>, identifiers and the table of
    applications.  \<open>Factory\<close>: \<open>core/json/factory.cpp\<close> and the builder.  \<open>Main_App\<close>:
    \<open>apps/main\<close>, the header of a message; the factory and the parser are inverse.
  \<^item> \<open>Shareable\<close>: the registries of \<open>libs/utility\<close>, behind the locale \<open>registry\<close>.
    \<open>Write_Queue\<close>: the queue every socket class has, behind the locale \<open>write_queue\<close>.
  \<^item> \<open>Ws_Session\<close>: the websocket session of \<open>libs/my_async\<close>, as a step relation.
    \<open>Websocket_Core\<close>: \<open>core/json/websocket_session.cpp\<close>, its four callbacks and
    the delivery of what they write to the sessions.
  \<^item> \<open>Endpoint\<close>: \<open>libs/utility\<close>, endpoints and payloads in JSON.  \<open>Tcp_Client_Json\<close>,
    \<open>Tcp_Server_Json\<close>, \<open>Udp_Json\<close>: the parsers and messages of the socket applications.
  \<^item> \<open>Tcp_Session\<close>, \<open>Tcp_Client_Socket\<close>, \<open>Udp_Sockets\<close>, \<open>Serial_Port\<close>,
    \<open>Listener\<close>: the classes of \<open>libs/my_async\<close> with their containers; safety of the
    orders in which calls and completions can come, and what arrives at the peer.
  \<^item> \<open>Tcp_Client_App\<close>, \<open>Tcp_Server_App\<close>, \<open>Udp_Apps\<close>, \<open>Serial_App\<close>, \<open>Echo_App\<close>,
    \<open>Monitor_App\<close>: the request handlers of \<open>apps\<close> and what they call.
  \<^item> \<open>Proc_Info\<close>, \<open>Hardware_Info\<close>: the readers of \<open>/proc\<close> in \<open>libs/system_info\<close>, against
    reference readings of the files.  \<open>Monitor_Proc\<close>: the monitor over these readers; it
    refines the executor of \<open>Monitor_App\<close>.  \<open>Percent\<close>: uptimes and percentages over any
    arithmetic of \<open>double\<close>s; without rounding they add up.  \<open>Print_System\<close>,
    \<open>Console_Text\<close>: what the program prints.
  \<^item> \<open>Init_Apps\<close>: \<open>apps/init_apps.cpp\<close>, all applications behind one table and one state.
    \<open>Arguments\<close>: \<open>arguments.cpp\<close> and \<open>main.cpp\<close>, the start of the program.
  \<^item> \<open>Callbacks\<close>: the variants of the socket classes that run assigned functions, behind
    the locale \<open>callback_holder\<close>.  \<open>Http_Upgrade\<close>: the listener for plain and SSL clients,
    the detection of SSL and the HTTP upgrade, up to the websocket session.
  \<^item> \<open>Growth\<close>: no handler of any application touches the table or takes back a write.
    \<open>Server\<close>: listener, sessions, core and applications as one state, with a step for
    everything that can happen (\<open>server_step\<close>), and its invariant.  \<open>Tcp_Server_Share\<close>: the
    sessions of the TCP server, its listeners and their registries stay consistent.
    \<open>App_Invariants\<close>, \<open>Server_Apps\<close>: what holds of every application in every state of
    the running program.
  \<^item> \<open>Concepts\<close>: the objects the TCP containers hold, which hide the class of a client or a
    listener; the containers over them refine those of \<open>Tcp_Client_App\<close> and \<open>Listener\<close>.
    \<open>Main_Run\<close>: the threads of \<open>main\<close>, the signals that stop them and the return.
  \<^item> \<open>Locks\<close>, \<open>Listener_Variants\<close>: parts of the libraries the program does not call, the
    locks of files over any \<open>fcntl\<close> that does what POSIX says, the listener that makes a
    registry for its sessions and the container of listeners of one kind.
  \<^item> This theory: a message from its arrival to its effect, for one handler
    (\<open>program_on_message\<close>) and in the running program, and what the parsers of all
    applications have in common.

  How parts interact.  A websocket session calls the callbacks of \<open>Websocket_Core\<close>; these
  call \<open>call_app\<close> of \<open>Init_Apps\<close>, which runs the handler of one application on the joint
  state; the handlers emit writes (\<open>Write\<close>, \<open>Write_All\<close>), which \<open>ws_write_all\<close> hands to
  the sessions of the share.  \<open>server_deliver\<close> of \<open>Server\<close> is this whole chain for one
  completed operation of one session; sockets, devices and timers of the applications reach
  the core by the rules of \<open>app_event\<close>, which also admit a call of the program on a socket
  at any time.

  Bounds.  \<open>serial_status\<close> sends itself again when a port vanishes and has a depth as
  fuel; the number of ports plus one is enough (C29).  The loops of \<open>peak_loop\<close>,
  \<open>read_cpu_time\<close> and \<open>config_loop\<close> need not end and are \<open>partial_function\<close>s: that they
  return is part of their theorems, and where they do not is proved too (C19, C38).

  Not modelled: two handlers at the same time (each handler is one step; the mutexes make
  the registries atomic), the Windows variants, the text of the certificate that is built
  in, \<open>open\<close> and \<open>endpoints\<close> of the simple container of TCP clients and \<open>close_clients\<close> of
  the one for listeners, which nothing instantiates and which do not fit the classes they
  are for, the former propagator, one of whose overrides calls a function that is not
  declared where it is called, examples and tests.
\<close>

section \<open>A message from a client\<close>

lemma parser_main_time:
  assumes "parser_main L apps doc = Some (Some m)" "jd_find L doc MESSAGE_TIME_KEY = Some t"
  shows "md_time m = jd_get_uint64 L t"
  using assms
  by (auto simp: parser_main_def get_time_def accessor_defs bind_Some_iff
      split: if_splits option.splits)

text \<open>
  C1: What the program does with a message that is a JSON object with a member \<open>time\<close>.
  The document, with a fresh message number, the mark \<open>echoed\<close> and the server's time in
  it, is first written to every session.  Then the marked document is parsed, which never
  fails: if it has no valid header an error goes to the sender alone; otherwise the
  application it names is one that the build enables, the header carries the server's
  time, and that application's handler runs on the marked document after the echo; the
  application \<open>main\<close>, which has no handler, does nothing.
\<close>

theorem program_message:
  assumes L: "dom_laws L" and apps: "c_apps c = init_apps b []"
    and d: "jd_parse L (c_str (to_string body)) = Some d" "jd_is_object L d"
    and t: "jd_find L d MESSAGE_TIME_KEY = Some t"
    and c1: "c1 = emit (Write_All (Byte_Array_of (jd_write L (marked L d c))) True) (after_msg c)"
  shows "\<exists>r. parser_main L (init_apps b []) (marked L d c) = Some r \<and>
    program_on_message L b os ws body (st, c) =
      (case r of
         None \<Rightarrow> map_option (Pair st) (fail_message L ws main (make_error_code ILL_FORMED) '''' c1)
       | Some m \<Rightarrow>
           (case app_entry b (md_app m) of
              None \<Rightarrow> None
            | Some a \<Rightarrow>
                (case app_func a of
                   Some f \<Rightarrow> call_app L b os f ws m (marked L d c) (st, c1)
                 | None \<Rightarrow> Some (st, c1)))) \<and>
    (\<forall>m. r = Some m \<longrightarrow> app_entry b (md_app m) \<noteq> None \<and> md_time m = c_clock c (c_ticks c))"
proof -
  have ok: "table_ok (c_apps c)" using apps by (simp add: init_apps_ok)
  obtain r where r: "parser_main L (c_apps c) (marked L d c) = Some r"
    using parser_main_total [OF ok, of L "marked L d c"] by blast
  have e: "app_entry b (md_app m) \<noteq> None" if "r = Some m" for m
    using parser_main_registered [OF ok, of L "marked L d c" m] r that apps
    by (auto simp: init_apps_lookup)
  have "jd_find L (marked L d c) MESSAGE_TIME_KEY = Some (jd_uint64 L (c_clock c (c_ticks c)))"
    by (simp add: marked_find [OF L d(2) t])
  then have "md_time m = c_clock c (c_ticks c)" if "r = Some m" for m
    using parser_main_time [of L "c_apps c" "marked L d c" m] r that by (simp add: dom_simps [OF L])
  moreover have "program_on_message L b os ws body (st, c) =
      (case r of
         None \<Rightarrow> map_option (Pair st) (fail_message L ws main (make_error_code ILL_FORMED) '''' c1)
       | Some m \<Rightarrow>
           (case app_entry b (md_app m) of
              None \<Rightarrow> None
            | Some a \<Rightarrow>
                (case app_func a of
                   Some f \<Rightarrow> call_app L b os f ws m (marked L d c) (st, c1)
                 | None \<Rightarrow> Some (st, c1))))"
    unfolding program_on_message_def core_on_message_eq [OF L ok d t c1] r
    using e by (auto simp: apps init_apps_lookup split: option.splits)
  ultimately show ?thesis using r e apps by auto
qed

definition demo_options :: build_options where
  "demo_options = \<lparr>use_app_echo = 1, use_app_serial = 0, use_app_monitor = 0,
     use_app_tcp_server = 0, use_app_tcp_client = 0, use_app_udp_client = 0,
     use_app_udp_server = 0, use_ssl_build = False\<rparr>"

definition demo_answers :: "nat os_answers" where
  "demo_answers = \<lparr>os_char_ok = (\<lambda>_. True), os_serial = serial_gone, os_info = True, os_uptime = True,
     os_listen = (\<lambda>_. None), os_udp_bound = None, os_udp_close = None, os_udp_opened = True,
     os_udp_bind = None\<rparr>"

definition demo_core :: "app_fun core" where
  "demo_core = (core_init (\<lambda>_. 77))\<lparr>c_apps := init_apps demo_options []\<rparr>"

definition demo_doc :: jval where
  "demo_doc = JObj [(''app'', JStr ''echo''), (''time'', JNum 5), (''type'', JStr ''data''),
     (''data'', JObj [(''type'', JStr ''hex''), (''data'', JArr [JNum 65])])]"

definition demo_net :: "jval \<Rightarrow> (jval, nat) net_lib" where
  "demo_net d = jv_net\<lparr>jd_parse := (\<lambda>_. Some d)\<rparr>"

lemma demo_net_laws: "dom_laws (demo_net d)"
  using jv_net_laws by (simp add: dom_laws_def demo_net_def)

lemma demo_core_apps: "c_apps demo_core = init_apps demo_options []"
  by (simp add: demo_core_def)

definition demo_marked :: jval where
  "demo_marked = JObj [(''app'', JStr ''echo''), (''time'', JNum 77), (''type'', JStr ''data''),
     (''data'', JObj [(''type'', JStr ''hex''), (''data'', JArr [JNum 65])]),
     (''smid'', JNum 0), (''echoed'', JBool True)]"

lemma demo_net_sel [simp]:
  "jd_is_object (demo_net d) = jd_is_object jv_net" "jd_is_string (demo_net d) = jd_is_string jv_net"
  "jd_is_array (demo_net d) = jd_is_array jv_net"
  "jd_is_uint (demo_net d) = jd_is_uint jv_net" "jd_is_uint64 (demo_net d) = jd_is_uint64 jv_net"
  "jd_get_string (demo_net d) = jv_text"
  "jd_get_uint64 (demo_net d) j = word_of_int (jv_num j)"
  "jd_find (demo_net d) j = map_of (jv_members j)" "jd_elements (demo_net d) = jv_items"
  "jd_parse (demo_net d) s = Some d"
  by (simp_all add: demo_net_def)

lemma demo_marked_eq: "marked (demo_net d) demo_doc demo_core = demo_marked"
  by (simp add: marked_def demo_net_def jv_net_def jv_lib_def lib.extend_def demo_doc_def
      demo_marked_def demo_core_def core_init_def message_keys)

lemma demo_parsed: "parser_main (demo_net d) (init_apps demo_options []) demo_marked =
  Some (Some \<lparr>md_app = echo, md_time = 77, md_type = data_type, md_control = None\<rparr>)"
proof -
  let ?L = "demo_net d"
  have "member_c_str ?L demo_marked MESSAGE_APP_KEY = Some (name_of echo)"
    "member_c_str ?L demo_marked MESSAGE_TYPE_KEY = Some MESSAGE_TYPE_DATA"
    "check_message ?L demo_marked = Some True" "get_time ?L demo_marked = Some 77"
    by (simp_all add: accessor_defs demo_marked_def message_keys c_str_def check_message_True
        get_time_def)
  moreover have "app_entry demo_options echo =
      Some \<lparr>app_id = echo, app_name = Some ''echo'', app_func = Some Echo_Fun\<rparr>"
    by (simp add: app_entry_def demo_options_def Let_def)
  ultimately show ?thesis
    using init_apps_name [of demo_options echo]
    by (simp add: parser_main_def get_app_def get_type_def del: name_of.simps)
qed

theorem program_message_witness:
  "program_on_message (demo_net demo_doc) demo_options demo_answers 3 [1] (apps_init, demo_core) =
     call_app (demo_net demo_doc) demo_options demo_answers Echo_Fun 3
       \<lparr>md_app = echo, md_time = 77, md_type = data_type, md_control = None\<rparr> demo_marked
       (apps_init, emit (Write_All (Byte_Array_of (jd_write (demo_net demo_doc) demo_marked)) True)
         (after_msg demo_core))"
proof -
  have d: "jd_parse (demo_net demo_doc) (c_str (to_string [1])) = Some demo_doc"
    "jd_is_object (demo_net demo_doc) demo_doc"
    "jd_find (demo_net demo_doc) demo_doc MESSAGE_TIME_KEY = Some (JNum 5)"
    by (simp_all add: demo_doc_def MESSAGE_TIME_KEY_def)
  have e: "app_entry demo_options echo =
      Some \<lparr>app_id = echo, app_name = Some ''echo'', app_func = Some Echo_Fun\<rparr>"
    by (simp add: app_entry_def demo_options_def Let_def)
  from program_message [OF demo_net_laws demo_core_apps d refl, of demo_answers 3 apps_init]
  show ?thesis by (auto simp: demo_marked_eq demo_parsed e)
qed

text \<open>
  C15: A message that is not JSON, or not an object, changes nothing but the counters: it is
  not echoed, no application runs, and its sender alone gets one error message with the
  code for malformed messages.
\<close>

theorem program_malformed:
  assumes apps: "c_apps c = init_apps b []"
    and bad: "jd_parse L (c_str (to_string body)) = None \<or>
      (\<exists>d. jd_parse L (c_str (to_string body)) = Some d \<and> \<not> jd_is_object L d)"
  shows "program_on_message L b os ws body (st, c) = Some (st, emit (Write ws (Byte_Array_of
    (jd_write L (jd_object L (head_members L ''main'' (jd_uint L server_user_id) control_type c @
      [(CONTROL_TYPE_KEY, jd_string L ''error''),
       (DATA_KEY, jd_object L [(''code'', jd_int L 10),
         (''message'', jd_string L ''Ill formed message''), (''what'', jd_string L '''')])])))) True)
    (after_msg c))"
proof -
  have "program_on_message L b os ws body (st, c) =
      map_option (Pair st) (fail_message L ws main (make_error_code ILL_FORMED) '''' c)"
    unfolding program_on_message_def by (rule core_on_message_malformed [OF bad])
  then show ?thesis
    using init_apps_main [OF apps]
    by (simp add: fail_message_def make_error_message_eq make_error_code_def c_str_def
        Message_Err_Category_message_def)
qed

theorem program_malformed_witness:
  "\<exists>s. program_on_message jv_net demo_options demo_answers 3 [1] (apps_init, demo_core) =
     Some (apps_init, emit (Write 3 (Byte_Array_of s) True) (after_msg demo_core))"
proof -
  have "jd_parse jv_net (c_str (to_string [1])) = None"
    by (simp add: jv_net_def lib.extend_def)
  with program_malformed [OF demo_core_apps, of jv_net "[1]"] show ?thesis by blast
qed

text \<open>
  C16: An object without a member \<open>time\<close>, whatever else it holds, ends the program: the
  server assigns to the member before anything has looked whether it is there.
\<close>

theorem program_no_time:
  assumes "dom_laws L" "jd_parse L (c_str (to_string body)) = Some d" "jd_is_object L d"
    and "jd_find L d MESSAGE_TIME_KEY = None"
  shows "program_on_message L b os ws body (st, c) = None"
  using assms(2,3)
  by (simp add: program_on_message_def core_on_message_def add_mid_no_time [OF assms(1,3,4)])

theorem program_no_time_witness:
  "program_on_message (demo_net (JObj [])) demo_options demo_answers 3 [1] (apps_init, demo_core) =
     None"
  by (rule program_no_time [OF demo_net_laws, where d = "JObj []"]) simp_all

section \<open>The running program\<close>

text \<open>A server with one session, and the shortest message it echoes.\<close>

definition demo_short :: jval where
  "demo_short = JObj [(''time'', JNum 5)]"

definition demo_server :: "nat server" where
  "demo_server = server_on_accept False True None 3 (server_init demo_options (\<lambda>_. 77))"

lemma demo_server_reach: "server_reach (demo_net d) demo_options True (\<lambda>_. 77) demo_server"
proof -
  have "server_step (demo_net d) demo_options True (server_init demo_options (\<lambda>_. 77))
      (server_on_accept (use_ssl_build demo_options) True None 3 (server_init demo_options (\<lambda>_. 77)))"
    by (rule server_step.v_accept) (simp_all add: server_init_def)
  from server_reach.v_step [OF server_reach.v_init this] show ?thesis
    by (simp add: demo_server_def demo_options_def)
qed

lemma demo_server_session:
  "ww_sessions (sv_world demo_server) 3 = Some (ws_on_run (ws_new False True))"
  by (simp add: demo_server_def server_on_accept_def server_init_def)

lemma demo_short_parsed:
  "jd_parse (demo_net demo_short) (c_str (to_string [1])) = Some demo_short"
  "jd_is_object (demo_net demo_short) demo_short"
  "jd_find (demo_net demo_short) demo_short MESSAGE_TIME_KEY = Some (JNum 5)"
  by (simp_all add: demo_short_def MESSAGE_TIME_KEY_def)

text \<open>The message has no application: its sender gets the error, after the echo.\<close>

lemma demo_short_message:
  assumes "c_apps c = init_apps demo_options []"
  shows "\<exists>x. core_on_message (demo_net demo_short) call n [1] (st, c) = Some x"
proof -
  let ?L = "demo_net demo_short"
  let ?c1 = "emit (Write_All (Byte_Array_of (jd_write ?L (marked ?L demo_short c))) True) (after_msg c)"
  have ok: "table_ok (c_apps c)" using assms init_apps_ok by simp
  have "jd_find ?L (marked ?L demo_short c) MESSAGE_APP_KEY = None"
    unfolding marked_find [OF demo_net_laws demo_short_parsed(2,3)]
    by (simp add: demo_short_def message_keys)
  then have "check_message ?L (marked ?L demo_short c) \<noteq> Some True"
    by (simp add: check_message_True)
  then have "parser_main ?L (c_apps c) (marked ?L demo_short c) = Some None"
    using check_message_total [of ?L "marked ?L demo_short c"] by (auto simp: parser_main_def)
  moreover have "factory_app ?c1 main = Some ''main''"
    by (rule init_apps_main) (use assms in simp)
  ultimately show ?thesis
    using core_on_message_eq [OF demo_net_laws ok demo_short_parsed(1,2,3) refl, of call n st]
      fail_message_total [of ?c1 main] by fastforce
qed

lemma demo_server_opened:
  "\<exists>sv u. server_reach (demo_net d) demo_options True (\<lambda>_. 77) sv \<and>
     ww_sessions (sv_world sv) 3 = Some u \<and> wk_reads u > 0 \<and> On_Open \<in> set (wk_log u)"
proof -
  let ?L = "demo_net d" and ?s = "ws_on_run (ws_new False True)"
  have acc: "wk_accepts ?s > 0" by (simp add: ws_on_run_def ws_new_def)
  obtain sv u where sv: "server_deliver ?L demo_options demo_answers 3 (ws_on_accept None ?s) demo_server = Some sv"
    "ww_sessions (sv_world sv) 3 = Some u"
    and u: "wk_reads u = wk_reads (ws_on_accept None ?s)" "wk_log u = wk_log (ws_on_accept None ?s)"
    using deliver_open [OF server_reach_inv [OF demo_server_reach] demo_server_session acc
        refl refl refl refl, where L = ?L and os = demo_answers] by fastforce
  have "server_reach ?L demo_options True (\<lambda>_. 77) sv"
    by (rule server_reach.v_step [OF demo_server_reach],
        rule server_step.v_session [OF demo_server_session ws_event.e_accept [OF acc] sv(1)])
  moreover have "wk_reads u > 0" "On_Open \<in> set (wk_log u)"
    by (simp_all add: u ws_on_accept_def ws_do_read_def ws_call_def Let_def)
  ultimately show ?thesis using sv(2) by blast
qed

lemma demo_server_answers:
  "\<exists>sv sv' u. server_reach (demo_net demo_short) demo_options True (\<lambda>_. 77) sv \<and>
     ww_sessions (sv_world sv) 3 = Some u \<and> wk_reads u > 0 \<and> On_Open \<in> set (wk_log u) \<and>
     server_deliver (demo_net demo_short) demo_options demo_answers 3 (ws_on_read None [1] u) sv = Some sv'"
proof -
  let ?L = "demo_net demo_short"
  obtain sv u where r: "server_reach ?L demo_options True (\<lambda>_. 77) sv"
    "ww_sessions (sv_world sv) 3 = Some u" "wk_reads u > 0" "On_Open \<in> set (wk_log u)"
    using demo_server_opened by blast
  have apps: "c_apps (sv_core sv) = init_apps demo_options []"
    using server_reach_inv [OF r(1)] by (simp add: server_inv_def)
  have log: "wk_log (ws_on_read None [1] u) = wk_log u @ [Read_Handler [1]]"
    by (simp add: ws_on_read_def ws_do_read_def ws_call_def Let_def)
  obtain st c where "core_on_message ?L (call_app ?L demo_options demo_answers) 3 [1]
      (sv_apps sv, sv_core sv) = Some (st, c)"
    using demo_short_message [OF apps, of "call_app ?L demo_options demo_answers" 3 "sv_apps sv"] by auto
  then have "\<exists>sv'. server_deliver ?L demo_options demo_answers 3 (ws_on_read None [1] u) sv = Some sv'"
    by (auto simp: server_deliver_def Let_def r(2) log ws_run_callback_def ws_flush_def)
  with r show ?thesis by blast
qed

text \<open>
  C2: The chat, end to end.  In every state the program can reach, when a message arrives on
  a session that is a JSON object with a member \<open>time\<close> and its handler returns, then
  whatever the application it names does, every open session, the sender among them, has
  the message queued, marked with its number, the time of the server and \<open>echoed\<close>, right
  after what it had waiting and before anything the application sends in answer.
\<close>

theorem server_echo:
  assumes "dom_laws L" "server_reach L b dt clock sv"
    and "ww_sessions (sv_world sv) n = Some s" "wk_reads s > 0" "length body \<le> ReadBufferSize"
    and "jd_parse L (c_str (to_string body)) = Some d" "jd_is_object L d"
    and "jd_find L d MESSAGE_TIME_KEY = Some t"
    and "server_deliver L b os n (ws_on_read None body s) sv = Some sv'"
    and "ww_sessions (sv_world sv) m = Some u" "On_Open \<in> set (wk_log u)" "m = n \<or> ws_alive u"
  shows "server_reach L b dt clock sv' \<and>
    (\<exists>u' rest. ww_sessions (sv_world sv') m = Some u' \<and>
      wk_posted u' = wk_posted u @ Byte_Array_of (jd_write L (marked L d (sv_core sv))) # rest)"
proof -
  have inv: "server_inv b dt clock sv" by (rule server_reach_inv [OF assms(2)])
  have "server_step L b dt sv sv'"
    by (rule server_step.v_session [OF assms(3) _ assms(9)], rule ws_event.e_read)
      (use assms(4,5) in simp_all)
  with assms(2) have "server_reach L b dt clock sv'" by (rule server_reach.v_step)
  moreover have "m \<in> set (ww_share (sv_world sv))"
    using inv assms(10,11) by (simp add: server_inv_def)
  ultimately show ?thesis
    using deliver_echo [OF inv assms(3,1,6,7,8,9,10) _ assms(12)] by blast
qed

theorem server_echo_witness:
  "\<exists>sv sv' u u' echo rest. server_reach (demo_net demo_short) demo_options True (\<lambda>_. 77) sv \<and>
     server_deliver (demo_net demo_short) demo_options demo_answers 3 (ws_on_read None [1] u) sv = Some sv' \<and>
     ww_sessions (sv_world sv) 3 = Some u \<and> ww_sessions (sv_world sv') 3 = Some u' \<and>
     wk_posted u' = wk_posted u @ echo # rest"
proof -
  obtain sv sv' u where w: "server_reach (demo_net demo_short) demo_options True (\<lambda>_. 77) sv"
    "ww_sessions (sv_world sv) 3 = Some u" "wk_reads u > 0" "On_Open \<in> set (wk_log u)"
    "server_deliver (demo_net demo_short) demo_options demo_answers 3 (ws_on_read None [1] u) sv = Some sv'"
    using demo_server_answers by blast
  have "length [1 :: byte] \<le> ReadBufferSize" by (simp add: ReadBufferSize_def)
  then show ?thesis
    using server_echo [OF demo_net_laws w(1,2,3) _ demo_short_parsed w(5) w(2,4)] w by blast
qed



text \<open>
  C5: Every state the program can reach, whatever connects, sends, fails and closes in
  whatever order: every session is in a state its class can reach by itself (so that C8
  holds of it), the share holds exactly the sessions whose open callback has run, each
  once, the table of applications is the one of the build, every write a handler made has
  been handed to the sessions, and the listener has at most one accept outstanding.
\<close>

theorem server_invariant:
  assumes "server_reach L b dt clock sv"
  shows "(\<forall>n s. ww_sessions (sv_world sv) n = Some s \<longrightarrow> ws_reach (use_ssl_build b) dt s) \<and>
    distinct (ww_share (sv_world sv)) \<and>
    (n \<in> set (ww_share (sv_world sv)) \<longleftrightarrow>
      (\<exists>s. ww_sessions (sv_world sv) n = Some s \<and> On_Open \<in> set (wk_log s))) \<and>
    c_apps (sv_core sv) = init_apps b [] \<and> c_out (sv_core sv) = [] \<and> sv_accepts sv \<le> 1"
  using server_reach_inv [OF assms] by (auto simp: server_inv_def)

theorem server_invariant_witness:
  "distinct (ww_share (sv_world demo_server)) \<and> ws_reach False True (ws_on_run (ws_new False True)) \<and>
   c_apps (sv_core demo_server) = init_apps demo_options [] \<and> sv_accepts demo_server \<le> 1"
  using server_invariant [OF demo_server_reach] demo_server_session by (simp add: demo_options_def)

text \<open>
  C13: What can end the program.  In a reachable state, if handling an event of a session
  does not return, then the event is a message from that session, and it is a JSON object
  that either has no member \<open>time\<close> or is handed, after the echo, to the handler of an
  application that the build enables and that leaves its contract.  Accepting, the
  handshake, opening, writing, closing and failing, and every text that is not an object,
  are always survived.
\<close>

theorem program_ends_only:
  assumes "dom_laws L" "server_reach L b dt clock sv"
    and "ww_sessions (sv_world sv) n = Some s" "ws_event s s'"
    and "server_deliver L b os n s' sv = None"
  shows "\<exists>body d. s' = ws_on_read None body s \<and> jd_parse L (c_str (to_string body)) = Some d \<and>
    jd_is_object L d \<and> (jd_find L d MESSAGE_TIME_KEY = None \<or>
     (\<exists>m a f. parser_main L (init_apps b []) (marked L d (sv_core sv)) = Some (Some m) \<and>
        app_entry b (md_app m) = Some a \<and> app_func a = Some f \<and>
        call_app L b os f n m (marked L d (sv_core sv)) (sv_apps sv,
          emit (Write_All (Byte_Array_of (jd_write L (marked L d (sv_core sv)))) True)
            (after_msg (sv_core sv))) = None))"
  by (rule deliver_ends [OF assms(1) server_reach_inv [OF assms(2)] assms(3-5)])

theorem program_ends_only_witness:
  "\<exists>sv u body d. server_deliver (demo_net (JObj [])) demo_options demo_answers 3
      (ws_on_read None [1] u) sv = None \<and> ww_sessions (sv_world sv) 3 = Some u \<and>
    ws_on_read None [1] u = ws_on_read None body u \<and>
    jd_parse (demo_net (JObj [])) (c_str (to_string body)) = Some d"
proof -
  let ?L = "demo_net (JObj [])"
  obtain sv u where w: "server_reach ?L demo_options True (\<lambda>_. 77) sv"
    "ww_sessions (sv_world sv) 3 = Some u" "wk_reads u > 0"
    using demo_server_opened by blast
  have "add_mid ?L True (JObj []) (sv_core sv) = None"
    by (rule add_mid_no_time [OF demo_net_laws]) simp_all
  then have m: "core_on_message ?L (call_app ?L demo_options demo_answers) 3 [1]
      (sv_apps sv, sv_core sv) = None"
    by (simp add: core_on_message_def)
  have log: "wk_log (ws_on_read None [1] u) = wk_log u @ [Read_Handler [1]]"
    by (simp add: ws_on_read_def ws_do_read_def ws_call_def Let_def)
  have none: "server_deliver ?L demo_options demo_answers 3 (ws_on_read None [1] u) sv = None"
    using m by (simp add: server_deliver_def Let_def w(2) log ws_run_callback_def)
  have ev: "ws_event u (ws_on_read None [1] u)"
    by (rule ws_event.e_read) (use w(3) in \<open>simp_all add: ReadBufferSize_def\<close>)
  show ?thesis
    using program_ends_only [OF demo_net_laws w(1,2) ev none] none w(2) by blast
qed

text \<open>
  C23: One accept that fails, for instance because the process has no file descriptor left,
  ends the service for everybody who is not connected: from then on, whatever happens, no
  new session comes into being.
\<close>

theorem server_accept_once_failed:
  assumes "server_reach L b dt clock sv"
    and "(server_step L b dt)\<^sup>*\<^sup>* (server_on_accept (use_ssl_build b) dt (Some ec) n sv) sv'"
    and "ww_sessions (sv_world sv) m = None"
  shows "ww_sessions (sv_world sv') m = None"
proof -
  have "server_inv b dt clock sv" by (rule server_reach_inv [OF assms(1)])
  then have "sv_accepts (server_on_accept (use_ssl_build b) dt (Some ec) n sv) = 0"
    by (auto simp: server_inv_def server_on_accept_def)
  moreover have "ww_sessions (sv_world (server_on_accept (use_ssl_build b) dt (Some ec) n sv)) m = None"
    using assms(3) by (simp add: server_on_accept_def)
  ultimately show ?thesis using dead_steps [OF assms(2)] by blast
qed

theorem server_accept_once_failed_witness:
  "ww_sessions (sv_world (server_on_accept False True (Some connection_refused) 4 demo_server)) 5 = None"
  using server_accept_once_failed [OF demo_server_reach, where ec = connection_refused and n = 4
      and m = 5, OF rtranclp.rtrancl_refl]
  by (simp add: demo_options_def demo_server_def server_on_accept_def server_init_def)

section \<open>The parsers of the socket applications\<close>

lemma tcp_server_close_clients_ports:
  assumes "tcp_server_parser_close_clients L doc = Some (Some m)"
  shows "1024 < uint (ep_port (tscc_endpoint m)) \<and>
    (\<forall>e\<in>set (tscc_clients m). 1024 < uint (ep_port e))"
  using assms read_endpoint_port read_endpoint_16_port
  by (auto simp: tcp_server_parser_close_clients_def tcp_server_get_close_clients_def bind_Some_iff
      split: if_splits option.splits)

text \<open>
  C20: The parsers of the requests to open and to close sockets never leave the contract of
  the JSON library: on any object, whatever members it has and of whatever types, each of
  them returns, with a message or with the verdict that the request is malformed.
\<close>

theorem open_close_parsers_total:
  assumes "jd_is_object L doc"
  shows "(\<exists>r. tcp_client_parser_open L doc = Some r) \<and> (\<exists>r. tcp_client_parser_close L doc = Some r) \<and>
    (\<exists>r. tcp_server_parser_open L doc = Some r) \<and> (\<exists>r. tcp_server_parser_close L doc = Some r) \<and>
    (\<exists>r. tcp_server_parser_close_clients L doc = Some r) \<and>
    (\<exists>r. udp_client_parser_open L doc = Some r) \<and> (\<exists>r. udp_client_parser_close L doc = Some r) \<and>
    (\<exists>r. udp_server_parser_open L doc = Some r) \<and> (\<exists>r. udp_server_parser_close L doc = Some r)"
  using tcp_client_parser_open_total [OF assms] tcp_client_parser_close_total [OF assms]
    tcp_server_parser_open_total [OF assms] tcp_server_parser_close_total [OF assms]
    tcp_server_parser_close_clients_total [OF assms] udp_parsers_total [OF assms]
  by blast

theorem open_close_parsers_total_witness:
  "\<exists>r. tcp_server_parser_open jv_net (JObj [(''data'', JObj [(''port'', JBool True)])]) = Some r"
  using open_close_parsers_total [of jv_net "JObj [(''data'', JObj [(''port'', JBool True)])]"]
  by simp

text \<open>
  C21: Every endpoint of an accepted request has a port above 1024: the remote endpoint of
  an open request, the local endpoint of a close or data request, the sender and every
  receiver of a data request of a server, and the clients a server is asked to close.
\<close>

theorem accepted_ports:
  "(\<forall>m. tcp_client_parser_open L doc = Some (Some m) \<longrightarrow> 1024 < uint (ep_port (tco_remote m))) \<and>
   (\<forall>m. tcp_client_parser_close L doc = Some (Some m) \<longrightarrow> 1024 < uint (ep_port (tcc_local m))) \<and>
   (\<forall>m. tcp_client_parser_data L doc = Some (Some m) \<longrightarrow> 1024 < uint (ep_port (tcd_local m))) \<and>
   (\<forall>m. tcp_server_parser_open L doc = Some (Some m) \<longrightarrow> 1024 < uint (tso_port m)) \<and>
   (\<forall>m. tcp_server_parser_close L doc = Some (Some m) \<longrightarrow> 1024 < uint (ep_port (tsc_endpoint m))) \<and>
   (\<forall>m. tcp_server_parser_close_clients L doc = Some (Some m) \<longrightarrow>
      1024 < uint (ep_port (tscc_endpoint m)) \<and> (\<forall>e\<in>set (tscc_clients m). 1024 < uint (ep_port e))) \<and>
   (\<forall>m. tcp_server_parser_data L doc = Some (Some m) \<longrightarrow>
      1024 < uint (ep_port (tsd_from m)) \<and> (\<forall>e\<in>set (tsd_to m). 1024 < uint (ep_port e))) \<and>
   (\<forall>m. udp_client_parser_open L doc = Some (Some m) \<longrightarrow> 1024 < uint (ep_port (uco_remote m))) \<and>
   (\<forall>m. udp_client_parser_close L doc = Some (Some m) \<longrightarrow> 1024 < uint (ep_port (ucc_local m))) \<and>
   (\<forall>m. udp_client_parser_data L doc = Some (Some m) \<longrightarrow> 1024 < uint (ep_port (ucd_local m))) \<and>
   (\<forall>m. udp_server_parser_open L doc = Some (Some m) \<longrightarrow> 1024 < uint (ep_port (uso_ep m))) \<and>
   (\<forall>m. udp_server_parser_close L doc = Some (Some m) \<longrightarrow> 1024 < uint (ep_port (usc_ep m))) \<and>
   (\<forall>m. udp_server_parser_data L doc = Some (Some m) \<longrightarrow>
      1024 < uint (ep_port (usd_from m)) \<and> (\<forall>e\<in>set (usd_to m). 1024 < uint (ep_port e)))"
  by (intro conjI [OF _ conjI] allI impI conjI tcp_client_parser_ports tcp_server_parser_ports
      udp_client_parser_ports udp_server_parser_ports tcp_server_close_clients_ports;
    (assumption | blast dest: tcp_server_close_clients_ports tcp_server_parser_ports(3)
      udp_server_parser_ports(3)))

theorem accepted_ports_witness:
  "1024 < uint (tso_port (the (the (tcp_server_parser_open jv_net bad_open)))) \<and>
   tcp_server_parser_open jv_net bad_open \<noteq> Some None"
proof -
  have p: "tcp_server_parser_open jv_net bad_open = Some (Some \<lparr>tso_secure = plain, tso_port = 3000,
      tso_addr = ''nowhere'', tso_options = no_keepalive\<rparr>)"
    by (rule bad_open_parsed)
  then show ?thesis using accepted_ports [of jv_net bad_open] by simp
qed

text \<open>
  C22: The guard in front of the data messages of the two servers does not reject a
  message whose member \<open>to\<close> is missing or is not an array: it runs into it, because the
  negation in front of the two tests covers only the first of them.  Such a message ends the
  program, and for every other object the guard gives a verdict.
\<close>

theorem data_guard_fault:
  assumes "jd_is_object L doc" "jd_find L doc DATA_KEY = Some d" "jd_is_object L d"
    and "md_type md = data_type"
  shows "(tcp_server_check_data L doc = None \<longleftrightarrow>
      \<not> (\<exists>t. jd_find L d ''to'' = Some t \<and> jd_is_array L t)) \<and>
    (udp_server_check_data L doc = None \<longleftrightarrow>
      \<not> (\<exists>t. jd_find L d ''to'' = Some t \<and> jd_is_array L t)) \<and>
    ((\<exists>t. jd_find L d ''to'' = Some t \<and> jd_is_array L t) \<or>
      (tpc_server_app L use_ssl supports lr ws md doc s = None \<and>
       udp_server_app L opened bind_r close_r ws md doc u = None))"
proof -
  note g = tcp_server_check_data_fault [OF assms(1-3)] udp_server_check_data_fault [OF assms(1-3)]
  have "tpc_server_app L use_ssl supports lr ws md doc s = None \<and>
      udp_server_app L opened bind_r close_r ws md doc u = None"
    if "\<not> (\<exists>t. jd_find L d ''to'' = Some t \<and> jd_is_array L t)"
    using that g assms(4)
    by (simp add: tpc_server_app_def udp_server_app_def tcp_server_message_data_def
        udp_server_message_data_def tcp_server_parser_data_def udp_server_parser_data_def
        case_prod_beta)
  then show ?thesis using g by blast
qed

theorem data_guard_fault_witness:
  "tpc_server_app jv_net False (\<lambda>_. True) (\<lambda>_. None) 0
     \<lparr>md_app = tcp_server, md_time = 0, md_type = data_type, md_control = None\<rparr>
     (JObj [(''data'', JObj [])]) (tv_ka, tv_core) = None"
  using data_guard_fault [where L = jv_net and doc = "JObj [(''data'', JObj [])]" and d = "JObj []"
      and md = "\<lparr>md_app = tcp_server, md_time = 0, md_type = data_type, md_control = None\<rparr>"
      and s = "(tv_ka, tv_core)" and use_ssl = False and supports = "\<lambda>_. True"
      and lr = "\<lambda>_. None" and ws = 0 and opened = True and bind_r = None and close_r = None
      and u = "([], tv_core)"]
  by (simp add: DATA_KEY_def)

end
